(* ===== verification/Prelude.thy ===== *)
theory Prelude
  imports Main "HOL-Library.Word" "HOL-Library.List_Lexorder" "HOL-Library.Char_ord"
    "HOL-Library.AList" "HOL-Library.Multiset"
begin

text \<open>
  Shared vocabulary of the development: the Go values every component uses (64-bit
  generations, byte strings, instants), errors as sums with their sequencing, loops with
  early return, association lists as Go maps, and the sorts of package \<open>sort\<close> over a
  comparison function. The collections \<open>go_simps\<close> and \<open>go_elims\<close> gather the facts that
  the component proofs pass to the simplifier and the classical reasoner.
\<close>

named_theorems go_simps "rewrite rules for results, loops and Go values"
named_theorems go_elims "elimination rules for successful results"

section \<open>Integers, strings and instants\<close>

text \<open>
  \<open>uint64\<close> generations are 64-bit words, so that \<open>Generation++\<close> wraps exactly where the
  code's would; \<open>math.MaxUint64\<close> is the word of all ones. Go strings are byte strings and
  are compared bytewise, which is the lexicographic order of the library on \<open>string\<close>.
\<close>

type_synonym u64 = "64 word"
type_synonym u32 = "32 word"

abbreviation MaxUint64 :: u64 where "MaxUint64 \<equiv> - 1"

lemma u64_less_Suc [go_simps]: "(g::u64) \<noteq> MaxUint64 \<Longrightarrow> g < g + 1"
  by (metis inc_less_eq_triv_imp linorder_less_linear word_le_less_eq)

lemma u64_le_Suc: "(g::u64) \<noteq> MaxUint64 \<Longrightarrow> g \<le> g + 1"
  using u64_less_Suc by (simp add: less_imp_le)

lemma u64_Suc_neq [simp]: "(g::u64) + 1 \<noteq> g"
  by simp

lemma u64_Suc_neq_zero: "(g::u64) \<noteq> MaxUint64 \<Longrightarrow> g + 1 \<noteq> 0"
  by (simp add: add_eq_0_iff2)

lemma unat_u64_Suc: "(g::u64) \<noteq> MaxUint64 \<Longrightarrow> unat (g + 1) = Suc (unat g)"
  by (simp add: add.commute add_eq_0_iff unatSuc)

text \<open>
  \<open>time.Time\<close>: the instant in nanoseconds since the zero time, and whether the value's
  location is UTC. The struct comparison \<open>value == value.UTC()\<close> of the code is sensitive
  to the location, \<open>Before\<close>, \<open>After\<close> and \<open>IsZero\<close> only to the instant.
\<close>

datatype gotime = GoTime (gt_ns: int) (gt_utc: bool)

definition zeroTime :: gotime where
  "zeroTime = GoTime 0 True"

definition isZeroTime :: "gotime \<Rightarrow> bool" where
  "isZeroTime t \<longleftrightarrow> gt_ns t = 0"

definition utc :: "gotime \<Rightarrow> gotime" where
  "utc t = GoTime (gt_ns t) True"

definition before :: "gotime \<Rightarrow> gotime \<Rightarrow> bool" where
  "before s t \<longleftrightarrow> gt_ns s < gt_ns t"

abbreviation after :: "gotime \<Rightarrow> gotime \<Rightarrow> bool" where
  "after s t \<equiv> before t s"

text \<open>\<open>time.Duration\<close> is an \<open>int64\<close>, and \<open>Sub\<close> saturates at its bounds.\<close>

definition maxDuration :: int where "maxDuration = 2 ^ 63 - 1"
definition minDuration :: int where "minDuration = - (2 ^ 63)"

definition timeSub :: "gotime \<Rightarrow> gotime \<Rightarrow> int" where
  "timeSub s t = max minDuration (min maxDuration (gt_ns s - gt_ns t))"

definition timeAdd :: "gotime \<Rightarrow> int \<Rightarrow> gotime" where
  "timeAdd t d = GoTime (gt_ns t + d) (gt_utc t)"

lemma isZeroTime_zeroTime [simp]: "isZeroTime zeroTime"
  by (simp add: isZeroTime_def zeroTime_def)

lemma gt_utc_utc [simp]: "gt_utc (utc t)" "gt_ns (utc t) = gt_ns t"
  by (simp_all add: utc_def)

lemma before_irrefl [simp]: "\<not> before t t"
  by (simp add: before_def)

lemma not_before_trans: "\<not> before b a \<Longrightarrow> \<not> before c b \<Longrightarrow> \<not> before c a"
  by (simp add: before_def)

section \<open>Results\<close>

text \<open>
  A Go function that returns a value and an error is a sum: \<open>Inl\<close> the error, \<open>Inr\<close> the
  value. \<open>andThen\<close> runs the continuation on a value and stops at the first error, as
  \<open>if err != nil { return err }\<close> does; \<open>failIf\<close> is an early return.
\<close>

definition andThen :: "'e + 'a \<Rightarrow> ('a \<Rightarrow> 'e + 'b) \<Rightarrow> 'e + 'b" where
  "andThen m f = (case m of Inl e \<Rightarrow> Inl e | Inr x \<Rightarrow> f x)"

definition failIf :: "bool \<Rightarrow> 'e \<Rightarrow> 'e + unit" where
  "failIf c e = (if c then Inl e else Inr ())"

lemma andThen_simps [simp]:
  "andThen (Inl e) f = Inl e" "andThen (Inr x) f = f x"
  by (simp_all add: andThen_def)

lemma andThen_Inr_iff [go_simps]: "andThen m f = Inr y \<longleftrightarrow> (\<exists>x. m = Inr x \<and> f x = Inr y)"
  by (cases m) auto

lemma andThen_Inl_iff: "andThen m f = Inl e \<longleftrightarrow> m = Inl e \<or> (\<exists>x. m = Inr x \<and> f x = Inl e)"
  by (cases m) auto

lemma andThen_InrE [go_elims, elim]:
  assumes "andThen m f = Inr y" obtains x where "m = Inr x" "f x = Inr y"
  using assms by (auto simp: andThen_Inr_iff)

lemma failIf_simps [simp]:
  "failIf True e = Inl e" "failIf False e = Inr ()"
  by (simp_all add: failIf_def)

lemma failIf_Inr_iff [simp, go_simps]: "failIf c e = Inr u \<longleftrightarrow> \<not> c"
  by (simp add: failIf_def)

lemma failIf_Inl_iff [simp]: "failIf c e = Inl e' \<longleftrightarrow> c \<and> e' = e"
  by (auto simp: failIf_def)

lemma andThen_failIf_iff [go_simps]:
  "andThen (failIf c e) f = Inr y \<longleftrightarrow> \<not> c \<and> f () = Inr y"
  by (cases c) auto

text \<open>A \<open>for\<close> loop whose body may return an error: a fold that stops at the first one.\<close>

fun foldE :: "('s \<Rightarrow> 'x \<Rightarrow> 'e + 's) \<Rightarrow> 's \<Rightarrow> 'x list \<Rightarrow> 'e + 's" where
  "foldE f s [] = Inr s"
| "foldE f s (x # xs) = andThen (f s x) (\<lambda>s'. foldE f s' xs)"

lemma foldE_invariant:
  assumes "foldE f s xs = Inr t" and "I s"
    and "\<And>s x s'. x \<in> set xs \<Longrightarrow> I s \<Longrightarrow> f s x = Inr s' \<Longrightarrow> I s'"
  shows "I t"
  using assms
proof (induction xs arbitrary: s)
  case Nil
  then show ?case by simp
next
  case (Cons x xs)
  from Cons.prems(1) obtain s' where s': "f s x = Inr s'" and t: "foldE f s' xs = Inr t"
    by auto
  have "I s'" using Cons.prems(2,3) s' by (meson list.set_intros(1))
  with t show ?case
    by (rule Cons.IH) (use Cons.prems(3) in \<open>meson list.set_intros(2)\<close>)
qed

text \<open>A loop that only checks: the first failing check is the loop's error.\<close>

fun forE :: "('x \<Rightarrow> 'e + unit) \<Rightarrow> 'x list \<Rightarrow> 'e + unit" where
  "forE f [] = Inr ()"
| "forE f (x # xs) = andThen (f x) (\<lambda>_. forE f xs)"

lemma forE_Inr_iff [go_simps]: "forE f xs = Inr u \<longleftrightarrow> (\<forall>x \<in> set xs. f x = Inr ())"
  by (induction xs) (auto simp: andThen_Inr_iff)

section \<open>Go maps as association lists\<close>

text \<open>
  A map the code ranges over is an association list with distinct keys; \<open>AList.update\<close> and
  \<open>AList.delete\<close> are assignment and \<open>delete\<close>. The order of the list stands for the
  unspecified iteration order of Go.
\<close>

lemma distinct_fst_filter: "distinct (map fst xs) \<Longrightarrow> distinct (map fst (filter P xs))"
  by (induction xs) auto

section \<open>Sorting by a comparison function\<close>

text \<open>
  \<open>sort.SliceStable(xs, lt)\<close>: stable insertion into the sorted rest. An element goes
  before the elements that are not smaller, so equal elements keep their order.
  \<open>sort.Slice\<close> is modelled by the same function: the code uses it on slices whose equal
  elements are rejected as duplicates or are identical.
\<close>

fun insertBy :: "('a \<Rightarrow> 'a \<Rightarrow> bool) \<Rightarrow> 'a \<Rightarrow> 'a list \<Rightarrow> 'a list" where
  "insertBy lt x [] = [x]"
| "insertBy lt x (y # ys) = (if lt y x then y # insertBy lt x ys else x # y # ys)"

fun sortBy :: "('a \<Rightarrow> 'a \<Rightarrow> bool) \<Rightarrow> 'a list \<Rightarrow> 'a list" where
  "sortBy lt [] = []"
| "sortBy lt (x # xs) = insertBy lt x (sortBy lt xs)"

lemma mset_insertBy [simp]: "mset (insertBy lt x ys) = add_mset x (mset ys)"
  by (induction ys) auto

lemma mset_sortBy [simp]: "mset (sortBy lt xs) = mset xs"
  by (induction xs) auto

lemma set_sortBy [simp]: "set (sortBy lt xs) = set xs"
  by (metis mset_sortBy set_mset_mset)

lemma length_sortBy [simp]: "length (sortBy lt xs) = length xs"
  by (metis mset_sortBy size_mset)

lemma set_insertBy [simp]: "set (insertBy lt x ys) = insert x (set ys)"
  by (metis mset_insertBy set_mset_add_mset_insert set_mset_mset)

lemma distinct_sortBy [simp]: "distinct (sortBy lt xs) = distinct xs"
  by (metis mset_sortBy mset_eq_imp_distinct_iff)

lemma sortBy_Nil_iff [simp]: "sortBy lt xs = [] \<longleftrightarrow> xs = []"
  by (metis length_0_conv length_sortBy)

text \<open>
  The contract the code relies on when it hands a comparison to \<open>sort\<close>: a strict weak
  order. Under it the result is sorted, its head is minimal, and elements that compare
  equal keep their relative order.
\<close>

locale comparison =
  fixes lt :: "'a \<Rightarrow> 'a \<Rightarrow> bool"
  assumes asym: "lt a b \<Longrightarrow> \<not> lt b a"
    and negative_trans: "\<not> lt a b \<Longrightarrow> \<not> lt b c \<Longrightarrow> \<not> lt a c"
begin

lemma irrefl: "\<not> lt a a"
  using asym by blast

lemma trans: "lt a b \<Longrightarrow> lt b c \<Longrightarrow> lt a c"
  using asym negative_trans by blast

lemma insertBy_sorted:
  "sorted_wrt (\<lambda>x y. \<not> lt y x) ys \<Longrightarrow> sorted_wrt (\<lambda>x y. \<not> lt y x) (insertBy lt x ys)"
proof (induction ys)
  case Nil
  then show ?case by simp
next
  case (Cons y ys)
  show ?case
  proof (cases "lt y x")
    case True
    with Cons asym show ?thesis by auto
  next
    case False
    with Cons.prems have "\<not> lt z x" if "z \<in> set ys" for z
      using that negative_trans [of z y x] by simp
    with False Cons.prems show ?thesis by simp
  qed
qed

lemma sortBy_sorted: "sorted_wrt (\<lambda>x y. \<not> lt y x) (sortBy lt xs)"
  by (induction xs) (simp_all add: insertBy_sorted)

lemma sortBy_head_minimal: "sortBy lt xs = x # ys \<Longrightarrow> y \<in> set xs \<Longrightarrow> \<not> lt y x"
proof -
  assume sorted: "sortBy lt xs = x # ys" and "y \<in> set xs"
  then have "y \<in> set (x # ys)" by (metis set_sortBy)
  with sortBy_sorted [of xs] sorted irrefl show "\<not> lt y x" by auto
qed

lemma insertBy_filter_equivalent:
  "sorted_wrt (\<lambda>x y. \<not> lt y x) ys \<Longrightarrow>
   filter (\<lambda>y. \<not> lt y z \<and> \<not> lt z y) (insertBy lt x ys) =
   filter (\<lambda>y. \<not> lt y z \<and> \<not> lt z y) (x # ys)"
proof (induction ys)
  case Nil
  then show ?case by simp
next
  case (Cons y ys)
  have "\<not> (\<not> lt y z \<and> \<not> lt z y \<and> \<not> lt x z \<and> \<not> lt z x)" if "lt y x"
    using that negative_trans by blast
  with Cons show ?case by auto
qed

lemma sortBy_stable:
  "filter (\<lambda>y. \<not> lt y z \<and> \<not> lt z y) (sortBy lt xs) =
   filter (\<lambda>y. \<not> lt y z \<and> \<not> lt z y) xs"
  by (induction xs) (simp_all add: insertBy_filter_equivalent sortBy_sorted)

lemma sortBy_of_sorted:
  "sorted_wrt (\<lambda>x y. \<not> lt y x) xs \<Longrightarrow> sortBy lt xs = xs"
proof (induction xs)
  case Nil
  then show ?case by simp
next
  case (Cons x xs)
  then show ?case by (cases xs) auto
qed

lemma sortBy_idempotent: "sortBy lt (sortBy lt xs) = sortBy lt xs"
  by (rule sortBy_of_sorted [OF sortBy_sorted])

lemma sortBy_permutation_map:
  assumes "mset xs = mset ys"
    and same: "\<And>a b. a \<in> set xs \<Longrightarrow> b \<in> set xs \<Longrightarrow> \<not> lt a b \<Longrightarrow> \<not> lt b a \<Longrightarrow> f a = f b"
  shows "map f (sortBy lt xs) = map f (sortBy lt ys)"
proof -
  have "map f us = map f vs"
    if "mset us = mset vs" "sorted_wrt (\<lambda>x y. \<not> lt y x) us" "sorted_wrt (\<lambda>x y. \<not> lt y x) vs"
      "set us \<subseteq> set xs" for us vs
    using that
  proof (induction us arbitrary: vs)
    case Nil
    then show ?case by simp
  next
    case (Cons u us)
    from Cons.prems(1) have "u \<in> set vs" by (metis list.set_intros(1) set_mset_mset)
    then obtain as bs where vs: "vs = as @ u # bs" by (meson split_list)
    have eq: "f a = f u" if a: "a \<in> set as" for a
    proof -
      have "a \<in> set (u # us)" using Cons.prems(1) vs a
        by (metis UnI1 set_append set_mset_mset)
      with Cons.prems(2) irrefl have "\<not> lt a u" by auto
      moreover from Cons.prems(3) vs a have "\<not> lt u a" by (auto simp: sorted_wrt_append)
      ultimately show ?thesis
        using same [of a u] Cons.prems(4) \<open>a \<in> set (u # us)\<close> by auto
    qed
    have "map f us = map f (as @ bs)"
      by (rule Cons.IH) (use Cons.prems vs in \<open>auto simp: sorted_wrt_append\<close>)
    moreover have "map f (as @ [u]) = map f (u # as)"
      using eq by (induction as) auto
    ultimately show ?case by (simp add: vs)
  qed
  from this [of "sortBy lt xs" "sortBy lt ys"] show ?thesis
    using assms(1) by (simp add: sortBy_sorted)
qed

end

text \<open>Any order that compares a key of a linear order is a comparison.\<close>

lemma comparison_key: "comparison (\<lambda>a b. (key a :: 'k :: linorder) < key b)"
  by unfold_locales auto

text \<open>Comparing one key first and the rest where the keys agree keeps the contract.\<close>

lemma comparison_lex:
  assumes "comparison (\<lambda>a b. lt1 a b)" and "comparison rest"
    and "\<And>a b. same a b \<longleftrightarrow> \<not> lt1 a b \<and> \<not> lt1 b a"
  shows "comparison (\<lambda>a b. if \<not> same a b then lt1 a b else rest a b)"
proof -
  note one = comparison.asym [OF assms(1)] comparison.negative_trans [OF assms(1)]
  note two = comparison.asym [OF assms(2)] comparison.negative_trans [OF assms(2)]
  show ?thesis
    by unfold_locales (auto simp: assms(3) split: if_splits dest: one two)
qed

lemma comparison_lex_key:
  assumes "comparison rest"
  shows "comparison (\<lambda>a b. if (key a :: 'k :: linorder) \<noteq> key b then key a < key b else rest a b)"
  by (rule comparison_lex [OF comparison_key assms]) auto

interpretation byString: comparison "(<) :: string \<Rightarrow> string \<Rightarrow> bool"
  using comparison_key [of "\<lambda>x. x"] by simp

section \<open>Lists\<close>

text \<open>The first element that satisfies a predicate, and its index.\<close>

fun findIndex :: "('a \<Rightarrow> bool) \<Rightarrow> 'a list \<Rightarrow> nat option" where
  "findIndex P [] = None"
| "findIndex P (x # xs) = (if P x then Some 0 else map_option Suc (findIndex P xs))"

lemma findIndex_None [simp, go_simps]: "findIndex P xs = None \<longleftrightarrow> (\<forall>x \<in> set xs. \<not> P x)"
  by (induction xs) auto

lemma findIndex_SomeD: "findIndex P xs = Some i \<Longrightarrow> i < length xs \<and> P (xs ! i)"
  by (induction xs arbitrary: i) (auto split: if_splits)

lemma find_Some_mem: "find P xs = Some x \<Longrightarrow> x \<in> set xs \<and> P x"
  by (induction xs) (auto split: if_splits)

text \<open>\<open>append(kept[:0], ...)\<close> over the elements a loop keeps, and strictly ascending lists.\<close>

fun ascending :: "'a::ord list \<Rightarrow> bool" where
  "ascending [] = True"
| "ascending [x] = True"
| "ascending (x # y # zs) = (x < y \<and> ascending (y # zs))"

lemma ascending_sorted_wrt: "ascending (xs :: 'a::order list) \<longleftrightarrow> sorted_wrt (<) xs"
proof (induction xs rule: ascending.induct)
  case (3 x y zs)
  then show ?case by (auto dest: less_trans)
qed simp_all

lemma ascending_distinct: "ascending (xs :: 'a::order list) \<Longrightarrow> distinct xs"
  unfolding ascending_sorted_wrt by (induction xs) auto

section \<open>Reachability\<close>

text \<open>
  States reachable from an initial state by a step relation, and the interface of an
  invariant: it holds initially and every step keeps it.
\<close>

inductive reachable :: "('s \<Rightarrow> bool) \<Rightarrow> ('s \<Rightarrow> 's \<Rightarrow> bool) \<Rightarrow> 's \<Rightarrow> bool"
  for initial :: "'s \<Rightarrow> bool" and step :: "'s \<Rightarrow> 's \<Rightarrow> bool" where
  reachable_initial: "initial s \<Longrightarrow> reachable initial step s"
| reachable_step: "reachable initial step s \<Longrightarrow> step s t \<Longrightarrow> reachable initial step t"

locale invariant =
  fixes initial :: "'s \<Rightarrow> bool" and step :: "'s \<Rightarrow> 's \<Rightarrow> bool" and inv :: "'s \<Rightarrow> bool"
  assumes initially: "initial s \<Longrightarrow> inv s"
    and preserved: "inv s \<Longrightarrow> step s t \<Longrightarrow> inv t"
begin

lemma always: "reachable initial step s \<Longrightarrow> inv s"
  by (induction rule: reachable.induct) (auto intro: initially preserved)

end

section \<open>Optimistic commits\<close>

text \<open>
  The contract of a store whose every commit names the version it read: an accepted commit
  named the current version, the version moves up by one, and the last version is never
  left, so it cannot wrap. Then a fence once used, or overtaken, is dead for good.
\<close>

locale versioned_store =
  fixes version :: "'s \<Rightarrow> u64" and claimed :: "'f \<Rightarrow> u64"
    and commit :: "'s \<Rightarrow> 'f \<Rightarrow> 'm \<Rightarrow> 's \<Rightarrow> bool"
  assumes accepted: "commit s f m s' \<Longrightarrow> claimed f = version s"
    and bounded: "commit s f m s' \<Longrightarrow> version s \<noteq> MaxUint64"
    and advances: "commit s f m s' \<Longrightarrow> version s' = version s + 1"
begin

definition committed :: "'s \<Rightarrow> 's \<Rightarrow> bool" where
  "committed = (\<lambda>s s'. \<exists>f m. commit s f m s')\<^sup>*\<^sup>*"

lemma commit_less: "commit s f m s' \<Longrightarrow> version s < version s'"
  by (simp add: advances bounded u64_less_Suc)

lemma committed_le: "committed s s' \<Longrightarrow> version s \<le> version s'"
  unfolding committed_def
  by (induction rule: rtranclp_induct) (auto dest!: commit_less)

lemma superseded_fence:
  assumes "commit s f m s'" and "committed s' t" and "claimed f' = claimed f"
  shows "\<not> commit t f' m' t'"
proof
  assume "commit t f' m' t'"
  with assms accepted have "version t = version s" by metis
  with commit_less [OF assms(1)] committed_le [OF assms(2)] show False by simp
qed

lemma commits_exclusive: "commit s f m s' \<Longrightarrow> commit s f' m' s'' \<Longrightarrow> version s' = version s''"
  by (simp add: advances)

end

end
