(* ===== verification/TurnLease.thy ===== *)
theory TurnLease
  imports Prelude
begin

text \<open>
  The in-memory turn-lease manager of \<open>internal/proxy/codex_turn_lease.go\<close>: lease and
  attempt states with their transition tables, the lease of one Codex turn, the manager
  that keeps one lease per turn and one current turn per lane, and every operation on it.

  The manager's map holds pointers to leases, and \<open>AcquireRoute\<close> and \<open>AdmitContext\<close> keep
  such a pointer while they run a callback with the mutex released. So the leases live in
  an explicit heap and the map holds addresses; an operation that spans a callback is one
  function per critical section. A nil receiver is a manager whose lifecycle is closed: the
  code answers both with the same results.
\<close>

section \<open>Keys\<close>

record lane_key =
  lk_session :: string
  lk_thread :: string
  lk_namespace :: string

record lease_key =
  key_lane :: lane_key
  key_turn :: string

definition CodexResponsesNamespace :: string where
  "CodexResponsesNamespace = ''codex-responses''"

definition NewCodexLeaseKey :: "string \<Rightarrow> string \<Rightarrow> string \<Rightarrow> lease_key" where
  "NewCodexLeaseKey session thread turn =
     \<lparr>key_lane = \<lparr>lk_session = session, lk_thread = thread,
        lk_namespace = CodexResponsesNamespace\<rparr>, key_turn = turn\<rparr>"

text \<open>
  The sentinel errors of the file; \<open>ErrCallback\<close> carries an error that a callback or the
  caller's context returned, and \<open>PanicClosedChannel\<close> is Go's panic on \<open>close\<close> of a
  closed or nil channel.
\<close>

datatype turn_error =
    ErrCodexStaleTurn
  | ErrCodexConcurrentTurn
  | ErrCodexContinuity string
  | ErrCodexLeaseTransition
  | ErrCodexLeaseWriterUnavailable
  | ErrInvalidLane
  | ErrInvalidTurn
  | ErrSelectorUnavailable
  | ErrEmptyAccount
  | ErrRoutingReferenceUnavailable
  | ErrCallback string
  | ErrRevalidate string
  | ErrPersist string
  | PanicClosedChannel

definition validateLaneKey :: "lane_key \<Rightarrow> turn_error + unit" where
  "validateLaneKey k =
     failIf (lk_session k = [] \<or> lk_thread k = [] \<or> lk_namespace k = []) ErrInvalidLane"

definition validateLeaseKey :: "lease_key \<Rightarrow> turn_error + unit" where
  "validateLeaseKey k =
     andThen (validateLaneKey (key_lane k)) (\<lambda>_. failIf (key_turn k = []) ErrInvalidTurn)"

section \<open>States\<close>

datatype lease_state =
    LeaseReserving
  | LeaseProvisional
  | LeaseBoundActive
  | LeaseContinuationPending
  | LeaseBoundQuiescent
  | LeaseOrphaned
  | LeaseSuperseded
  | LeaseExpired
  | LeaseFailedUnadmitted
  | LeaseStateOther nat \<comment> \<open>any other \<open>uint8\<close>, the zero value among them\<close>

fun leaseStateString :: "lease_state \<Rightarrow> string" where
  "leaseStateString LeaseReserving = ''reserving''"
| "leaseStateString LeaseProvisional = ''provisional''"
| "leaseStateString LeaseBoundActive = ''bound_active''"
| "leaseStateString LeaseContinuationPending = ''continuation_pending''"
| "leaseStateString LeaseBoundQuiescent = ''bound_quiescent''"
| "leaseStateString LeaseOrphaned = ''orphaned''"
| "leaseStateString LeaseSuperseded = ''superseded''"
| "leaseStateString LeaseExpired = ''expired''"
| "leaseStateString LeaseFailedUnadmitted = ''failed_unadmitted''"
| "leaseStateString (LeaseStateOther _) = ''unknown''"

definition validLeaseTransition :: "lease_state \<Rightarrow> lease_state \<Rightarrow> bool" where
  "validLeaseTransition from to =
     (if from = LeaseProvisional \<and> to = LeaseProvisional then True
      else case from of
        LeaseReserving \<Rightarrow> to = LeaseProvisional \<or> to = LeaseFailedUnadmitted
      | LeaseProvisional \<Rightarrow> to = LeaseBoundActive \<or> to = LeaseFailedUnadmitted
      | LeaseBoundActive \<Rightarrow>
          to = LeaseContinuationPending \<or> to = LeaseBoundQuiescent \<or> to = LeaseOrphaned
      | LeaseContinuationPending \<Rightarrow>
          to = LeaseBoundActive \<or> to = LeaseOrphaned \<or> to = LeaseSuperseded \<or> to = LeaseExpired
      | LeaseBoundQuiescent \<Rightarrow>
          to = LeaseBoundActive \<or> to = LeaseOrphaned \<or> to = LeaseSuperseded \<or> to = LeaseExpired
      | LeaseOrphaned \<Rightarrow>
          to = LeaseBoundActive \<or> to = LeaseOrphaned \<or> to = LeaseSuperseded \<or> to = LeaseExpired
      | _ \<Rightarrow> False)"

datatype attempt_state =
    AttemptNone \<comment> \<open>the zero value of the type\<close>
  | AttemptPrepared
  | AttemptDispatched
  | AttemptStreaming
  | AttemptProviderCompleted
  | AttemptProviderFailed
  | AttemptIndeterminate
  | AttemptAbandonedBeforeDispatch
  | AttemptAccountUnavailable
  | AttemptStateOther nat

fun attemptStateString :: "attempt_state \<Rightarrow> string" where
  "attemptStateString AttemptPrepared = ''prepared''"
| "attemptStateString AttemptDispatched = ''dispatched''"
| "attemptStateString AttemptStreaming = ''streaming''"
| "attemptStateString AttemptProviderCompleted = ''provider_completed''"
| "attemptStateString AttemptProviderFailed = ''provider_failed''"
| "attemptStateString AttemptIndeterminate = ''indeterminate''"
| "attemptStateString AttemptAbandonedBeforeDispatch = ''abandoned_before_dispatch''"
| "attemptStateString AttemptAccountUnavailable = ''account_unavailable''"
| "attemptStateString _ = ''unknown''"

definition validCodexAttemptTransition :: "attempt_state \<Rightarrow> attempt_state \<Rightarrow> bool" where
  "validCodexAttemptTransition from to =
     (case from of
        AttemptPrepared \<Rightarrow> to = AttemptDispatched \<or> to = AttemptAccountUnavailable
      | AttemptDispatched \<Rightarrow> to = AttemptStreaming \<or> to = AttemptProviderFailed \<or>
          to = AttemptIndeterminate \<or> to = AttemptAccountUnavailable
      | AttemptStreaming \<Rightarrow> to = AttemptProviderCompleted \<or> to = AttemptProviderFailed \<or>
          to = AttemptIndeterminate \<or> to = AttemptAccountUnavailable
      | _ \<Rightarrow> False)"

section \<open>Leases\<close>

type_synonym account_key = string
type_synonym capacity_bucket = string

record route_choice =
  rc_account :: account_key
  rc_requested_model :: string
  rc_effective_model :: string
  rc_buckets :: "capacity_bucket list"

definition emptyChoice :: route_choice where
  "emptyChoice = \<lparr>rc_account = [], rc_requested_model = [], rc_effective_model = [],
     rc_buckets = []\<rparr>"

record turn_lease =
  tl_key :: lease_key
  tl_state :: lease_state
  tl_account :: account_key
  tl_choice :: route_choice
  tl_generation :: u64
  tl_mode_epoch :: u64
  tl_authoritative :: bool
  tl_routing_refs :: int
  tl_active_attempts :: int
  tl_socket :: u64
  tl_anchor :: string
  tl_turn_state :: string
  tl_turn_state_unavailable :: bool
  tl_encrypted :: bool
  tl_non_migratable :: bool
  tl_adopted_prewarm :: bool
  tl_last_seen :: gotime

definition checkContinuation :: "turn_lease \<Rightarrow> account_key \<Rightarrow> u64 \<Rightarrow> string \<Rightarrow> turn_error + unit"
  where
  "checkContinuation lease account socketGeneration previousResponseID =
     (if previousResponseID \<noteq> [] \<and> account \<noteq> tl_account lease
      then Inl (ErrCodexContinuity ''account mismatch'')
      else if previousResponseID \<noteq> [] \<and>
        (socketGeneration = 0 \<or> socketGeneration \<noteq> tl_socket lease)
      then Inl (ErrCodexContinuity ''upstream socket generation mismatch'')
      else Inr ())"

section \<open>The manager\<close>

text \<open>
  A managed lease is the lease and its \<open>ready\<close> channel, which carries no values and is
  open, closed or nil. The manager is the core all mode views share: the current turn of
  each lane, the leases by turn (as addresses), the heap, the next free address and the
  lifecycle's \<open>closed\<close> flag.
\<close>

datatype ready_channel = ReadyOpen | ReadyClosed | ReadyNil

record managed_lease =
  ml_lease :: turn_lease
  ml_ready :: ready_channel

record manager =
  mg_current :: "lane_key \<Rightarrow> lease_key option"
  mg_leases :: "(lease_key \<times> nat) list"
  mg_heap :: "nat \<Rightarrow> managed_lease"
  mg_next :: nat
  mg_closed :: bool

record mode_view =
  mv_epoch :: u64
  mv_authoritative :: bool

definition zeroLease :: turn_lease where
  "zeroLease = \<lparr>tl_key = \<lparr>key_lane = \<lparr>lk_session = [], lk_thread = [], lk_namespace = []\<rparr>,
       key_turn = []\<rparr>,
     tl_state = LeaseStateOther 0, tl_account = [], tl_choice = emptyChoice,
     tl_generation = 0, tl_mode_epoch = 0, tl_authoritative = False, tl_routing_refs = 0,
     tl_active_attempts = 0, tl_socket = 0, tl_anchor = [], tl_turn_state = [],
     tl_turn_state_unavailable = False, tl_encrypted = False, tl_non_migratable = False,
     tl_adopted_prewarm = False, tl_last_seen = zeroTime\<rparr>"

definition newManager :: manager where
  "newManager = \<lparr>mg_current = Map.empty, mg_leases = [],
     mg_heap = (\<lambda>_. \<lparr>ml_lease = zeroLease, ml_ready = ReadyNil\<rparr>), mg_next = 0,
     mg_closed = False\<rparr>"

definition forMode :: "manager \<Rightarrow> u64 \<Rightarrow> bool \<Rightarrow> mode_view" where
  "forMode m modeEpoch authoritative =
     (if mg_closed m then \<lparr>mv_epoch = 0, mv_authoritative = False\<rparr>
      else \<lparr>mv_epoch = modeEpoch, mv_authoritative = authoritative\<rparr>)"

definition leaseAddr :: "manager \<Rightarrow> lease_key \<Rightarrow> nat option" where
  "leaseAddr m k = map_of (mg_leases m) k"

definition leaseAt :: "manager \<Rightarrow> nat \<Rightarrow> turn_lease" where
  "leaseAt m a = ml_lease (mg_heap m a)"

text \<open>
  \<open>manager.current[key.Lane] == key\<close>: a lane without an entry reads as the zero key.
\<close>

definition zeroKey :: lease_key where
  "zeroKey = \<lparr>key_lane = \<lparr>lk_session = [], lk_thread = [], lk_namespace = []\<rparr>, key_turn = []\<rparr>"

definition isCurrent :: "manager \<Rightarrow> lease_key \<Rightarrow> bool" where
  "isCurrent m k \<longleftrightarrow> (case mg_current m (key_lane k) of Some c \<Rightarrow> c | None \<Rightarrow> zeroKey) = k"

text \<open>Writing through a pointer: the lease at an address, the whole cell, a new cell.\<close>

definition updLease :: "nat \<Rightarrow> (turn_lease \<Rightarrow> turn_lease) \<Rightarrow> manager \<Rightarrow> manager" where
  "updLease a f m = m\<lparr>mg_heap := (mg_heap m)(a := (mg_heap m a)\<lparr>ml_lease := f (leaseAt m a)\<rparr>)\<rparr>"

definition setReady :: "nat \<Rightarrow> ready_channel \<Rightarrow> manager \<Rightarrow> manager" where
  "setReady a r m = m\<lparr>mg_heap := (mg_heap m)(a := (mg_heap m a)\<lparr>ml_ready := r\<rparr>)\<rparr>"

definition allocLease :: "lease_key \<Rightarrow> managed_lease \<Rightarrow> manager \<Rightarrow> manager" where
  "allocLease k cell m = m\<lparr>mg_heap := (mg_heap m)(mg_next m := cell),
     mg_leases := AList.update k (mg_next m) (mg_leases m), mg_next := Suc (mg_next m)\<rparr>"

definition bump :: "gotime \<Rightarrow> turn_lease \<Rightarrow> turn_lease" where
  "bump now l = l\<lparr>tl_generation := tl_generation l + 1, tl_last_seen := now\<rparr>"

section \<open>Acquiring a route\<close>

text \<open>
  \<open>AcquireRoute\<close> up to the point where it releases the mutex: an error, a wait on another
  request's reservation (the address whose \<open>ready\<close> channel it waits on), a lease that is
  already routable, or a fresh reservation for which the selector must now run.
\<close>

datatype acquire_outcome =
    AcquireError turn_error
  | AcquireWait nat
  | AcquireHit turn_lease
  | AcquireSelect nat

definition liveWork :: "turn_lease \<Rightarrow> bool" where
  "liveWork l \<longleftrightarrow> tl_routing_refs l \<noteq> 0 \<or> tl_active_attempts l \<noteq> 0 \<or>
     tl_state l = LeaseReserving \<or> tl_state l = LeaseProvisional \<or> tl_state l = LeaseBoundActive"

definition reservation :: "mode_view \<Rightarrow> gotime \<Rightarrow> lease_key \<Rightarrow> managed_lease" where
  "reservation v now key = \<lparr>ml_lease = zeroLease\<lparr>tl_key := key, tl_state := LeaseReserving,
     tl_generation := 1, tl_mode_epoch := mv_epoch v, tl_authoritative := mv_authoritative v,
     tl_routing_refs := 1, tl_last_seen := now\<rparr>, ml_ready = ReadyOpen\<rparr>"

definition acquireExisting ::
  "manager \<Rightarrow> gotime \<Rightarrow> lease_key \<Rightarrow> nat \<Rightarrow> manager \<times> acquire_outcome" where
  "acquireExisting m now key a =
     (let l = leaseAt m a in
      if \<not> isCurrent m key then (m, AcquireError ErrCodexStaleTurn)
      else if tl_state l = LeaseReserving then (m, AcquireWait a)
      else if tl_state l = LeaseFailedUnadmitted \<or> tl_state l = LeaseExpired \<or>
        tl_state l = LeaseSuperseded then (m, AcquireError ErrCodexStaleTurn)
      else let m' = updLease a (\<lambda>l. l\<lparr>tl_routing_refs := tl_routing_refs l + 1,
             tl_last_seen := now\<rparr>) m
           in (m', AcquireHit (leaseAt m' a)))"

definition supersede :: "manager \<Rightarrow> gotime \<Rightarrow> nat \<Rightarrow> turn_error + manager" where
  "supersede m now a =
     (let l = leaseAt m a in
      if liveWork l then Inl ErrCodexConcurrentTurn
      else if \<not> validLeaseTransition (tl_state l) LeaseSuperseded then Inl ErrCodexConcurrentTurn
      else Inr (updLease a (\<lambda>l. bump now (l\<lparr>tl_state := LeaseSuperseded\<rparr>)) m))"

definition acquireBegin ::
  "mode_view \<Rightarrow> manager \<Rightarrow> gotime \<Rightarrow> lease_key \<Rightarrow> manager \<times> acquire_outcome" where
  "acquireBegin v m now key =
     (if mg_closed m then (m, AcquireError ErrCodexLeaseWriterUnavailable)
      else case validateLeaseKey key of
        Inl e \<Rightarrow> (m, AcquireError e)
      | Inr _ \<Rightarrow>
        (case leaseAddr m key of
           Some a \<Rightarrow> acquireExisting m now key a
         | None \<Rightarrow>
           (case (case Option.bind (mg_current m (key_lane key)) (leaseAddr m) of
                    None \<Rightarrow> Inr m | Some p \<Rightarrow> supersede m now p) of
              Inl e \<Rightarrow> (m, AcquireError e)
            | Inr m1 \<Rightarrow>
                ((allocLease key (reservation v now key) m1)
                   \<lparr>mg_current := (mg_current m1)(key_lane key \<mapsto> key)\<rparr>,
                 AcquireSelect (mg_next m1)))))"

text \<open>
  The second critical section, with the selector's choice and error. It writes through the
  pointer without looking the key up again.
\<close>

definition closeReady :: "nat \<Rightarrow> manager \<Rightarrow> turn_error + manager" where
  "closeReady a m = (if ml_ready (mg_heap m a) = ReadyOpen then Inr (setReady a ReadyClosed m)
     else Inl PanicClosedChannel)"

definition acquireFinish ::
  "manager \<Rightarrow> gotime \<Rightarrow> nat \<Rightarrow> route_choice \<Rightarrow> turn_error option \<Rightarrow>
   manager \<times> (turn_error + turn_lease)" where
  "acquireFinish m now a choice err =
     (if mg_closed m then (m, Inl ErrCodexLeaseWriterUnavailable)
      else if err \<noteq> None \<or> rc_account choice = [] then
        let m1 = updLease a (\<lambda>l. bump now (l\<lparr>tl_state := LeaseFailedUnadmitted,
              tl_routing_refs := 0\<rparr>)) m
        in case closeReady a m1 of
             Inl p \<Rightarrow> (m1, Inl p)
           | Inr m2 \<Rightarrow> (m2, Inl (case err of Some e \<Rightarrow> e | None \<Rightarrow> ErrEmptyAccount))
      else
        let m1 = updLease a (\<lambda>l. bump now (l\<lparr>tl_account := rc_account choice,
              tl_choice := choice, tl_state := LeaseProvisional\<rparr>)) m
        in case closeReady a m1 of
             Inl p \<Rightarrow> (m1, Inl p)
           | Inr m2 \<Rightarrow> (m2, Inr (leaseAt m2 a)))"

text \<open>
  \<open>AcquireRoute\<close> with no other request in between: \<open>None\<close> where the call waits on a
  reservation of another request.
\<close>

definition acquireRoute ::
  "mode_view \<Rightarrow> manager \<Rightarrow> gotime \<Rightarrow> gotime \<Rightarrow> lease_key \<Rightarrow> route_choice \<times> turn_error option \<Rightarrow>
   (manager \<times> (turn_error + turn_lease)) option" where
  "acquireRoute v m now1 now2 key selection =
     (case acquireBegin v m now1 key of
        (m', AcquireError e) \<Rightarrow> Some (m', Inl e)
      | (m', AcquireWait a) \<Rightarrow> None
      | (m', AcquireHit l) \<Rightarrow> Some (m', Inr l)
      | (m', AcquireSelect a) \<Rightarrow>
          Some (acquireFinish m' now2 a (fst selection) (snd selection)))"

text \<open>\<open>Acquire\<close> wraps an account selector as a route selector with no model or buckets.\<close>

definition accountSelection ::
  "account_key \<times> turn_error option \<Rightarrow> route_choice \<times> turn_error option" where
  "accountSelection s = (emptyChoice\<lparr>rc_account := fst s\<rparr>, snd s)"

section \<open>Routing references and the provisional route\<close>

definition replaceProvisionalRoute ::
  "manager \<Rightarrow> gotime \<Rightarrow> lease_key \<Rightarrow> route_choice \<Rightarrow> manager \<times> (turn_error + turn_lease)" where
  "replaceProvisionalRoute m now key choice =
     (if mg_closed m then (m, Inl ErrCodexLeaseWriterUnavailable)
      else case leaseAddr m key of
        None \<Rightarrow> (m, Inl ErrCodexLeaseTransition)
      | Some a \<Rightarrow>
          if \<not> isCurrent m key \<or> tl_state (leaseAt m a) \<noteq> LeaseProvisional \<or>
            rc_account choice = [] then (m, Inl ErrCodexLeaseTransition)
          else let m' = updLease a (\<lambda>l. bump now (l\<lparr>tl_account := rc_account choice,
                  tl_choice := choice\<rparr>)) m
               in (m', Inr (leaseAt m' a)))"

definition releaseRouting ::
  "manager \<Rightarrow> gotime \<Rightarrow> lease_key \<Rightarrow> manager \<times> (turn_error + unit)" where
  "releaseRouting m now key =
     (if mg_closed m then (m, Inl ErrCodexLeaseWriterUnavailable)
      else case leaseAddr m key of
        None \<Rightarrow> (m, Inl ErrRoutingReferenceUnavailable)
      | Some a \<Rightarrow>
          if tl_routing_refs (leaseAt m a) = 0 then (m, Inl ErrRoutingReferenceUnavailable)
          else (updLease a (\<lambda>l. l\<lparr>tl_routing_refs := tl_routing_refs l - 1,
                  tl_last_seen := now\<rparr>) m, Inr ()))"

section \<open>Admission\<close>

text \<open>
  \<open>AdmitContext\<close> runs under the account's gate and the lifecycle's persistence lock. Its
  first critical section binds the lease and takes the snapshot to persist; the second runs
  after the caller's \<open>persist\<close> and writes through the pointer it kept.
\<close>

definition snapshotLocked :: "manager \<Rightarrow> turn_lease list" where
  "snapshotLocked m = map (\<lambda>(k, a). leaseAt m a) (mg_leases m)"

definition snapshot :: "manager \<Rightarrow> turn_lease list" where
  "snapshot m = (if mg_closed m then [] else snapshotLocked m)"

definition admitBind ::
  "manager \<Rightarrow> gotime \<Rightarrow> lease_key \<Rightarrow> account_key \<Rightarrow> u64 \<Rightarrow>
   manager \<times> (turn_error + nat \<times> turn_lease list \<times> turn_lease)" where
  "admitBind m now key account socketGeneration =
     (if mg_closed m then (m, Inl ErrCodexLeaseWriterUnavailable)
      else case leaseAddr m key of
        None \<Rightarrow> (m, Inl ErrCodexStaleTurn)
      | Some a \<Rightarrow>
          if \<not> isCurrent m key then (m, Inl ErrCodexStaleTurn)
          else if tl_account (leaseAt m a) \<noteq> account
          then (m, Inl (ErrCodexContinuity ''admission account mismatch''))
          else if \<not> validLeaseTransition (tl_state (leaseAt m a)) LeaseBoundActive
          then (m, Inl ErrCodexLeaseTransition)
          else let m' = updLease a (\<lambda>l. bump now (l\<lparr>tl_state := LeaseBoundActive,
                  tl_active_attempts := tl_active_attempts l + 1,
                  tl_socket := socketGeneration\<rparr>)) m
               in (m', Inr (a, snapshotLocked m', leaseAt m' a)))"

definition admitPersisted ::
  "manager \<Rightarrow> nat \<Rightarrow> turn_lease \<Rightarrow> string option \<Rightarrow>
   manager \<times> turn_lease option \<times> turn_error option" where
  "admitPersisted m a result persistErr =
     (if mg_closed m then (m, None, Some ErrCodexLeaseWriterUnavailable)
      else case persistErr of
        None \<Rightarrow> (m, Some result, None)
      | Some e \<Rightarrow>
          let m' = updLease a (\<lambda>l. l\<lparr>tl_non_migratable := True,
                tl_generation := tl_generation l + 1\<rparr>) m
          in (m', Some (leaseAt m' a), Some (ErrPersist e)))"

text \<open>
  The whole call with no other request in between, the gate held: the outcome of the gate,
  of the optional revalidation and of the optional persistence are arguments. A failed
  persistence returns the lease together with the error.
\<close>

definition admitContext ::
  "manager \<Rightarrow> gotime \<Rightarrow> lease_key \<Rightarrow> account_key \<Rightarrow> u64 \<Rightarrow> turn_error option \<Rightarrow>
   string option \<Rightarrow> (turn_lease list \<Rightarrow> string option) option \<Rightarrow>
   manager \<times> turn_lease option \<times> turn_error option" where
  "admitContext m now key account socketGeneration gateErr revalidateErr persist =
     (if mg_closed m then (m, None, Some ErrCodexLeaseWriterUnavailable)
      else case gateErr of
        Some e \<Rightarrow> (m, None, Some e)
      | None \<Rightarrow>
        (case revalidateErr of
           Some e \<Rightarrow> (m, None, Some (ErrRevalidate e))
         | None \<Rightarrow>
           (case admitBind m now key account socketGeneration of
              (m1, Inl e) \<Rightarrow> (m1, None, Some e)
            | (m1, Inr (a, snap, result)) \<Rightarrow>
                (case persist of
                   None \<Rightarrow> (m1, Some result, None)
                 | Some p \<Rightarrow> admitPersisted m1 a result (p snap)))))"

section \<open>Observations of the provider's response\<close>

definition observeActive ::
  "manager \<Rightarrow> lease_key \<Rightarrow> (turn_lease \<Rightarrow> turn_lease) \<Rightarrow> manager \<times> (turn_error + turn_lease)"
  where
  "observeActive m key f =
     (if mg_closed m then (m, Inl ErrCodexLeaseWriterUnavailable)
      else case leaseAddr m key of
        None \<Rightarrow> (m, Inl ErrCodexLeaseTransition)
      | Some a \<Rightarrow>
          if tl_state (leaseAt m a) \<noteq> LeaseBoundActive \<or> tl_active_attempts (leaseAt m a) = 0
          then (m, Inl ErrCodexLeaseTransition)
          else let m' = updLease a f m in (m', Inr (leaseAt m' a)))"

definition observeCompleted ::
  "manager \<Rightarrow> gotime \<Rightarrow> lease_key \<Rightarrow> bool option \<Rightarrow> manager \<times> (turn_error + turn_lease)" where
  "observeCompleted m now key endTurn =
     observeActive m key (\<lambda>l. bump now (l\<lparr>
       tl_state := (if endTurn = Some False then LeaseContinuationPending
         else LeaseBoundQuiescent),
       tl_active_attempts := tl_active_attempts l - 1\<rparr>))"

definition observeIndeterminate ::
  "manager \<Rightarrow> gotime \<Rightarrow> lease_key \<Rightarrow> manager \<times> (turn_error + turn_lease)" where
  "observeIndeterminate m now key =
     observeActive m key (\<lambda>l. bump now (l\<lparr>tl_state := LeaseOrphaned,
       tl_active_attempts := tl_active_attempts l - 1, tl_socket := 0\<rparr>))"

definition observeProviderFailed ::
  "manager \<Rightarrow> gotime \<Rightarrow> lease_key \<Rightarrow> manager \<times> (turn_error + turn_lease)" where
  "observeProviderFailed m now key =
     observeActive m key (\<lambda>l. bump now (l\<lparr>tl_state := LeaseBoundQuiescent,
       tl_active_attempts := tl_active_attempts l - 1\<rparr>))"

definition failUnadmitted ::
  "manager \<Rightarrow> gotime \<Rightarrow> lease_key \<Rightarrow> manager \<times> (turn_error + unit)" where
  "failUnadmitted m now key =
     (if mg_closed m then (m, Inl ErrCodexLeaseWriterUnavailable)
      else case leaseAddr m key of
        None \<Rightarrow> (m, Inl ErrCodexStaleTurn)
      | Some a \<Rightarrow>
          if tl_state (leaseAt m a) \<noteq> LeaseProvisional \<and> tl_state (leaseAt m a) \<noteq> LeaseReserving
          then (m, Inr ())
          else (updLease a (\<lambda>l. bump now (l\<lparr>tl_state := LeaseFailedUnadmitted,
                  tl_routing_refs := 0\<rparr>)) m, Inr ()))"

section \<open>Continuation state\<close>

definition setTurnState ::
  "manager \<Rightarrow> gotime \<Rightarrow> lease_key \<Rightarrow> string \<Rightarrow> manager \<times> (turn_error + unit)" where
  "setTurnState m now key state =
     (if mg_closed m then (m, Inl ErrCodexLeaseWriterUnavailable)
      else case leaseAddr m key of
        None \<Rightarrow> (m, Inl ErrCodexStaleTurn)
      | Some a \<Rightarrow>
          if tl_turn_state (leaseAt m a) \<noteq> [] \<and> tl_turn_state (leaseAt m a) \<noteq> state
          then (m, Inl (ErrCodexContinuity ''turn state changed''))
          else if tl_turn_state (leaseAt m a) = [] \<and> state \<noteq> []
          then (updLease a (\<lambda>l. bump now (l\<lparr>tl_turn_state := state\<rparr>)) m, Inr ())
          else (m, Inr ()))"

definition setResponseAnchor ::
  "manager \<Rightarrow> gotime \<Rightarrow> lease_key \<Rightarrow> string \<Rightarrow> bool \<Rightarrow> manager \<times> (turn_error + unit)" where
  "setResponseAnchor m now key anchor encrypted =
     (if mg_closed m then (m, Inl ErrCodexLeaseWriterUnavailable)
      else case leaseAddr m key of
        None \<Rightarrow> (m, Inl ErrCodexStaleTurn)
      | Some a \<Rightarrow>
          let l = leaseAt m a;
              anchorChanged = (anchor \<noteq> [] \<and> tl_anchor l \<noteq> anchor);
              encryptedChanged = (encrypted \<and> \<not> tl_encrypted l);
              l' = l\<lparr>tl_anchor := (if anchorChanged then anchor else tl_anchor l),
                     tl_encrypted := (if encryptedChanged then True else tl_encrypted l)\<rparr>
          in if anchorChanged \<or> encryptedChanged
             then (updLease a (\<lambda>_. bump now l') m, Inr ()) else (m, Inr ()))"

definition markNonMigratable ::
  "manager \<Rightarrow> gotime \<Rightarrow> lease_key \<Rightarrow> manager \<times> (turn_error + unit)" where
  "markNonMigratable m now key =
     (if mg_closed m then (m, Inl ErrCodexLeaseWriterUnavailable)
      else case leaseAddr m key of
        None \<Rightarrow> (m, Inl ErrCodexStaleTurn)
      | Some a \<Rightarrow>
          if \<not> tl_non_migratable (leaseAt m a)
          then (updLease a (\<lambda>l. bump now (l\<lparr>tl_non_migratable := True\<rparr>)) m, Inr ())
          else (m, Inr ()))"

section \<open>Queries\<close>

definition getLease :: "manager \<Rightarrow> lease_key \<Rightarrow> turn_lease option" where
  "getLease m key = (if mg_closed m then None else map_option (leaseAt m) (leaseAddr m key))"

definition managerMode :: "mode_view \<Rightarrow> manager \<Rightarrow> u64 \<times> bool" where
  "managerMode v m = (if mg_closed m then (0, False) else (mv_epoch v, mv_authoritative v))"

definition observedRouteChoice ::
  "manager \<Rightarrow> lease_key \<Rightarrow> turn_error + route_choice option" where
  "observedRouteChoice m key =
     (if mg_closed m then Inl ErrCodexLeaseWriterUnavailable
      else case leaseAddr m key of
        None \<Rightarrow>
          (case Option.bind (mg_current m (key_lane key)) (leaseAddr m) of
             Some p \<Rightarrow> if liveWork (leaseAt m p) then Inl ErrCodexConcurrentTurn else Inr None
           | None \<Rightarrow> Inr None)
      | Some a \<Rightarrow>
          if \<not> isCurrent m key then Inl ErrCodexStaleTurn
          else if tl_state (leaseAt m a) \<notin> {LeaseProvisional, LeaseBoundActive,
              LeaseContinuationPending, LeaseBoundQuiescent, LeaseOrphaned}
          then Inl ErrCodexStaleTurn
          else let choice = tl_choice (leaseAt m a);
                   choice' = (if rc_account choice = []
                     then choice\<lparr>rc_account := tl_account (leaseAt m a)\<rparr> else choice)
               in if rc_account choice' = [] \<or> rc_requested_model choice' = [] \<or>
                    rc_effective_model choice' = []
                  then Inl (ErrCodexContinuity ''observed route choice unavailable'')
                  else Inr (Some choice'))"

section \<open>Compaction, restore and revocation\<close>

definition DefaultCodexLeaseRetention :: int where
  "DefaultCodexLeaseRetention = 7 * 24 * 3600 * 1000000000"

definition compactKeeps :: "manager \<Rightarrow> gotime \<Rightarrow> int \<Rightarrow> nat \<Rightarrow> bool" where
  "compactKeeps m now retention a \<longleftrightarrow>
     tl_routing_refs (leaseAt m a) \<noteq> 0 \<or> tl_active_attempts (leaseAt m a) \<noteq> 0 \<or>
     timeSub now (tl_last_seen (leaseAt m a)) \<le> retention"

definition compactStep :: "gotime \<Rightarrow> int \<Rightarrow> lease_key \<times> nat \<Rightarrow> manager \<Rightarrow> manager" where
  "compactStep now retention = (\<lambda>(key, a) m.
     if compactKeeps m now retention a then m
     else m\<lparr>mg_leases := AList.delete key (mg_leases m),
       mg_current := (if isCurrent m key then (mg_current m)(key_lane key := None)
         else mg_current m)\<rparr>)"

definition compact :: "manager \<Rightarrow> gotime \<Rightarrow> int \<Rightarrow> manager" where
  "compact m now retention =
     (if mg_closed m then m
      else fold (compactStep now (if retention \<le> 0 then DefaultCodexLeaseRetention else retention))
        (mg_leases m) m)"

definition restoreCreatesBoundAuthority :: "lease_state \<Rightarrow> bool" where
  "restoreCreatesBoundAuthority s \<longleftrightarrow> s \<in> {LeaseReserving, LeaseProvisional, LeaseBoundActive,
     LeaseContinuationPending, LeaseBoundQuiescent, LeaseOrphaned}"

text \<open>The accounts whose gates \<open>Restore\<close> acquires, in the order it acquires them.\<close>

definition restoreGates :: "turn_lease list \<Rightarrow> account_key list" where
  "restoreGates leases = sort (remdups (map tl_account
     (filter (\<lambda>l. tl_authoritative l \<and> tl_account l \<noteq> [] \<and>
        restoreCreatesBoundAuthority (tl_state l)) leases)))"

definition restoredLease :: "turn_lease \<Rightarrow> turn_lease" where
  "restoredLease l =
     (if tl_state l \<in> {LeaseReserving, LeaseProvisional, LeaseBoundActive,
          LeaseContinuationPending, LeaseBoundQuiescent}
      then l\<lparr>tl_state := LeaseOrphaned, tl_active_attempts := 0, tl_routing_refs := 0,
         tl_socket := 0, tl_generation := tl_generation l + 1\<rparr>
      else l)"

definition restoreStep :: "mode_view \<Rightarrow> turn_lease \<Rightarrow> manager \<Rightarrow> manager" where
  "restoreStep v lease m =
     (if tl_mode_epoch lease \<noteq> mv_epoch v \<or> tl_authoritative lease \<noteq> mv_authoritative v then m
      else let l = restoredLease lease;
               m1 = allocLease (tl_key l) \<lparr>ml_lease = l, ml_ready = ReadyClosed\<rparr> m
           in if tl_state l \<notin> {LeaseSuperseded, LeaseExpired, LeaseFailedUnadmitted}
              then m1\<lparr>mg_current := (mg_current m1)(key_lane (tl_key l) \<mapsto> tl_key l)\<rparr>
              else m1)"

definition restore :: "mode_view \<Rightarrow> manager \<Rightarrow> turn_lease list \<Rightarrow> manager" where
  "restore v m leases = (if mg_closed m then m else fold (restoreStep v) leases m)"

definition revokeCell :: "nat \<Rightarrow> manager \<Rightarrow> manager" where
  "revokeCell a m = m\<lparr>mg_heap := (mg_heap m)(a := \<lparr>ml_lease = zeroLease, ml_ready = ReadyNil\<rparr>)\<rparr>"

definition revoke :: "manager \<Rightarrow> manager" where
  "revoke m =
     (if mg_closed m then m
      else (fold revokeCell (map snd (mg_leases m)) (m\<lparr>mg_closed := True\<rparr>))
             \<lparr>mg_current := Map.empty, mg_leases := []\<rparr>)"

section \<open>Reading what was written\<close>

lemma leaseAt_updLease [simp, go_simps]:
  "leaseAt (updLease a f m) b = (if b = a then f (leaseAt m a) else leaseAt m b)"
  by (simp add: leaseAt_def updLease_def)

lemma updLease_fields [simp]:
  "mg_current (updLease a f m) = mg_current m" "mg_leases (updLease a f m) = mg_leases m"
  "mg_next (updLease a f m) = mg_next m" "mg_closed (updLease a f m) = mg_closed m"
  "ml_ready (mg_heap (updLease a f m) b) = ml_ready (mg_heap m b)"
  by (simp_all add: updLease_def)

lemma setReady_fields [simp]:
  "mg_current (setReady a r m) = mg_current m" "mg_leases (setReady a r m) = mg_leases m"
  "mg_next (setReady a r m) = mg_next m" "mg_closed (setReady a r m) = mg_closed m"
  "leaseAt (setReady a r m) b = leaseAt m b"
  "ml_ready (mg_heap (setReady a r m) b) = (if b = a then r else ml_ready (mg_heap m b))"
  by (simp_all add: setReady_def leaseAt_def)

lemma allocLease_fields [simp]:
  "mg_current (allocLease k cell m) = mg_current m"
  "mg_leases (allocLease k cell m) = AList.update k (mg_next m) (mg_leases m)"
  "mg_next (allocLease k cell m) = Suc (mg_next m)"
  "mg_closed (allocLease k cell m) = mg_closed m"
  "leaseAt (allocLease k cell m) b = (if b = mg_next m then ml_lease cell else leaseAt m b)"
  "ml_ready (mg_heap (allocLease k cell m) b) =
     (if b = mg_next m then ml_ready cell else ml_ready (mg_heap m b))"
  by (simp_all add: allocLease_def leaseAt_def)

lemma leaseAddr_updLease [simp]: "leaseAddr (updLease a f m) k = leaseAddr m k"
  by (simp add: leaseAddr_def)

lemma leaseAddr_setReady [simp]: "leaseAddr (setReady a r m) k = leaseAddr m k"
  by (simp add: leaseAddr_def)

lemma leaseAddr_allocLease [simp]:
  "leaseAddr (allocLease k cell m) k' = (if k' = k then Some (mg_next m) else leaseAddr m k')"
  by (simp add: leaseAddr_def update_conv)

lemma isCurrent_updLease [simp]: "isCurrent (updLease a f m) k = isCurrent m k"
  by (simp add: isCurrent_def)

lemma isCurrent_setReady [simp]: "isCurrent (setReady a r m) k = isCurrent m k"
  by (simp add: isCurrent_def)

lemma isCurrent_inj: "isCurrent m k \<Longrightarrow> isCurrent m k' \<Longrightarrow> key_lane k = key_lane k' \<Longrightarrow> k = k'"
  by (auto simp: isCurrent_def)

lemma current_updates [simp]:
  "leaseAt (m\<lparr>mg_current := c\<rparr>) a = leaseAt m a"
  "leaseAt (m\<lparr>mg_leases := ls\<rparr>) a = leaseAt m a"
  "leaseAddr (m\<lparr>mg_current := c\<rparr>) k = leaseAddr m k"
  "ml_ready (mg_heap (m\<lparr>mg_current := c\<rparr>) a) = ml_ready (mg_heap m a)"
  by (simp_all add: leaseAt_def leaseAddr_def)

lemma bump_fields [simp]:
  "tl_state (bump now l) = tl_state l" "tl_key (bump now l) = tl_key l"
  "tl_account (bump now l) = tl_account l" "tl_routing_refs (bump now l) = tl_routing_refs l"
  "tl_active_attempts (bump now l) = tl_active_attempts l"
  "tl_generation (bump now l) = tl_generation l + 1"
  "tl_non_migratable (bump now l) = tl_non_migratable l" "tl_choice (bump now l) = tl_choice l"
  by (simp_all add: bump_def)

lemma zeroLease_fields [simp]:
  "tl_state zeroLease = LeaseStateOther 0" "tl_routing_refs zeroLease = 0"
  "tl_active_attempts zeroLease = 0" "tl_account zeroLease = []"
  by (simp_all add: zeroLease_def)

section \<open>One live turn per lane\<close>

text \<open>
  The manager together with the addresses that a request in \<open>AcquireRoute\<close> still holds
  while its selector runs. A lease is busy when it has live work or is being selected.
\<close>

definition busy :: "manager \<Rightarrow> nat set \<Rightarrow> lease_key \<Rightarrow> bool" where
  "busy m selecting k \<longleftrightarrow>
     (case leaseAddr m k of None \<Rightarrow> False | Some a \<Rightarrow> liveWork (leaseAt m a) \<or> a \<in> selecting)"

definition well_formed :: "manager \<Rightarrow> bool" where
  "well_formed m \<longleftrightarrow> distinct (map fst (mg_leases m)) \<and>
     (\<forall>k a. leaseAddr m k = Some a \<longrightarrow> a < mg_next m \<and> tl_key (leaseAt m a) = k) \<and>
     (\<forall>k k' a. leaseAddr m k = Some a \<longrightarrow> leaseAddr m k' = Some a \<longrightarrow> k = k') \<and>
     (\<forall>lane c. mg_current m lane = Some c \<longrightarrow> key_lane c = lane)"

definition lane_invariant :: "manager \<Rightarrow> nat set \<Rightarrow> bool" where
  "lane_invariant m selecting \<longleftrightarrow> well_formed m \<and>
     (\<forall>k. busy m selecting k \<longrightarrow> isCurrent m k) \<and>
     (\<forall>a \<in> selecting. a < mg_next m \<and> ml_ready (mg_heap m a) = ReadyOpen \<and>
        tl_state (leaseAt m a) \<in> {LeaseReserving, LeaseFailedUnadmitted} \<and>
        tl_active_attempts (leaseAt m a) = 0) \<and>
     (\<forall>k a. leaseAddr m k = Some a \<longrightarrow> 0 \<le> tl_routing_refs (leaseAt m a) \<and>
        tl_active_attempts (leaseAt m a) = (if tl_state (leaseAt m a) = LeaseBoundActive then 1 else 0) \<and>
        (tl_state (leaseAt m a) = LeaseReserving \<longrightarrow> a \<in> selecting))"


lemma busy_updLease:
  "busy (updLease a f m) selecting k \<longleftrightarrow>
     (case leaseAddr m k of None \<Rightarrow> False
      | Some b \<Rightarrow> liveWork (if b = a then f (leaseAt m a) else leaseAt m b) \<or> b \<in> selecting)"
  by (simp add: busy_def split: option.split)

lemma well_formedD:
  assumes "well_formed m" "leaseAddr m k = Some a"
  shows "a < mg_next m" "tl_key (leaseAt m a) = k"
    and "leaseAddr m k' = Some a \<Longrightarrow> k' = k"
  using assms by (auto simp: well_formed_def)

lemma well_formed_current: "well_formed m \<Longrightarrow> mg_current m lane = Some c \<Longrightarrow> key_lane c = lane"
  by (simp add: well_formed_def)

lemma well_formed_updLease:
  assumes "well_formed m" "tl_key (f (leaseAt m a)) = tl_key (leaseAt m a)"
  shows "well_formed (updLease a f m)"
  using assms by (auto simp: well_formed_def)

lemma lane_invariant_updLease:
  assumes inv: "lane_invariant m selecting" and a: "leaseAddr m k = Some a"
    and f: "f (leaseAt m a) = l" "tl_key l = tl_key (leaseAt m a)" "0 \<le> tl_routing_refs l"
      "tl_active_attempts l = (if tl_state l = LeaseBoundActive then 1 else 0)"
    and live: "liveWork l \<Longrightarrow> isCurrent m k \<or> liveWork (leaseAt m a) \<or> a \<in> selecting"
    and reserving: "tl_state l = LeaseReserving \<Longrightarrow> a \<in> selecting"
    and selecting: "a \<in> selecting \<Longrightarrow> tl_state l \<in> {LeaseReserving, LeaseFailedUnadmitted}"
  shows "lane_invariant (updLease a f m) selecting"
proof -
  have wf: "well_formed m" and busy: "\<And>k. busy m selecting k \<Longrightarrow> isCurrent m k"
    using inv by (auto simp: lane_invariant_def)
  have "isCurrent m k'" if "busy (updLease a f m) selecting k'" for k'
  proof (cases "leaseAddr m k' = Some a")
    case True
    with wf a have "k' = k" by (metis well_formedD(3))
    with that live f a busy [of k] show ?thesis by (auto simp: busy_updLease busy_def)
  next
    case False
    with that busy [of k'] show ?thesis
      by (auto simp: busy_updLease busy_def split: option.splits if_splits)
  qed
  with inv f reserving selecting well_formed_updLease [OF wf, of f a] show ?thesis
    by (auto simp: lane_invariant_def)
qed

lemma lane_invariantD:
  assumes "lane_invariant m selecting" "leaseAddr m k = Some a"
  shows "0 \<le> tl_routing_refs (leaseAt m a)"
    "tl_active_attempts (leaseAt m a) = (if tl_state (leaseAt m a) = LeaseBoundActive then 1 else 0)"
    "tl_state (leaseAt m a) = LeaseReserving \<Longrightarrow> a \<in> selecting"
    "a \<in> selecting \<Longrightarrow> tl_state (leaseAt m a) \<in> {LeaseReserving, LeaseFailedUnadmitted}"
    "liveWork (leaseAt m a) \<Longrightarrow> isCurrent m k" "a \<in> selecting \<Longrightarrow> isCurrent m k"
  using assms by (auto simp: lane_invariant_def busy_def)

text \<open>Each operation on one lease keeps the invariant.\<close>

lemma lane_invariant_replaceProvisionalRoute:
  assumes "lane_invariant m sel" "replaceProvisionalRoute m now key choice = (m', r)"
  shows "lane_invariant m' sel"
  using assms
  by (auto simp: replaceProvisionalRoute_def Let_def split: if_splits option.splits
    intro!: lane_invariant_updLease dest: lane_invariantD)

lemma lane_invariant_releaseRouting:
  assumes "lane_invariant m sel" "releaseRouting m now key = (m', r)"
  shows "lane_invariant m' sel"
  using assms
  by (auto simp: releaseRouting_def Let_def liveWork_def split: if_splits option.splits
    intro!: lane_invariant_updLease dest: lane_invariantD)

lemma lane_invariant_admitBind:
  assumes "lane_invariant m sel" "admitBind m now key account socket = (m', r)"
  shows "lane_invariant m' sel"
  using assms
  by (auto simp: admitBind_def Let_def validLeaseTransition_def split: if_splits option.splits lease_state.splits
    intro!: lane_invariant_updLease dest: lane_invariantD)

lemma lane_invariant_observeActive:
  assumes "lane_invariant m sel" "observeActive m key f = (m', r)"
    and "\<And>l. tl_key (f l) = tl_key l" "\<And>l. tl_routing_refs (f l) = tl_routing_refs l"
      "\<And>l. tl_active_attempts (f l) = tl_active_attempts l - 1"
      "\<And>l. tl_state (f l) \<in> {LeaseContinuationPending, LeaseBoundQuiescent, LeaseOrphaned}"
  shows "lane_invariant m' sel"
proof (cases "m' = m")
  case True
  with assms(1) show ?thesis by simp
next
  case False
  with assms(2) obtain a where a: "leaseAddr m key = Some a" "m' = updLease a f m"
    and state: "tl_state (leaseAt m a) = LeaseBoundActive"
    by (auto simp: observeActive_def Let_def split: if_splits option.splits)
  have active: "tl_active_attempts (leaseAt m a) = 1"
    using lane_invariantD(2) [OF assms(1) a(1)] state by simp
  have "a \<notin> sel" using lane_invariantD(4) [OF assms(1) a(1)] state by auto
  then show ?thesis unfolding a(2)
    using assms(3-6) [of "leaseAt m a"] active state lane_invariantD(1) [OF assms(1) a(1)]
    by (intro lane_invariant_updLease [OF assms(1) a(1) refl]) (auto simp: liveWork_def)
qed

lemma lane_invariant_observe:
  assumes "lane_invariant m sel"
  shows "observeCompleted m now key endTurn = (m', r) \<Longrightarrow> lane_invariant m' sel"
    "observeIndeterminate m now key = (m', r) \<Longrightarrow> lane_invariant m' sel"
    "observeProviderFailed m now key = (m', r) \<Longrightarrow> lane_invariant m' sel"
  unfolding observeCompleted_def observeIndeterminate_def observeProviderFailed_def
  by (erule lane_invariant_observeActive [OF assms]; simp)+

lemma lane_invariant_failUnadmitted:
  assumes "lane_invariant m sel" "failUnadmitted m now key = (m', r)"
  shows "lane_invariant m' sel"
  using assms
  by (auto simp: failUnadmitted_def liveWork_def split: if_splits option.splits
    intro!: lane_invariant_updLease dest: lane_invariantD)

lemma lane_invariant_same_state:
  assumes "lane_invariant m sel" "leaseAddr m key = Some a"
    "tl_key (f (leaseAt m a)) = tl_key (leaseAt m a)"
    "tl_state (f (leaseAt m a)) = tl_state (leaseAt m a)"
    "tl_routing_refs (f (leaseAt m a)) = tl_routing_refs (leaseAt m a)"
    "tl_active_attempts (f (leaseAt m a)) = tl_active_attempts (leaseAt m a)"
  shows "lane_invariant (updLease a f m) sel"
  using assms by (intro lane_invariant_updLease [OF assms(1,2) refl])
    (auto simp: liveWork_def dest: lane_invariantD)

lemma lane_invariant_continuation:
  assumes "lane_invariant m sel"
  shows "setTurnState m now key state = (m', r) \<Longrightarrow> lane_invariant m' sel"
    "setResponseAnchor m now key anchor encrypted = (m', r2) \<Longrightarrow> lane_invariant m' sel"
    "markNonMigratable m now key = (m', r3) \<Longrightarrow> lane_invariant m' sel"
  using assms
  by (auto simp: setTurnState_def setResponseAnchor_def markNonMigratable_def Let_def
    split: if_splits option.splits intro!: lane_invariant_same_state)

text \<open>Acquiring: a reservation is granted only in a lane without a busy turn.\<close>

lemma acquireExisting_cases:
  assumes "acquireExisting m now key a = (m', out)"
  obtains (same) "m' = m" "\<And>b. out \<noteq> AcquireSelect b" "\<And>l. out \<noteq> AcquireHit l"
  | (hit) "isCurrent m key" "out = AcquireHit (leaseAt m' a)"
      "tl_state (leaseAt m a) \<notin> {LeaseReserving, LeaseFailedUnadmitted, LeaseExpired, LeaseSuperseded}"
      "m' = updLease a (\<lambda>l. l\<lparr>tl_routing_refs := tl_routing_refs l + 1, tl_last_seen := now\<rparr>) m"
proof (cases "m' = m \<and> (\<forall>l. out \<noteq> AcquireHit l)")
  case True
  with assms have "out \<noteq> AcquireSelect b" for b
    by (auto simp: acquireExisting_def Let_def split: if_splits)
  with True same show thesis by blast
next
  case False
  with assms have ok: "isCurrent m key"
      "tl_state (leaseAt m a) \<notin> {LeaseReserving, LeaseFailedUnadmitted, LeaseExpired, LeaseSuperseded}"
    by (auto simp: acquireExisting_def Let_def split: if_splits)
  with assms hit show thesis by (simp add: acquireExisting_def Let_def)
qed

lemma supersede_cases:
  assumes "supersede m now p = Inr m'"
  shows "\<not> liveWork (leaseAt m p)"
    "tl_state (leaseAt m p) \<in> {LeaseContinuationPending, LeaseBoundQuiescent, LeaseOrphaned}"
    "m' = updLease p (\<lambda>l. bump now (l\<lparr>tl_state := LeaseSuperseded\<rparr>)) m"
proof -
  from assms have ok: "\<not> liveWork (leaseAt m p)"
      "validLeaseTransition (tl_state (leaseAt m p)) LeaseSuperseded"
      "m' = updLease p (\<lambda>l. bump now (l\<lparr>tl_state := LeaseSuperseded\<rparr>)) m"
    by (auto simp: supersede_def Let_def split: if_splits)
  then show "\<not> liveWork (leaseAt m p)"
    "m' = updLease p (\<lambda>l. bump now (l\<lparr>tl_state := LeaseSuperseded\<rparr>)) m" by blast+
  from ok(2) show "tl_state (leaseAt m p) \<in>
      {LeaseContinuationPending, LeaseBoundQuiescent, LeaseOrphaned}"
    by (cases "tl_state (leaseAt m p)") (auto simp: validLeaseTransition_def)
qed

lemma acquireBegin_cases:
  assumes "acquireBegin v m now key = (m', out)"
  obtains (same) "m' = m" "\<And>b. out \<noteq> AcquireSelect b" "\<And>l. out \<noteq> AcquireHit l"
  | (hit) a where "\<not> mg_closed m" "leaseAddr m key = Some a" "isCurrent m key"
      "out = AcquireHit (leaseAt m' a)"
      "tl_state (leaseAt m a) \<notin> {LeaseReserving, LeaseFailedUnadmitted, LeaseExpired, LeaseSuperseded}"
      "m' = updLease a (\<lambda>l. l\<lparr>tl_routing_refs := tl_routing_refs l + 1, tl_last_seen := now\<rparr>) m"
  | (fresh) m1 where "\<not> mg_closed m" "validateLeaseKey key = Inr ()" "leaseAddr m key = None"
      "m' = (allocLease key (reservation v now key) m1)\<lparr>mg_current := (mg_current m1)(key_lane key \<mapsto> key)\<rparr>"
      "out = AcquireSelect (mg_next m1)"
      "(case Option.bind (mg_current m (key_lane key)) (leaseAddr m) of
          None \<Rightarrow> m1 = m | Some p \<Rightarrow> supersede m now p = Inr m1)"
proof (cases "mg_closed m \<or> (\<exists>e. validateLeaseKey key = Inl e)")
  case True
  with assms have "m' = m" "\<exists>e. out = AcquireError e"
    by (auto simp: acquireBegin_def split: if_splits)
  with same show thesis by blast
next
  case False
  then have ok: "\<not> mg_closed m" "validateLeaseKey key = Inr ()"
    by (auto simp: sum.split intro: old.unit.exhaust) (metis old.unit.exhaust sumE)
  show thesis
  proof (cases "leaseAddr m key")
    case (Some a)
    with assms ok have "acquireExisting m now key a = (m', out)"
      by (simp add: acquireBegin_def)
    then show thesis
    proof (cases rule: acquireExisting_cases)
      case same
      then show thesis by (rule that(1))
    next
      case hit
      with ok Some that(2) show thesis by blast
    qed
  next
    case None
    with assms ok same fresh show thesis
      by (auto simp: acquireBegin_def split: option.splits sum.splits)
  qed
qed

lemma validateLeaseKey_zeroKey: "validateLeaseKey key = Inr () \<Longrightarrow> key_lane key \<noteq> key_lane zeroKey"
  by (auto simp: validateLeaseKey_def validateLaneKey_def zeroKey_def andThen_failIf_iff)

text \<open>After the previous turn of the lane has been superseded nothing in the lane is busy.\<close>

lemma lane_idle_before_reservation:
  assumes inv: "lane_invariant m sel" and key: "validateLeaseKey key = Inr ()"
    and prev: "case Option.bind (mg_current m (key_lane key)) (leaseAddr m) of
      None \<Rightarrow> m1 = m | Some p \<Rightarrow> supersede m now p = Inr m1"
  shows "lane_invariant m1 sel \<and> mg_leases m1 = mg_leases m \<and>
      mg_current m1 = mg_current m \<and> mg_next m1 = mg_next m \<and> mg_closed m1 = mg_closed m \<and>
      (\<forall>k. key_lane k = key_lane key \<longrightarrow> \<not> busy m1 sel k)"
proof -
  have current: "mg_current m (key_lane key) = Some k" "leaseAddr m k \<noteq> None"
    if "busy m sel k" "key_lane k = key_lane key" for k
  proof -
    from that(1) inv have "isCurrent m k" by (simp add: lane_invariant_def)
    with validateLeaseKey_zeroKey [OF key] that(2) show "mg_current m (key_lane key) = Some k"
      by (auto simp: isCurrent_def split: option.splits)
    from that(1) show "leaseAddr m k \<noteq> None" by (auto simp: busy_def split: option.splits)
  qed
  show ?thesis
  proof (cases "Option.bind (mg_current m (key_lane key)) (leaseAddr m)")
    case None
    with prev inv current show ?thesis by fastforce
  next
    case (Some p)
    then obtain c where c: "mg_current m (key_lane key) = Some c" "leaseAddr m c = Some p"
      by (auto simp: bind_eq_Some_conv)
    from prev Some have sup: "supersede m now p = Inr m1" by simp
    note s = supersede_cases [OF sup]
    have idle: "tl_active_attempts (leaseAt m p) = 0" "tl_routing_refs (leaseAt m p) = 0" "p \<notin> sel"
      using s(1,2) lane_invariantD [OF inv c(2)] by (auto simp: liveWork_def)
    have "lane_invariant m1 sel" unfolding s(3)
      using idle by (intro lane_invariant_updLease [OF inv c(2) refl]) (auto simp: liveWork_def)
    moreover have "\<not> busy m1 sel k" if k: "key_lane k = key_lane key" for k
    proof
      assume b: "busy m1 sel k"
      then have "k = c"
      proof -
        from b calculation have "isCurrent m1 k" by (simp add: lane_invariant_def)
        with c k s(3) show ?thesis by (simp add: isCurrent_def)
      qed
      with b c idle s(3) show False by (simp add: busy_updLease liveWork_def)
    qed
    ultimately show ?thesis by (simp add: s(3))
  qed
qed

text \<open>A new lease in a lane without busy turns, made current or not.\<close>

lemma lane_invariant_allocLease:
  assumes inv: "lane_invariant m sel"
    and idle: "\<And>k'. key_lane k' = key_lane key \<Longrightarrow> \<not> busy m sel k'"
    and cell: "tl_key (ml_lease cell) = key" "0 \<le> tl_routing_refs (ml_lease cell)"
      "tl_active_attempts (ml_lease cell) = (if tl_state (ml_lease cell) = LeaseBoundActive then 1 else 0)"
    and sel': "sel' = sel \<or> sel' = insert (mg_next m) sel \<and> ml_ready cell = ReadyOpen \<and>
      tl_state (ml_lease cell) = LeaseReserving \<and> c = (mg_current m)(key_lane key \<mapsto> key)"
    and reserving: "tl_state (ml_lease cell) = LeaseReserving \<longrightarrow> mg_next m \<in> sel'"
    and c: "c = (mg_current m)(key_lane key \<mapsto> key) \<or> c = mg_current m \<and> \<not> liveWork (ml_lease cell)"
  shows "lane_invariant ((allocLease key cell m)\<lparr>mg_current := c\<rparr>) sel'"
proof -
  let ?m = "(allocLease key cell m)\<lparr>mg_current := c\<rparr>"
  have wf: "well_formed m" and next_sel: "mg_next m \<notin> sel"
    using inv by (auto simp: lane_invariant_def)
  have "well_formed ?m"
    using wf cell(1) c unfolding well_formed_def
    by (auto simp: distinct_update less_Suc_eq split: if_splits)
  moreover have "isCurrent ?m k" if b: "busy ?m sel' k" for k
  proof (cases "k = key")
    case True
    with b c next_sel sel' show ?thesis
      by (auto simp: busy_def isCurrent_def liveWork_def)
  next
    case False
    with b wf sel' have "busy m sel k"
      by (auto simp: busy_def split: option.splits if_splits dest: well_formedD(1))
    with idle inv have "key_lane k \<noteq> key_lane key" "isCurrent m k"
      by (auto simp: lane_invariant_def)
    with c show ?thesis by (auto simp: isCurrent_def)
  qed
  moreover have "leaseAt ?m a = leaseAt m a" if "a < mg_next m" for a using that by simp
  ultimately show ?thesis
    using inv wf cell sel' reserving
    by (auto simp: lane_invariant_def less_Suc_eq dest: well_formedD(1) split: if_splits)
qed

lemma lane_invariant_acquireBegin:
  assumes inv: "lane_invariant m sel" and step: "acquireBegin v m now key = (m', out)"
  shows "lane_invariant m' (case out of AcquireSelect a \<Rightarrow> insert a sel | _ \<Rightarrow> sel)"
  using step
proof (cases rule: acquireBegin_cases)
  case same
  with inv show ?thesis by (cases out) auto
next
  case (hit a)
  have "lane_invariant m' sel" unfolding hit(6)
    using hit inv by (intro lane_invariant_updLease [OF inv hit(2) refl]) (auto dest: lane_invariantD)
  with hit(4) show ?thesis by simp
next
  case (fresh m1)
  from lane_idle_before_reservation [OF inv fresh(2,6)]
  have idle: "lane_invariant m1 sel" "\<And>k. key_lane k = key_lane key \<Longrightarrow> \<not> busy m1 sel k"
    by auto
  show ?thesis unfolding fresh(4,5) acquire_outcome.case
    by (rule lane_invariant_allocLease [OF idle])
      (auto simp: reservation_def)
qed

lemma lane_invariant_mono_selecting:
  assumes "lane_invariant m sel" "sel' \<subseteq> sel"
    "\<And>k a. leaseAddr m k = Some a \<Longrightarrow> a \<in> sel \<Longrightarrow> tl_state (leaseAt m a) = LeaseReserving \<Longrightarrow> a \<in> sel'"
  shows "lane_invariant m sel'"
proof -
  have "busy m sel k" if "busy m sel' k" for k
    using that assms(2) by (auto simp: busy_def split: option.splits)
  with assms show ?thesis by (auto simp: lane_invariant_def)
qed

lemma acquireFinish_cases:
  assumes "acquireFinish m now a choice err = (m', r)" "\<not> mg_closed m"
    and "ml_ready (mg_heap m a) = ReadyOpen"
  obtains (failed) "err \<noteq> None \<or> rc_account choice = []"
      "m' = setReady a ReadyClosed (updLease a (\<lambda>l. bump now (l\<lparr>tl_state := LeaseFailedUnadmitted,
         tl_routing_refs := 0\<rparr>)) m)"
      "r = Inl (case err of Some e \<Rightarrow> e | None \<Rightarrow> ErrEmptyAccount)"
  | (chosen) "err = None" "rc_account choice \<noteq> []"
      "m' = setReady a ReadyClosed (updLease a (\<lambda>l. bump now (l\<lparr>tl_account := rc_account choice,
         tl_choice := choice, tl_state := LeaseProvisional\<rparr>)) m)"
      "r = Inr (leaseAt m' a)"
  using assms by (auto simp: acquireFinish_def Let_def closeReady_def split: if_splits)

lemma lane_invariant_acquireFinish:
  assumes inv: "lane_invariant m sel" and a: "a \<in> sel" and "\<not> mg_closed m"
    and finish: "acquireFinish m now a choice err = (m', r)"
  shows "lane_invariant m' (sel - {a})"
proof -
  have open_ready: "ml_ready (mg_heap m a) = ReadyOpen" and wf: "well_formed m"
    and state: "tl_state (leaseAt m a) \<in> {LeaseReserving, LeaseFailedUnadmitted}"
    and idle: "tl_active_attempts (leaseAt m a) = 0"
    and current: "\<And>k. busy m sel k \<Longrightarrow> isCurrent m k"
    using inv a by (auto simp: lane_invariant_def)
  obtain f where m': "m' = setReady a ReadyClosed (updLease a f m)"
    and f: "tl_key (f (leaseAt m a)) = tl_key (leaseAt m a)"
      "tl_active_attempts (f (leaseAt m a)) = 0"
      "tl_routing_refs (f (leaseAt m a)) \<in> {0, tl_routing_refs (leaseAt m a)}"
      "tl_state (f (leaseAt m a)) \<in> {LeaseFailedUnadmitted, LeaseProvisional}"
    using finish assms(3) open_ready
  proof (cases rule: acquireFinish_cases)
    case failed
    with that idle show thesis by simp
  next
    case chosen
    with that idle show thesis by simp
  qed
  have "isCurrent m k" if "busy m' (sel - {a}) k" for k
  proof (rule current)
    from that a m' show "busy m sel k"
      by (auto simp: busy_def split: option.splits if_splits)
  qed
  moreover have "well_formed m'"
    using wf f(1) by (auto simp: well_formed_def m')
  moreover have "0 \<le> tl_routing_refs (f (leaseAt m a))" if "leaseAddr m k = Some a" for k
    using f(3) lane_invariantD(1) [OF inv that] by auto
  moreover have "leaseAt m' b = (if b = a then f (leaseAt m a) else leaseAt m b)" for b
    by (simp add: m')
  ultimately show ?thesis
    using inv f(2,4) by (auto simp: lane_invariant_def m')
qed

text \<open>Compaction, restoration and revocation.\<close>

lemma lane_invariant_compactStep:
  assumes inv: "lane_invariant m sel"
  shows "lane_invariant (compactStep now retention (key, a) m) sel"
proof (cases "compactKeeps m now retention a")
  case True
  with inv show ?thesis by (simp add: compactStep_def)
next
  case False
  let ?m = "compactStep now retention (key, a) m"
  have addr: "leaseAddr ?m k = (if k = key then None else leaseAddr m k)" for k
    using False by (simp add: compactStep_def leaseAddr_def delete_conv' restrict_map_def)
  have same: "leaseAt ?m b = leaseAt m b" "mg_next ?m = mg_next m" "mg_heap ?m = mg_heap m" for b
    using False by (simp_all add: compactStep_def leaseAt_def)
  have "isCurrent ?m k" if "busy ?m sel k" for k
  proof -
    from that addr same have "k \<noteq> key" "busy m sel k"
      by (auto simp: busy_def split: option.splits if_splits)
    with inv have "isCurrent m k" by (simp add: lane_invariant_def)
    with \<open>k \<noteq> key\<close> False show ?thesis
      using isCurrent_inj [of m k key] by (auto simp: compactStep_def isCurrent_def)
  qed
  moreover have "well_formed ?m"
    using inv addr same False
    by (auto simp: lane_invariant_def well_formed_def compactStep_def distinct_delete)
  ultimately show ?thesis
    using inv addr same by (auto simp: lane_invariant_def)
qed

lemma lane_invariant_compact:
  assumes "lane_invariant m sel"
  shows "lane_invariant (compact m now retention) sel"
proof -
  have "lane_invariant (fold (compactStep now r) xs m) sel" for r xs
    using assms
  proof (induction xs arbitrary: m)
    case (Cons x xs)
    then show ?case
      by (cases x) (simp add: lane_invariant_compactStep)
  qed simp
  with assms show ?thesis by (simp add: compact_def)
qed

text \<open>
  What \<open>Restore\<close> needs of its argument: the leases come without references and attempts, as
  both callers build them, and no turn of their lanes is busy.
\<close>

definition restorable :: "manager \<Rightarrow> nat set \<Rightarrow> turn_lease \<Rightarrow> bool" where
  "restorable m selecting l \<longleftrightarrow> tl_routing_refs l = 0 \<and> tl_active_attempts l = 0 \<and>
     (\<forall>k. key_lane k = key_lane (tl_key l) \<longrightarrow> \<not> busy m selecting k)"

lemma restoredLease_fields [simp]:
  "tl_key (restoredLease l) = tl_key l"
  "tl_state (restoredLease l) \<notin> {LeaseReserving, LeaseProvisional, LeaseBoundActive,
     LeaseContinuationPending, LeaseBoundQuiescent}"
  "tl_routing_refs l = 0 \<Longrightarrow> tl_routing_refs (restoredLease l) = 0"
  "tl_active_attempts l = 0 \<Longrightarrow> tl_active_attempts (restoredLease l) = 0"
  by (auto simp: restoredLease_def)

lemma restoredLease_idle:
  "tl_routing_refs l = 0 \<Longrightarrow> tl_active_attempts l = 0 \<Longrightarrow> \<not> liveWork (restoredLease l)"
  by (auto simp: restoredLease_def liveWork_def)

lemma restoreStep_cases:
  obtains (skip) "restoreStep v l m = m"
  | (stored) c where "restoreStep v l m =
        (allocLease (tl_key l) \<lparr>ml_lease = restoredLease l, ml_ready = ReadyClosed\<rparr> m)\<lparr>mg_current := c\<rparr>"
      "c = mg_current m \<or> c = (mg_current m)(key_lane (tl_key l) \<mapsto> tl_key l)"
proof (cases "tl_mode_epoch l \<noteq> mv_epoch v \<or> tl_authoritative l \<noteq> mv_authoritative v")
  case True
  then have "restoreStep v l m = m" by (auto simp: restoreStep_def)
  with skip show thesis .
next
  case False
  let ?m = "allocLease (tl_key l) \<lparr>ml_lease = restoredLease l, ml_ready = ReadyClosed\<rparr> m"
  from False have step: "restoreStep v l m = ?m\<lparr>mg_current := mg_current m\<rparr> \<or>
      restoreStep v l m = ?m\<lparr>mg_current := (mg_current m)(key_lane (tl_key l) \<mapsto> tl_key l)\<rparr>"
    by (simp add: restoreStep_def Let_def allocLease_def)
  then show thesis
  proof
    assume "restoreStep v l m = ?m\<lparr>mg_current := mg_current m\<rparr>"
    then show thesis by (rule stored) simp
  next
    assume "restoreStep v l m = ?m\<lparr>mg_current := (mg_current m)(key_lane (tl_key l) \<mapsto> tl_key l)\<rparr>"
    then show thesis by (rule stored) simp
  qed
qed

lemma busy_restoreStep:
  assumes "well_formed m" "\<forall>a \<in> sel. a < mg_next m" "tl_routing_refs l = 0" "tl_active_attempts l = 0"
    and "busy (restoreStep v l m) sel k"
  shows "busy m sel k"
proof (cases rule: restoreStep_cases [of v l m])
  case skip
  with assms(5) show ?thesis by simp
next
  case (stored c)
  with assms restoredLease_idle [of l] show ?thesis
    by (fastforce simp: busy_def split: option.splits if_splits dest: well_formedD(1))
qed

lemma lane_invariant_restoreStep:
  assumes inv: "lane_invariant m sel" and r: "restorable m sel l"
  shows "lane_invariant (restoreStep v l m) sel"
proof (cases rule: restoreStep_cases [of v l m])
  case skip
  with inv show ?thesis by simp
next
  case (stored c)
  show ?thesis unfolding stored(1)
    using r stored(2) restoredLease_fields(2) [of l] restoredLease_idle [of l]
    by (intro lane_invariant_allocLease [OF inv]) (auto simp: restorable_def)
qed

lemma lane_invariant_restore:
  assumes "lane_invariant m sel" "\<forall>l \<in> set leases. restorable m sel l"
  shows "lane_invariant (restore v m leases) sel"
proof -
  have "lane_invariant (fold (restoreStep v) leases m) sel"
    using assms
  proof (induction leases arbitrary: m)
    case Nil
    then show ?case by simp
  next
    case (Cons l leases)
    then have inv: "lane_invariant (restoreStep v l m) sel"
      by (intro lane_invariant_restoreStep) auto
    have "busy (restoreStep v l m) sel k \<Longrightarrow> busy m sel k" for k
      by (rule busy_restoreStep [of m sel l v])
        (use Cons.prems in \<open>auto simp: lane_invariant_def restorable_def\<close>)
    then have "restorable (restoreStep v l m) sel x" if "x \<in> set leases" for x
      using that Cons.prems(2) by (auto simp: restorable_def)
    with inv Cons.IH show ?case by simp
  qed
  with assms(1) show ?thesis by (simp add: restore_def)
qed

lemma lane_invariant_newManager: "lane_invariant newManager {}"
  by (simp add: lane_invariant_def well_formed_def newManager_def busy_def leaseAddr_def)

section \<open>Revocation\<close>

lemma revokeCell_fields [simp]:
  "mg_leases (revokeCell a m) = mg_leases m" "mg_closed (revokeCell a m) = mg_closed m"
  "mg_current (revokeCell a m) = mg_current m"
  "leaseAt (revokeCell a m) b = (if b = a then zeroLease else leaseAt m b)"
  by (simp_all add: revokeCell_def leaseAt_def)

lemma fold_revokeCell [simp]:
  "mg_closed (fold revokeCell as m) = mg_closed m"
  "leaseAt (fold revokeCell as m) b = (if b \<in> set as then zeroLease else leaseAt m b)"
  by (induction as arbitrary: m) auto

lemma mg_closed_revoke [simp]: "mg_closed (revoke m)"
  by (simp add: revoke_def)

end
