(* ===== verification/TurnLeaseSystem.thy ===== *)
theory TurnLeaseSystem
  imports TurnLease
begin

text \<open>
  The turn-lease manager under concurrency: the critical sections of
  \<open>internal/proxy/codex_turn_lease.go\<close> as the steps of a transition system, the invariant
  that every interleaving keeps, and the guarantees that follow for requests.
\<close>

section \<open>Requests interleaved\<close>

text \<open>
  The manager, the leases whose selector runs with the mutex released, and the leases whose
  persistence runs with the mutex released. Every critical section is one step, and the
  steps of different requests interleave freely.
\<close>

record lease_system =
  ls_manager :: manager
  ls_selecting :: "nat set"
  ls_persisting :: "(nat \<times> turn_lease) set"

definition system_initial :: "lease_system \<Rightarrow> bool" where
  "system_initial s \<longleftrightarrow>
     s = \<lparr>ls_manager = newManager, ls_selecting = {}, ls_persisting = {}\<rparr>"

inductive lease_step :: "lease_system \<Rightarrow> lease_system \<Rightarrow> bool" where
  select_begins: "acquireBegin v (ls_manager s) now key = (m, AcquireSelect a) \<Longrightarrow>
    lease_step s (s\<lparr>ls_manager := m, ls_selecting := insert a (ls_selecting s)\<rparr>)"
| acquire_returns: "acquireBegin v (ls_manager s) now key = (m, out) \<Longrightarrow>
    (\<forall>a. out \<noteq> AcquireSelect a) \<Longrightarrow> lease_step s (s\<lparr>ls_manager := m\<rparr>)"
| select_ends: "a \<in> ls_selecting s \<Longrightarrow>
    acquireFinish (ls_manager s) now a choice err = (m, r) \<Longrightarrow>
    lease_step s (s\<lparr>ls_manager := m, ls_selecting := ls_selecting s - {a}\<rparr>)"
| replaces: "replaceProvisionalRoute (ls_manager s) now key choice = (m, r) \<Longrightarrow>
    lease_step s (s\<lparr>ls_manager := m\<rparr>)"
| releases: "releaseRouting (ls_manager s) now key = (m, u) \<Longrightarrow>
    lease_step s (s\<lparr>ls_manager := m\<rparr>)"
| admits: "admitBind (ls_manager s) now key account socket = (m, Inr (a, snap, l)) \<Longrightarrow>
    lease_step s (s\<lparr>ls_manager := m, ls_persisting := insert (a, l) (ls_persisting s)\<rparr>)"
| admit_rejected: "admitBind (ls_manager s) now key account socket = (m, Inl e) \<Longrightarrow>
    lease_step s (s\<lparr>ls_manager := m\<rparr>)"
| persisted: "(a, l) \<in> ls_persisting s \<Longrightarrow>
    admitPersisted (ls_manager s) a l err = (m, result, e) \<Longrightarrow>
    lease_step s (s\<lparr>ls_manager := m, ls_persisting := ls_persisting s - {(a, l)}\<rparr>)"
| completes: "observeCompleted (ls_manager s) now key endTurn = (m, r) \<Longrightarrow>
    lease_step s (s\<lparr>ls_manager := m\<rparr>)"
| indeterminate: "observeIndeterminate (ls_manager s) now key = (m, r) \<Longrightarrow>
    lease_step s (s\<lparr>ls_manager := m\<rparr>)"
| provider_fails: "observeProviderFailed (ls_manager s) now key = (m, r) \<Longrightarrow>
    lease_step s (s\<lparr>ls_manager := m\<rparr>)"
| fails_unadmitted: "failUnadmitted (ls_manager s) now key = (m, u) \<Longrightarrow>
    lease_step s (s\<lparr>ls_manager := m\<rparr>)"
| sets_turn_state: "setTurnState (ls_manager s) now key state = (m, u) \<Longrightarrow>
    lease_step s (s\<lparr>ls_manager := m\<rparr>)"
| sets_anchor: "setResponseAnchor (ls_manager s) now key anchor encrypted = (m, u) \<Longrightarrow>
    lease_step s (s\<lparr>ls_manager := m\<rparr>)"
| pins: "markNonMigratable (ls_manager s) now key = (m, u) \<Longrightarrow>
    lease_step s (s\<lparr>ls_manager := m\<rparr>)"
| compacts: "lease_step s (s\<lparr>ls_manager := compact (ls_manager s) now retention\<rparr>)"
| restores: "\<forall>l \<in> set leases. restorable (ls_manager s) (ls_selecting s) l \<Longrightarrow>
    lease_step s (s\<lparr>ls_manager := restore v (ls_manager s) leases\<rparr>)"
| revokes: "lease_step s (s\<lparr>ls_manager := revoke (ls_manager s)\<rparr>)"

inductive_cases lease_stepE: "lease_step s t"

lemma closed_final:
  assumes "mg_closed m"
  shows "acquireBegin v m now key = (m, AcquireError ErrCodexLeaseWriterUnavailable)"
    "acquireFinish m now a choice err = (m, Inl ErrCodexLeaseWriterUnavailable)"
    "replaceProvisionalRoute m now key choice = (m, Inl ErrCodexLeaseWriterUnavailable)"
    "releaseRouting m now key = (m, Inl ErrCodexLeaseWriterUnavailable)"
    "admitBind m now key account socket = (m, Inl ErrCodexLeaseWriterUnavailable)"
    "admitPersisted m a l perr = (m, None, Some ErrCodexLeaseWriterUnavailable)"
    "observeCompleted m now key endTurn = (m, Inl ErrCodexLeaseWriterUnavailable)"
    "observeIndeterminate m now key = (m, Inl ErrCodexLeaseWriterUnavailable)"
    "observeProviderFailed m now key = (m, Inl ErrCodexLeaseWriterUnavailable)"
    "failUnadmitted m now key = (m, Inl ErrCodexLeaseWriterUnavailable)"
    "setTurnState m now key state = (m, Inl ErrCodexLeaseWriterUnavailable)"
    "setResponseAnchor m now key anchor encrypted = (m, Inl ErrCodexLeaseWriterUnavailable)"
    "markNonMigratable m now key = (m, Inl ErrCodexLeaseWriterUnavailable)"
    "compact m now retention = m" "restore v m leases = m" "revoke m = m"
    "getLease m key = None" "snapshot m = []"
  using assms
  by (simp_all add: acquireBegin_def acquireFinish_def replaceProvisionalRoute_def releaseRouting_def
    admitBind_def admitPersisted_def observeCompleted_def observeIndeterminate_def
    observeProviderFailed_def observeActive_def failUnadmitted_def setTurnState_def
    setResponseAnchor_def markNonMigratable_def compact_def restore_def revoke_def getLease_def
    snapshot_def)

lemma closed_step:
  assumes "lease_step s t" "mg_closed (ls_manager s)"
  shows "ls_manager t = ls_manager s"
  using assms by (cases rule: lease_step.cases) (auto simp: closed_final)

text \<open>The invariant of the system: the lane invariant until the manager is revoked.\<close>

definition system_invariant :: "lease_system \<Rightarrow> bool" where
  "system_invariant s \<longleftrightarrow>
     mg_closed (ls_manager s) \<or> lane_invariant (ls_manager s) (ls_selecting s)"

lemma lane_invariant_admitPersisted:
  assumes inv: "lane_invariant m sel" and step: "admitPersisted m a l err = (m', result, e)"
  shows "lane_invariant m' sel"
proof (cases "m' = m")
  case True
  with inv show ?thesis by simp
next
  case False
  with step have m': "m' = updLease a (\<lambda>l. l\<lparr>tl_non_migratable := True,
      tl_generation := tl_generation l + 1\<rparr>) m"
    by (auto simp: admitPersisted_def Let_def split: if_splits option.splits)
  have "busy m' sel k = busy m sel k" for k
    by (auto simp: busy_def m' liveWork_def split: option.split)
  with inv show ?thesis
    by (auto simp: m' lane_invariant_def well_formed_def)
qed

lemma system_invariant_step:
  assumes "system_invariant s" "lease_step s t"
  shows "system_invariant t"
proof (cases "mg_closed (ls_manager s)")
  case True
  with closed_step [OF assms(2)] show ?thesis by (simp add: system_invariant_def)
next
  case False
  with assms(1) have inv: "lane_invariant (ls_manager s) (ls_selecting s)"
    by (simp add: system_invariant_def)
  from assms(2) show ?thesis
  proof (cases rule: lease_step.cases)
    case (select_begins v now key m a)
    with lane_invariant_acquireBegin [OF inv select_begins(2)] show ?thesis
      by (simp add: system_invariant_def)
  next
    case (acquire_returns v now key m out)
    with lane_invariant_acquireBegin [OF inv acquire_returns(2)] show ?thesis
      by (cases out) (auto simp: system_invariant_def)
  next
    case (select_ends a now choice err m r)
    with lane_invariant_acquireFinish [OF inv select_ends(2) False select_ends(3)] show ?thesis
      by (simp add: system_invariant_def)
  qed (auto simp: system_invariant_def inv
      dest: lane_invariant_replaceProvisionalRoute [OF inv] lane_invariant_releaseRouting [OF inv]
        lane_invariant_admitBind [OF inv] lane_invariant_admitPersisted [OF inv]
        lane_invariant_observe [OF inv] lane_invariant_failUnadmitted [OF inv]
        lane_invariant_continuation [OF inv]
      intro: lane_invariant_compact [OF inv] lane_invariant_restore [OF inv])
qed

interpretation lane_system: invariant system_initial lease_step system_invariant
proof unfold_locales
  show "system_invariant s" if "system_initial s" for s
    using that by (simp add: system_initial_def system_invariant_def lane_invariant_newManager)
  show "system_invariant t" if "system_invariant s" "lease_step s t" for s t
    using that by (rule system_invariant_step)
qed

section \<open>How one step changes one lease\<close>

text \<open>
  What a step may do to a lease: move along the transition table (or, for the request that
  still selects, from a withdrawn reservation to a provisional lease), raising the
  generation whenever the state changes; a bound lease keeps its account and route, a
  pinned lease stays pinned and a turn state once set stays.
\<close>

definition bound_state :: "lease_state \<Rightarrow> bool" where
  "bound_state s \<longleftrightarrow>
     s \<in> {LeaseBoundActive, LeaseContinuationPending, LeaseBoundQuiescent, LeaseOrphaned}"

definition lease_change :: "bool \<Rightarrow> turn_lease \<Rightarrow> turn_lease \<Rightarrow> bool" where
  "lease_change selecting l l' \<longleftrightarrow>
     tl_key l' = tl_key l \<and>
     (tl_state l' = tl_state l \<or> validLeaseTransition (tl_state l) (tl_state l') \<or>
      selecting \<and> tl_state l = LeaseFailedUnadmitted \<and> tl_state l' = LeaseProvisional) \<and>
     (tl_state l' \<noteq> tl_state l \<longrightarrow> tl_generation l' = tl_generation l + 1) \<and>
     (bound_state (tl_state l) \<longrightarrow> tl_account l' = tl_account l \<and> tl_choice l' = tl_choice l) \<and>
     (tl_non_migratable l \<longrightarrow> tl_non_migratable l') \<and>
     (tl_turn_state l \<noteq> [] \<longrightarrow> tl_turn_state l' = tl_turn_state l)"

lemma lease_change_refl [simp]: "lease_change selecting l l"
  by (simp add: lease_change_def)

lemma bump_rest [simp]:
  "tl_turn_state (bump now l) = tl_turn_state l"
  by (simp add: bump_def)








lemma leaseAt_compact [simp]: "leaseAt (compact m now retention) b = leaseAt m b"
proof -
  have "leaseAt (compactStep now r x n) b = leaseAt n b" for r x n
    by (cases x) (simp add: compactStep_def leaseAt_def)
  then have "leaseAt (fold (compactStep now r) xs n) b = leaseAt n b" for r xs n
    by (induction xs arbitrary: n) simp_all
  then show ?thesis by (simp add: compact_def)
qed



section \<open>Properties of every interleaving\<close>

lemma reachable_lane_invariant:
  assumes "reachable system_initial lease_step s" "\<not> mg_closed (ls_manager s)"
  shows "lane_invariant (ls_manager s) (ls_selecting s)"
  using lane_system.always [OF assms(1)] assms(2) by (simp add: system_invariant_def)




text \<open>
  A lease runs at most one attempt, exactly while it is bound and active, and its
  routing references are never negative.
\<close>

theorem turn_attempt_bounds:
  assumes "reachable system_initial lease_step s" "\<not> mg_closed (ls_manager s)"
    and "leaseAddr (ls_manager s) k = Some a"
  shows "tl_active_attempts (leaseAt (ls_manager s) a) =
      (if tl_state (leaseAt (ls_manager s) a) = LeaseBoundActive then 1 else 0) \<and>
    0 \<le> tl_routing_refs (leaseAt (ls_manager s) a)"
  using lane_invariantD(1,2) [OF reachable_lane_invariant [OF assms(1,2)] assms(3)] by simp


section \<open>What each request gets\<close>

definition laneBlocked :: "manager \<Rightarrow> lane_key \<Rightarrow> bool" where
  "laneBlocked m lane \<longleftrightarrow>
     (case Option.bind (mg_current m lane) (leaseAddr m) of None \<Rightarrow> False
      | Some p \<Rightarrow> liveWork (leaseAt m p) \<or>
          \<not> validLeaseTransition (tl_state (leaseAt m p)) LeaseSuperseded)"

definition supersededManager :: "manager \<Rightarrow> gotime \<Rightarrow> lane_key \<Rightarrow> manager" where
  "supersededManager m now lane =
     (case Option.bind (mg_current m lane) (leaseAddr m) of None \<Rightarrow> m
      | Some p \<Rightarrow> updLease p (\<lambda>l. bump now (l\<lparr>tl_state := LeaseSuperseded\<rparr>)) m)"

lemma supersede_lane:
  "(case Option.bind (mg_current m lane) (leaseAddr m) of
      None \<Rightarrow> Inr m | Some p \<Rightarrow> supersede m now p) =
   (if laneBlocked m lane then Inl ErrCodexConcurrentTurn else Inr (supersededManager m now lane))"
  by (auto simp: laneBlocked_def supersededManager_def supersede_def Let_def split: option.split)

lemma supersededManager_fields [simp]:
  "mg_leases (supersededManager m now lane) = mg_leases m"
  "mg_current (supersededManager m now lane) = mg_current m"
  "mg_next (supersededManager m now lane) = mg_next m"
  "mg_closed (supersededManager m now lane) = mg_closed m"
  "leaseAddr (supersededManager m now lane) k = leaseAddr m k"
  "leaseAt (supersededManager m now lane) b =
     (if Option.bind (mg_current m lane) (leaseAddr m) = Some b
      then bump now ((leaseAt m b)\<lparr>tl_state := LeaseSuperseded\<rparr>) else leaseAt m b)"
  by (auto simp: supersededManager_def split: option.split)

definition acquiredManager ::
  "mode_view \<Rightarrow> manager \<Rightarrow> gotime \<Rightarrow> gotime \<Rightarrow> lease_key \<Rightarrow> route_choice \<Rightarrow> manager" where
  "acquiredManager v m now1 now2 key choice =
     setReady (mg_next m) ReadyClosed (updLease (mg_next m) (\<lambda>l. bump now2
         (l\<lparr>tl_account := rc_account choice, tl_choice := choice, tl_state := LeaseProvisional\<rparr>))
       ((allocLease key (reservation v now1 key) (supersededManager m now1 (key_lane key)))
          \<lparr>mg_current := (mg_current m)(key_lane key \<mapsto> key)\<rparr>))"

lemma acquiredManager_fields [simp]:
  "mg_closed (acquiredManager v m now1 now2 key choice) = mg_closed m"
  "isCurrent (acquiredManager v m now1 now2 key choice) key"
  "leaseAddr (acquiredManager v m now1 now2 key choice) k =
     (if k = key then Some (mg_next m) else leaseAddr m k)"
  "b \<noteq> mg_next m \<Longrightarrow> leaseAt (acquiredManager v m now1 now2 key choice) b =
     leaseAt (supersededManager m now1 (key_lane key)) b"
  "leaseAt (acquiredManager v m now1 now2 key choice) (mg_next m) =
     bump now2 ((ml_lease (reservation v now1 key))\<lparr>tl_account := rc_account choice,
       tl_choice := choice, tl_state := LeaseProvisional\<rparr>)"
  by (simp_all add: acquiredManager_def isCurrent_def)

lemma acquireRoute_new_turn:
  assumes "\<not> mg_closed m" "validateLeaseKey key = Inr ()" "leaseAddr m key = None"
    and "rc_account choice \<noteq> []"
  shows "acquireRoute v m now1 now2 key (choice, None) =
    (if laneBlocked m (key_lane key) then Some (m, Inl ErrCodexConcurrentTurn)
     else let m' = acquiredManager v m now1 now2 key choice
          in Some (m', Inr (leaseAt m' (mg_next m))))"
  using assms
  by (simp add: acquireRoute_def acquireBegin_def supersede_lane acquireFinish_def closeReady_def
    reservation_def Let_def acquiredManager_def)

text \<open>
  C23. The contract of a new turn: with an open manager and a valid key that has no lease,
  the lane refuses it as concurrent exactly when its current turn has live work or cannot
  be superseded, and then nothing changes; otherwise the previous turn is superseded and a
  selector that returns an account leaves the turn current, provisional on that choice,
  with one reference, and every lease of another lane as it was.
\<close>

theorem turn_acquire_contract:
  assumes "well_formed m" "\<not> mg_closed m" "validateLeaseKey key = Inr ()"
    and "leaseAddr m key = None" "rc_account choice \<noteq> []"
  shows "if laneBlocked m (key_lane key)
    then acquireRoute v m now1 now2 key (choice, None) = Some (m, Inl ErrCodexConcurrentTurn)
    else \<exists>m' l. acquireRoute v m now1 now2 key (choice, None) = Some (m', Inr l) \<and>
      getLease m' key = Some l \<and> isCurrent m' key \<and> tl_state l = LeaseProvisional \<and>
      tl_choice l = choice \<and> tl_account l = rc_account choice \<and> tl_routing_refs l = 1 \<and>
      tl_mode_epoch l = mv_epoch v \<and> tl_authoritative l = mv_authoritative v \<and>
      (\<forall>k. k \<noteq> key \<longrightarrow> getLease m' k =
        (if mg_current m (key_lane key) = Some k
         then map_option (\<lambda>p. bump now1 (p\<lparr>tl_state := LeaseSuperseded\<rparr>)) (getLease m k)
         else getLease m k))"
proof (cases "laneBlocked m (key_lane key)")
  case True
  then show ?thesis using acquireRoute_new_turn [OF assms(2-5)] by simp
next
  case False
  have old: "getLease m' k = (if mg_current m (key_lane key) = Some k
      then map_option (\<lambda>p. bump now1 (p\<lparr>tl_state := LeaseSuperseded\<rparr>)) (getLease m k)
      else getLease m k)"
    if m': "\<And>b. b < mg_next m \<Longrightarrow> leaseAt m' b = leaseAt (supersededManager m now1 (key_lane key)) b"
      "leaseAddr m' k = leaseAddr m k" "\<not> mg_closed m'" for m' k
  proof (cases "leaseAddr m k")
    case None
    with m' assms(2) show ?thesis by (simp add: getLease_def)
  next
    case (Some b)
    have "Option.bind (mg_current m (key_lane key)) (leaseAddr m) = Some b \<longleftrightarrow>
        mg_current m (key_lane key) = Some k"
      unfolding bind_eq_Some_conv using Some well_formedD(3) [OF assms(1) Some] by blast
    moreover have "leaseAt m' b = leaseAt (supersededManager m now1 (key_lane key)) b"
      by (rule m'(1)) (rule well_formedD(1) [OF assms(1) Some])
    ultimately show ?thesis
      using Some m'(2,3) assms(2) by (simp add: getLease_def)
  qed
  let ?m = "acquiredManager v m now1 now2 key choice"
  have "getLease ?m k = (if mg_current m (key_lane key) = Some k
      then map_option (\<lambda>p. bump now1 (p\<lparr>tl_state := LeaseSuperseded\<rparr>)) (getLease m k)
      else getLease m k)" if "k \<noteq> key" for k
    by (rule old) (use that assms(2) in simp_all)
  moreover have "acquireRoute v m now1 now2 key (choice, None) =
      Some (?m, Inr (leaseAt ?m (mg_next m)))"
    unfolding acquireRoute_new_turn [OF assms(2-5)] using False by (simp add: Let_def)
  moreover have "getLease ?m key = Some (leaseAt ?m (mg_next m))"
    using assms(2) by (simp add: getLease_def)
  moreover have "tl_state (leaseAt ?m (mg_next m)) = LeaseProvisional"
      "tl_choice (leaseAt ?m (mg_next m)) = choice"
      "tl_account (leaseAt ?m (mg_next m)) = rc_account choice"
      "tl_routing_refs (leaseAt ?m (mg_next m)) = 1"
      "tl_mode_epoch (leaseAt ?m (mg_next m)) = mv_epoch v"
      "tl_authoritative (leaseAt ?m (mg_next m)) = mv_authoritative v"
    by (simp_all add: reservation_def bump_def)
  ultimately show ?thesis
    unfolding if_not_P [OF False]
    by (intro exI [of _ ?m] exI [of _ "leaseAt ?m (mg_next m)"] conjI allI impI)
      (simp_all del: supersededManager_fields)
qed

text \<open>
  A failed selection parks its lane: the error is returned, the lease is
  \<open>failed_unadmitted\<close>, and from then on, until compaction drops that lease, its own turn
  is answered as stale and every other turn of the lane as concurrent.
\<close>

theorem turn_failed_selection_parks_lane:
  assumes "well_formed m" "\<not> mg_closed m" "validateLeaseKey key = Inr ()"
    and "leaseAddr m key = None" "\<not> laneBlocked m (key_lane key)"
    and "acquireRoute v m now1 now2 key (choice, Some err) = Some (m', r)"
  shows "r = Inl err \<and>
    acquireBegin v' m' now key = (m', AcquireError ErrCodexStaleTurn) \<and>
    (\<forall>key'. key_lane key' = key_lane key \<longrightarrow> leaseAddr m key' = None \<longrightarrow> key' \<noteq> key \<longrightarrow>
      validateLeaseKey key' = Inr () \<longrightarrow>
      acquireBegin v' m' now key' = (m', AcquireError ErrCodexConcurrentTurn))"
proof -
  let ?m = "setReady (mg_next m) ReadyClosed (updLease (mg_next m) (\<lambda>l. bump now2
         (l\<lparr>tl_state := LeaseFailedUnadmitted, tl_routing_refs := 0\<rparr>))
       ((allocLease key (reservation v now1 key) (supersededManager m now1 (key_lane key)))
          \<lparr>mg_current := (mg_current m)(key_lane key \<mapsto> key)\<rparr>))"
  have run: "m' = ?m" "r = Inl err"
    using assms
    by (simp_all add: acquireRoute_def acquireBegin_def supersede_lane acquireFinish_def closeReady_def
      reservation_def Let_def)
  have fields: "leaseAddr m' k = (if k = key then Some (mg_next m) else leaseAddr m k)"
    "mg_current m' (key_lane key) = Some key" "\<not> mg_closed m'" "isCurrent m' key"
    "tl_state (leaseAt m' (mg_next m)) = LeaseFailedUnadmitted" for k
    using assms(2) by (simp_all add: run isCurrent_def)
  then have "laneBlocked m' (key_lane key)"
    by (simp add: laneBlocked_def validLeaseTransition_def)
  then show ?thesis
    using run(2) fields assms(3)
    by (auto simp: acquireBegin_def acquireExisting_def supersede_def validLeaseTransition_def Let_def)
qed

text \<open>
  Admission binds the current turn to the account and socket it was routed to: it
  counts one attempt, and when persisting the lease fails the lease is still bound and
  active but pinned as non-migratable, and both the lease and the error are returned. A
  lease routed to another account is refused and nothing changes.
\<close>

theorem turn_admission:
  assumes "\<not> mg_closed m" "leaseAddr m key = Some a" "isCurrent m key"
    and "tl_state (leaseAt m a) \<in> {LeaseProvisional, LeaseContinuationPending, LeaseBoundQuiescent, LeaseOrphaned}"
  shows "(account \<noteq> tl_account (leaseAt m a) \<longrightarrow>
      admitContext m now key account socket None None persist =
        (m, None, Some (ErrCodexContinuity ''admission account mismatch''))) \<and>
    (account = tl_account (leaseAt m a) \<longrightarrow>
      (\<exists>m' l e. admitContext m now key account socket None None persist = (m', Some l, e) \<and>
        getLease m' key = Some l \<and> tl_state l = LeaseBoundActive \<and> tl_account l = account \<and>
        tl_socket l = socket \<and>
        tl_active_attempts l = tl_active_attempts (leaseAt m a) + 1 \<and>
        (e = None \<or> (\<exists>c. e = Some (ErrPersist c)) \<and> tl_non_migratable l) \<and>
        (\<forall>k b. b \<noteq> a \<longrightarrow> leaseAddr m k = Some b \<longrightarrow> getLease m' k = getLease m k)))"
proof -
  have valid: "validLeaseTransition (tl_state (leaseAt m a)) LeaseBoundActive"
    using assms(4) by (auto simp: validLeaseTransition_def)
  define m1 where "m1 = updLease a (\<lambda>l. bump now (l\<lparr>tl_state := LeaseBoundActive,
    tl_active_attempts := tl_active_attempts l + 1, tl_socket := socket\<rparr>)) m"
  have l1: "leaseAt m1 a = bump now ((leaseAt m a)\<lparr>tl_state := LeaseBoundActive,
    tl_active_attempts := tl_active_attempts (leaseAt m a) + 1, tl_socket := socket\<rparr>)"
    "leaseAddr m1 = leaseAddr m" "mg_closed m1 = mg_closed m" "\<And>b. b \<noteq> a \<Longrightarrow> leaseAt m1 b = leaseAt m b"
    by (simp_all add: m1_def fun_eq_iff)
  have socket: "tl_socket (bump now l) = tl_socket l" for l by (simp add: bump_def)
  have bind: "admitBind m now key (tl_account (leaseAt m a)) socket =
      (m1, Inr (a, snapshotLocked m1, leaseAt m1 a))"
    using assms valid by (simp add: admitBind_def m1_def Let_def)
  have mismatch: "admitContext m now key account socket None None persist =
      (m, None, Some (ErrCodexContinuity ''admission account mismatch''))"
    if "account \<noteq> tl_account (leaseAt m a)"
    using that assms by (simp add: admitContext_def admitBind_def)
  have get: "getLease m' k = getLease m k"
    if "leaseAddr m' = leaseAddr m" "\<not> mg_closed m'" "leaseAt m' b = leaseAt m b" "leaseAddr m k = Some b"
    for m' k b using that assms(1) by (simp add: getLease_def)
  consider (ok) "persist = None \<or> (\<exists>p. persist = Some p \<and> p (snapshotLocked m1) = None)"
    | (failed) p c where "persist = Some p" "p (snapshotLocked m1) = Some c"
    by (cases persist) auto
  then show ?thesis
  proof cases
    case ok
    then have "admitContext m now key (tl_account (leaseAt m a)) socket None None persist =
        (m1, Some (leaseAt m1 a), None)"
      using assms(1) l1(3) by (auto simp: admitContext_def bind admitPersisted_def)
    moreover have "getLease m1 key = Some (leaseAt m1 a)"
      using assms(1,2) l1 by (simp add: getLease_def)
    moreover have "getLease m1 k = getLease m k" if "b \<noteq> a" "leaseAddr m k = Some b" for k b
      using get [of m1 b k] that l1 assms(1) by simp
    ultimately show ?thesis using mismatch l1(1) socket by auto
  next
    case failed
    define m2 where "m2 = updLease a (\<lambda>l. l\<lparr>tl_non_migratable := True,
      tl_generation := tl_generation l + 1\<rparr>) m1"
    have l2: "leaseAt m2 a = (leaseAt m1 a)\<lparr>tl_non_migratable := True,
        tl_generation := tl_generation (leaseAt m1 a) + 1\<rparr>"
      "leaseAddr m2 = leaseAddr m" "mg_closed m2 = mg_closed m" "\<And>b. b \<noteq> a \<Longrightarrow> leaseAt m2 b = leaseAt m b"
      using l1 by (simp_all add: m2_def fun_eq_iff)
    have "admitContext m now key (tl_account (leaseAt m a)) socket None None persist =
        (m2, Some (leaseAt m2 a), Some (ErrPersist c))"
      using assms(1) l1(3) failed
      by (simp add: admitContext_def bind admitPersisted_def m2_def Let_def)
    moreover have "getLease m2 key = Some (leaseAt m2 a)"
      using assms(1,2) l2 by (simp add: getLease_def)
    moreover have "getLease m2 k = getLease m k" if "b \<noteq> a" "leaseAddr m k = Some b" for k b
      using get [of m2 b k] that l2 assms(1) by simp
    ultimately show ?thesis using mismatch l2(1) l1(1) socket by auto
  qed
qed

lemma compactStep_addr:
  "leaseAddr (compactStep now retention (key, a) m) k =
     (if k = key \<and> \<not> compactKeeps m now retention a then None else leaseAddr m k)"
  by (simp add: compactStep_def leaseAddr_def delete_conv' restrict_map_def)

lemma compactStep_same [simp]:
  "leaseAt (compactStep now retention x m) b = leaseAt m b"
  "mg_closed (compactStep now retention x m) = mg_closed m"
  "compactKeeps (compactStep now retention x m) now' retention' b = compactKeeps m now' retention' b"
  by (cases x; simp add: compactStep_def leaseAt_def compactKeeps_def)+

lemma compact_fold_addr:
  "distinct (map fst xs) \<Longrightarrow> leaseAddr (fold (compactStep now r) xs m) k =
     (case map_of xs k of None \<Rightarrow> leaseAddr m k
      | Some a \<Rightarrow> if compactKeeps m now r a then leaseAddr m k else None)"
proof (induction xs arbitrary: m)
  case Nil
  then show ?case by simp
next
  case (Cons x xs)
  obtain key a where x: "x = (key, a)" by (cases x)
  have "map_of xs key = None" using Cons.prems by (simp add: x map_of_eq_None_iff image_iff)
  with Cons show ?case
    by (auto simp: x compactStep_addr split: option.splits)
qed

text \<open>
  Compaction removes exactly the leases without references and attempts that were not
  seen for longer than the retention, and leaves every other lease as it is.
\<close>

theorem turn_compact_exact:
  assumes "well_formed m" "\<not> mg_closed m"
  shows "getLease (compact m now retention) k =
    (case getLease m k of None \<Rightarrow> None
     | Some l \<Rightarrow>
         if tl_routing_refs l \<noteq> 0 \<or> tl_active_attempts l \<noteq> 0 \<or>
           timeSub now (tl_last_seen l) \<le>
             (if retention \<le> 0 then DefaultCodexLeaseRetention else retention)
         then Some l else None)"
proof -
  define r where "r = (if retention \<le> 0 then DefaultCodexLeaseRetention else retention)"
  have closed: "mg_closed (fold (compactStep now q) xs n) = mg_closed n" for q xs n
    by (induction xs arbitrary: n) simp_all
  have "leaseAddr (compact m now retention) k =
    (case leaseAddr m k of None \<Rightarrow> None | Some a \<Rightarrow> if compactKeeps m now r a then Some a else None)"
    using assms compact_fold_addr [of "mg_leases m" now r m k]
    by (simp add: compact_def r_def well_formed_def leaseAddr_def [symmetric] split: option.split)
  moreover have "mg_closed (compact m now retention) = mg_closed m"
    using closed by (simp add: compact_def)
  ultimately show ?thesis
    using assms(2) by (auto simp: getLease_def compactKeeps_def r_def split: option.splits)
qed

text \<open>
  Revocation is final and leaves nothing behind: every lease is erased where it lies,
  so pointers that requests still hold read an empty lease, and afterwards no step of any
  request changes the manager.
\<close>

theorem turn_revoke_final:
  assumes "\<not> mg_closed (ls_manager s)" "t = s\<lparr>ls_manager := revoke (ls_manager s)\<rparr>"
    and "reachable (\<lambda>x. x = t) lease_step u"
  shows "ls_manager u = revoke (ls_manager s) \<and> mg_closed (ls_manager u) \<and>
    getLease (ls_manager u) k = None \<and> snapshot (ls_manager u) = [] \<and>
    mg_leases (ls_manager u) = [] \<and> mg_current (ls_manager u) = Map.empty \<and>
    (leaseAddr (ls_manager s) k = Some a \<longrightarrow> leaseAt (ls_manager u) a = zeroLease)"
proof -
  have "ls_manager u = revoke (ls_manager s)"
    using assms(3)
  proof (induction rule: reachable.induct)
    case (reachable_initial x)
    with assms(2) show ?case by simp
  next
    case (reachable_step x y)
    with closed_step [of x y] show ?case by simp
  qed
  moreover have "leaseAt (revoke (ls_manager s)) a = zeroLease"
    if "leaseAddr (ls_manager s) k = Some a"
  proof -
    from that have "a \<in> snd ` set (mg_leases (ls_manager s))"
      unfolding leaseAddr_def by (metis image_eqI map_of_SomeD snd_conv)
    with assms(1) show ?thesis
      by (auto simp: revoke_def current_updates)
  qed
  ultimately show ?thesis
    using assms(1) by (auto simp: closed_final revoke_def)
qed

section \<open>Two turns of one lane\<close>

text \<open>Concrete states on which the properties are evaluated.\<close>

definition sampleKey :: "string \<Rightarrow> lease_key" where
  "sampleKey turn = NewCodexLeaseKey ''session'' ''thread'' turn"

definition sampleView :: mode_view where
  "sampleView = \<lparr>mv_epoch = 1, mv_authoritative = True\<rparr>"

definition sampleChoice :: route_choice where
  "sampleChoice = emptyChoice\<lparr>rc_account := ''acct'', rc_requested_model := ''gpt-5'',
     rc_effective_model := ''gpt-5'', rc_buckets := [''base'']\<rparr>"

definition sampleReserved :: manager where
  "sampleReserved = fst (acquireBegin sampleView newManager zeroTime (sampleKey ''t1''))"

definition sampleProvisional :: manager where
  "sampleProvisional = fst (acquireFinish sampleReserved zeroTime 0 sampleChoice None)"

lemma sample_begin:
  "acquireBegin sampleView newManager zeroTime (sampleKey ''t1'') = (sampleReserved, AcquireSelect 0)"
  by (simp add: sampleReserved_def prod_eq_iff) code_simp


lemma sample_state [simp]:
  "\<not> mg_closed newManager" "\<not> mg_closed sampleReserved" "\<not> mg_closed sampleProvisional"
  "validateLeaseKey (sampleKey ''t1'') = Inr ()" "validateLeaseKey (sampleKey ''t2'') = Inr ()"
  "leaseAddr newManager k = None"
  "leaseAddr sampleProvisional (sampleKey ''t1'') = Some 0"
  "leaseAddr sampleReserved (sampleKey ''t1'') = Some 0"
  "isCurrent sampleProvisional (sampleKey ''t1'')"
  "tl_state (leaseAt sampleReserved 0) = LeaseReserving"
  "tl_state (leaseAt sampleProvisional 0) = LeaseProvisional"
  "tl_account (leaseAt sampleProvisional 0) = ''acct''"
  "liveWork (leaseAt sampleProvisional 0)"
  "laneBlocked newManager (key_lane (sampleKey ''t1'')) = False"
  "rc_account sampleChoice \<noteq> []"
  subgoal by code_simp
  subgoal by code_simp
  subgoal by code_simp
  subgoal by code_simp
  subgoal by code_simp
  subgoal by (simp add: newManager_def leaseAddr_def)
  by code_simp+

definition sampleSystem :: "manager \<Rightarrow> nat set \<Rightarrow> lease_system" where
  "sampleSystem m sel = \<lparr>ls_manager = m, ls_selecting = sel, ls_persisting = {}\<rparr>"

lemma sampleSystem_fields [simp]:
  "ls_manager (sampleSystem m sel) = m" "ls_selecting (sampleSystem m sel) = sel"
  by (simp_all add: sampleSystem_def)

lemma sample_reachable:
  "reachable system_initial lease_step (sampleSystem sampleReserved {0})"
  "reachable system_initial lease_step (sampleSystem sampleProvisional {})"
proof -
  have "reachable system_initial lease_step (sampleSystem newManager {})"
    by (rule reachable_initial) (simp add: system_initial_def sampleSystem_def)
  moreover have "lease_step (sampleSystem newManager {}) (sampleSystem sampleReserved {0})"
    using select_begins [of sampleView "sampleSystem newManager {}" zeroTime "sampleKey ''t1''"
        sampleReserved 0] sample_begin
    by (simp add: sampleSystem_def)
  ultimately show res: "reachable system_initial lease_step (sampleSystem sampleReserved {0})"
    by (rule reachable_step)
  have "acquireFinish sampleReserved zeroTime 0 sampleChoice None =
      (sampleProvisional, snd (acquireFinish sampleReserved zeroTime 0 sampleChoice None))"
    by (simp add: sampleProvisional_def)
  from select_ends [of 0 "sampleSystem sampleReserved {0}" zeroTime sampleChoice None, simplified, OF this]
  have "lease_step (sampleSystem sampleReserved {0}) (sampleSystem sampleProvisional {})"
    by (simp add: sampleSystem_def)
  with res show "reachable system_initial lease_step (sampleSystem sampleProvisional {})"
    by (rule reachable_step)
qed

lemma sample_well_formed: "well_formed newManager" "well_formed sampleProvisional"
  using lane_invariant_newManager reachable_lane_invariant [OF sample_reachable(2)]
  by (simp_all add: lane_invariant_def)



theorem turn_attempt_bounds_witness:
  "tl_active_attempts (leaseAt sampleProvisional 0) = 0 \<and>
   0 \<le> tl_routing_refs (leaseAt sampleProvisional 0)"
  using turn_attempt_bounds [OF sample_reachable(2), of "sampleKey ''t1''" 0] by simp


theorem turn_acquire_contract_witness:
  "\<exists>m' l. acquireRoute sampleView newManager zeroTime zeroTime (sampleKey ''t1'') (sampleChoice, None) =
     Some (m', Inr l) \<and> getLease m' (sampleKey ''t1'') = Some l \<and> tl_state l = LeaseProvisional"
  using turn_acquire_contract [OF sample_well_formed(1), of "sampleKey ''t1''" sampleChoice
      sampleView zeroTime zeroTime] by auto

theorem turn_failed_selection_parks_lane_witness:
  "acquireBegin sampleView (fst (the (acquireRoute sampleView newManager zeroTime zeroTime
       (sampleKey ''t1'') (sampleChoice, Some (ErrCallback ''x''))))) zeroTime (sampleKey ''t2'') =
     (fst (the (acquireRoute sampleView newManager zeroTime zeroTime (sampleKey ''t1'')
       (sampleChoice, Some (ErrCallback ''x'')))), AcquireError ErrCodexConcurrentTurn)"
proof -
  let ?r = "acquireRoute sampleView newManager zeroTime zeroTime (sampleKey ''t1'')
    (sampleChoice, Some (ErrCallback ''x''))"
  have "?r = Some (fst (the ?r), snd (the ?r))"
    by (simp add: acquireRoute_def sample_begin)
  moreover have "key_lane (sampleKey ''t2'') = key_lane (sampleKey ''t1'')"
    "sampleKey ''t2'' \<noteq> sampleKey ''t1''"
    by (simp_all add: sampleKey_def NewCodexLeaseKey_def)
  ultimately show ?thesis
    using turn_failed_selection_parks_lane [OF sample_well_formed(1), of "sampleKey ''t1''" sampleView zeroTime zeroTime
        sampleChoice "ErrCallback ''x''" "fst (the ?r)" "snd (the ?r)" sampleView zeroTime]
    by simp
qed

theorem turn_admission_witness:
  "\<exists>m' l e. admitContext sampleProvisional zeroTime (sampleKey ''t1'') ''acct'' 7 None None
      (Some (\<lambda>_. Some ''disk full'')) = (m', Some l, e) \<and> tl_state l = LeaseBoundActive"
  using turn_admission [of sampleProvisional "sampleKey ''t1''" 0 "''acct''" zeroTime 7
      "Some (\<lambda>_. Some ''disk full'')"] by auto

theorem turn_compact_exact_witness:
  "getLease (compact sampleProvisional zeroTime 1) (sampleKey ''t1'') =
     getLease sampleProvisional (sampleKey ''t1'')"
proof -
  have "tl_routing_refs (leaseAt sampleProvisional 0) \<noteq> 0" by code_simp
  then show ?thesis
    using turn_compact_exact [OF sample_well_formed(2), of zeroTime 1 "sampleKey ''t1''"]
    by (simp add: getLease_def)
qed

theorem turn_revoke_final_witness:
  "leaseAt (revoke sampleProvisional) 0 = zeroLease"
proof -
  let ?s = "sampleSystem sampleProvisional {}"
  let ?t = "?s\<lparr>ls_manager := revoke (ls_manager ?s)\<rparr>"
  have "reachable (\<lambda>x. x = ?t) lease_step ?t" by (rule reachable_initial) simp
  from turn_revoke_final [OF _ refl this, of "sampleKey ''t1''" 0] show ?thesis by simp
qed

section \<open>Restoring into a busy lane\<close>

text \<open>
  Without the condition of the \<open>restores\<close> step the exclusivity is lost: \<open>Restore\<close> makes the
  restored turn current although another turn of its lane is provisional, and a request for
  the restored turn is then routed beside the live one.
\<close>

definition sampleStored :: turn_lease where
  "sampleStored = zeroLease\<lparr>tl_key := sampleKey ''t0'', tl_state := LeaseBoundQuiescent,
     tl_account := ''acct'', tl_mode_epoch := 1, tl_authoritative := True\<rparr>"

lemma restore_displaces_live_turn:
  "let m = restore sampleView sampleProvisional [sampleStored];
       (m', out) = acquireBegin sampleView m zeroTime (sampleKey ''t0'')
   in liveWork (leaseAt m' 0) \<and> \<not> isCurrent m' (sampleKey ''t1'') \<and>
      leaseAddr m' (sampleKey ''t0'') = Some 1 \<and> liveWork (leaseAt m' 1)"
  by code_simp

end
