(* ===== verification/RoutePolicy.thy ===== *)
theory RoutePolicy
  imports TurnLease "HOL-Library.Product_Lexorder"
begin

text \<open>
  The route policy of \<open>internal/proxy/codex_route_policy.go\<close>: from the candidate routes of
  a request and the routing hints it freezes an ordered plan of route choices. Cloning a
  choice or a candidate is the identity on values. \<open>strings.EqualFold\<close> and the
  case-insensitive suffix of \<open>ParseModel\<close> fold the ASCII letters, the alphabet of model
  names; bytes outside ASCII compare as they are.
\<close>

section \<open>Model names\<close>

definition toLowerByte :: "char \<Rightarrow> char" where
  "toLowerByte c = (let n = (of_char c :: nat) in if 65 \<le> n \<and> n \<le> 90 then char_of (n + 32) else c)"

definition toLower :: "string \<Rightarrow> string" where
  "toLower = map toLowerByte"

definition equalFold :: "string \<Rightarrow> string \<Rightarrow> bool" where
  "equalFold s t \<longleftrightarrow> toLower s = toLower t"

definition oneMillionSuffix :: string where
  "oneMillionSuffix = ''[1m]''"

definition ParseModel :: "string \<Rightarrow> string" where
  "ParseModel model =
     (let n = length model - 4
      in if 4 \<le> length model \<and> equalFold (drop n model) oneMillionSuffix then take n model
         else model)"

definition codexRoutePolicySameModel :: "string \<Rightarrow> string \<Rightarrow> bool" where
  "codexRoutePolicySameModel left right \<longleftrightarrow> equalFold (ParseModel left) (ParseModel right)"

section \<open>Candidates, hints and plans\<close>

datatype capacity_state =
    CapacityUnknown
  | CapacityPositive
  | CapacityZero
  | CapacityStateOther nat

record capacity_view =
  cv_state :: capacity_state
  cv_remaining :: int
  cv_reset :: gotime
  cv_source :: nat
  cv_exact :: bool

definition capacityView :: "capacity_state \<Rightarrow> int \<Rightarrow> capacity_view" where
  "capacityView s r = \<lparr>cv_state = s, cv_remaining = r, cv_reset = zeroTime, cv_source = 0,
     cv_exact = False\<rparr>"

record policy_candidate =
  pc_choice :: route_choice
  pc_value :: u32
  pc_system :: bool
  pc_quota_exhausted :: bool
  pc_capacity :: "capacity_view list"
  pc_compatible :: bool
  pc_routable :: bool
  pc_provisional :: int

record policy_hints =
  ph_affinity_account :: account_key
  ph_affinity_model :: string
  ph_default :: account_key
  ph_bound :: account_key

datatype plan_status =
    PlanReady
  | PlanDefaultMissing
  | PlanDefaultUnresolved
  | PlanDefaultIncompatible
  | PlanDefaultUnroutable
  | PlanBoundUnresolved
  | PlanBoundIncompatible
  | PlanBoundUnroutable
  | PlanAffinityUnresolved
  | PlanAffinityIncompatible
  | PlanAffinityUnroutable
  | PlanCanceled
  | PlanInvalidCandidate

fun planStatusString :: "plan_status \<Rightarrow> string" where
  "planStatusString PlanReady = ''ready''"
| "planStatusString PlanDefaultMissing = ''default_missing''"
| "planStatusString PlanDefaultUnresolved = ''default_unresolved''"
| "planStatusString PlanDefaultIncompatible = ''default_incompatible''"
| "planStatusString PlanDefaultUnroutable = ''default_unroutable''"
| "planStatusString PlanBoundUnresolved = ''bound_unresolved''"
| "planStatusString PlanBoundIncompatible = ''bound_incompatible''"
| "planStatusString PlanBoundUnroutable = ''bound_unroutable''"
| "planStatusString PlanAffinityUnresolved = ''affinity_unresolved''"
| "planStatusString PlanAffinityIncompatible = ''affinity_incompatible''"
| "planStatusString PlanAffinityUnroutable = ''affinity_unroutable''"
| "planStatusString PlanCanceled = ''canceled''"
| "planStatusString PlanInvalidCandidate = ''invalid_candidate''"

record route_plan =
  rp_choices :: "route_choice list"
  rp_default :: account_key
  rp_default_ordinal :: u32
  rp_status :: plan_status

record policy_error =
  pe_status :: plan_status
  pe_cause :: "string option"

definition policyErrorString :: "policy_error \<Rightarrow> string" where
  "policyErrorString e = ''Codex route policy terminal failure: '' @ planStatusString (pe_status e)"

definition emptyPlan :: "plan_status \<Rightarrow> route_plan" where
  "emptyPlan s = \<lparr>rp_choices = [], rp_default = [], rp_default_ordinal = 0, rp_status = s\<rparr>"

definition planTerminalError :: "route_plan \<Rightarrow> policy_error option" where
  "planTerminalError p = (if rp_status p = PlanReady then None
     else Some \<lparr>pe_status = rp_status p, pe_cause = None\<rparr>)"

definition planEffectiveModel :: "route_plan \<Rightarrow> string" where
  "planEffectiveModel p = (case rp_choices p of [] \<Rightarrow> [] | c # _ \<Rightarrow> rc_effective_model c)"

section \<open>Comparing candidates\<close>

definition codexRoutePolicyCandidateValid :: "policy_candidate \<Rightarrow> bool" where
  "codexRoutePolicyCandidateValid c \<longleftrightarrow>
     rc_buckets (pc_choice c) \<noteq> [] \<and>
     length (pc_capacity c) = length (rc_buckets (pc_choice c)) \<and>
     (\<forall>view \<in> set (pc_capacity c).
        case cv_state view of
          CapacityUnknown \<Rightarrow> True
        | CapacityZero \<Rightarrow> True
        | CapacityPositive \<Rightarrow> 1 \<le> cv_remaining view \<and> cv_remaining view \<le> 100
        | CapacityStateOther _ \<Rightarrow> False)"

definition codexRoutePolicyNative :: "route_choice \<Rightarrow> bool" where
  "codexRoutePolicyNative c \<longleftrightarrow>
     codexRoutePolicySameModel (rc_requested_model c) (rc_effective_model c)"

definition codexRoutePolicyCompatibleWithFrozen :: "route_choice \<Rightarrow> route_choice \<Rightarrow> bool" where
  "codexRoutePolicyCompatibleWithFrozen candidate frozen \<longleftrightarrow>
     codexRoutePolicySameModel (rc_requested_model candidate) (rc_requested_model frozen) \<and>
     codexRoutePolicySameModel (rc_effective_model candidate) (rc_effective_model frozen) \<and>
     rc_buckets candidate = rc_buckets frozen"

definition codexRoutePolicyChoiceForAccount :: "route_choice \<Rightarrow> account_key \<Rightarrow> route_choice" where
  "codexRoutePolicyChoiceForAccount frozen account = frozen\<lparr>rc_account := account\<rparr>"

fun codexRoutePolicyCapacityRank :: "capacity_state \<Rightarrow> int" where
  "codexRoutePolicyCapacityRank CapacityPositive = 1"
| "codexRoutePolicyCapacityRank CapacityUnknown = 0"
| "codexRoutePolicyCapacityRank _ = - 1"

text \<open>The loop over the views, with its \<open>unknown\<close> flag and the least percentage so far.\<close>

fun capacityLoop :: "bool \<Rightarrow> int \<Rightarrow> capacity_view list \<Rightarrow> capacity_view" where
  "capacityLoop unknown remaining [] =
     (if unknown then capacityView CapacityUnknown (- 1)
      else capacityView CapacityPositive remaining)"
| "capacityLoop unknown remaining (view # views) =
     (case cv_state view of
        CapacityZero \<Rightarrow> capacityView CapacityZero 0
      | CapacityUnknown \<Rightarrow> capacityLoop True remaining views
      | CapacityPositive \<Rightarrow>
          capacityLoop unknown
            (if cv_remaining view < remaining then cv_remaining view else remaining) views
      | CapacityStateOther _ \<Rightarrow> capacityLoop True remaining views)"

definition codexRoutePolicyCapacity :: "policy_candidate \<Rightarrow> capacity_view" where
  "codexRoutePolicyCapacity c =
     (if pc_capacity c = [] then capacityView CapacityUnknown (- 1)
      else capacityLoop False 101 (pc_capacity c))"

definition codexRoutePolicyAccountValueLess :: "policy_candidate \<Rightarrow> policy_candidate \<Rightarrow> bool" where
  "codexRoutePolicyAccountValueLess left right \<longleftrightarrow>
     (if pc_system left \<noteq> pc_system right then \<not> pc_system left
      else pc_value left < pc_value right)"

fun bucketsLess :: "capacity_bucket list \<Rightarrow> capacity_bucket list \<Rightarrow> bool" where
  "bucketsLess (a # as) (b # bs) = (if a \<noteq> b then a < b else bucketsLess as bs)"
| "bucketsLess as bs = (length as < length bs)"

definition codexRoutePolicyChoiceLess :: "route_choice \<Rightarrow> route_choice \<Rightarrow> bool" where
  "codexRoutePolicyChoiceLess left right \<longleftrightarrow>
     (if rc_effective_model left \<noteq> rc_effective_model right
      then rc_effective_model left < rc_effective_model right
      else if rc_requested_model left \<noteq> rc_requested_model right
      then rc_requested_model left < rc_requested_model right
      else bucketsLess (rc_buckets left) (rc_buckets right))"

definition hasAffinity :: "account_key \<Rightarrow> string \<Rightarrow> policy_candidate \<Rightarrow> bool" where
  "hasAffinity affinity affinityModel c \<longleftrightarrow>
     affinity \<noteq> [] \<and> rc_account (pc_choice c) = affinity \<and>
     (affinityModel = [] \<or> codexRoutePolicySameModel (rc_effective_model (pc_choice c)) affinityModel)"

definition codexRoutePolicyCandidateLess ::
  "account_key \<Rightarrow> string \<Rightarrow> policy_candidate \<Rightarrow> policy_candidate \<Rightarrow> bool" where
  "codexRoutePolicyCandidateLess affinity affinityModel left right \<longleftrightarrow>
     (if pc_quota_exhausted left \<noteq> pc_quota_exhausted right then \<not> pc_quota_exhausted left
      else if pc_system left \<noteq> pc_system right \<or> pc_value left \<noteq> pc_value right
      then codexRoutePolicyAccountValueLess left right
      else
        let leftAffinity = hasAffinity affinity affinityModel left;
            rightAffinity = hasAffinity affinity affinityModel right;
            leftView = codexRoutePolicyCapacity left;
            rightView = codexRoutePolicyCapacity right;
            leftCapacity = codexRoutePolicyCapacityRank (cv_state leftView);
            rightCapacity = codexRoutePolicyCapacityRank (cv_state rightView);
            leftNative = codexRoutePolicyNative (pc_choice left);
            rightNative = codexRoutePolicyNative (pc_choice right)
        in if leftAffinity \<noteq> rightAffinity then leftAffinity
           else if leftCapacity \<noteq> rightCapacity then leftCapacity > rightCapacity
           else if cv_state leftView = CapacityPositive \<and>
             cv_remaining leftView \<noteq> cv_remaining rightView
           then cv_remaining leftView > cv_remaining rightView
           else if leftNative \<noteq> rightNative then leftNative
           else if pc_provisional left \<noteq> pc_provisional right
           then pc_provisional left < pc_provisional right
           else if rc_account (pc_choice left) \<noteq> rc_account (pc_choice right)
           then rc_account (pc_choice left) < rc_account (pc_choice right)
           else codexRoutePolicyChoiceLess (pc_choice left) (pc_choice right))"

section \<open>Building the plan\<close>

text \<open>A continuation that is bound to an account has at most that account's best route.\<close>

definition boundCandidates :: "policy_candidate list \<Rightarrow> account_key \<Rightarrow> policy_candidate list" where
  "boundCandidates candidates bound =
     filter (\<lambda>c. rc_account (pc_choice c) = bound \<and> pc_compatible c \<and> pc_routable c) candidates"

definition boundStatus :: "policy_candidate list \<Rightarrow> account_key \<Rightarrow> plan_status" where
  "boundStatus candidates bound =
     (let resolved = list_ex (\<lambda>c. rc_account (pc_choice c) = bound) candidates;
          compatible = list_ex (\<lambda>c. rc_account (pc_choice c) = bound \<and> pc_compatible c) candidates;
          routable = list_ex (\<lambda>c. rc_account (pc_choice c) = bound \<and> pc_compatible c \<and>
            pc_routable c) candidates
      in if \<not> resolved then PlanBoundUnresolved
         else if \<not> compatible then PlanBoundIncompatible
         else if \<not> routable then PlanBoundUnroutable
         else PlanReady)"

definition boundPlan :: "policy_candidate list \<Rightarrow> policy_hints \<Rightarrow> route_plan" where
  "boundPlan candidates hints =
     (case sortBy (codexRoutePolicyCandidateLess [] []) (boundCandidates candidates (ph_bound hints)) of
        [] \<Rightarrow> emptyPlan (boundStatus candidates (ph_bound hints))
      | best # _ \<Rightarrow> (emptyPlan (boundStatus candidates (ph_bound hints)))
          \<lparr>rp_choices := [pc_choice best],
           rp_default := (if ph_default hints = ph_bound hints then ph_bound hints else [])\<rparr>)"

definition codexRoutePolicyAffinity ::
  "policy_candidate list \<Rightarrow> policy_hints \<Rightarrow> account_key \<times> string \<times> plan_status" where
  "codexRoutePolicyAffinity candidates hints =
     (if ph_affinity_account hints = [] then ([], [], PlanReady)
      else
        let present = filter (\<lambda>c. rc_account (pc_choice c) = ph_affinity_account hints) candidates;
            modelled = filter (\<lambda>c. \<not> (ph_affinity_model hints \<noteq> [] \<and>
              \<not> codexRoutePolicySameModel (rc_effective_model (pc_choice c))
                (ph_affinity_model hints))) present;
            compatible = filter pc_compatible modelled;
            routable = filter pc_routable compatible;
            nonzero = filter (\<lambda>c. cv_state (codexRoutePolicyCapacity c) \<noteq> CapacityZero) routable
        in if present = [] then ([], [], PlanAffinityUnresolved)
           else if modelled = [] then ([], [], PlanReady)
           else if compatible = [] then ([], [], PlanAffinityIncompatible)
           else if routable = [] then ([], [], PlanAffinityUnroutable)
           else if nonzero = [] then ([], [], PlanReady)
           else (ph_affinity_account hints, ph_affinity_model hints, PlanReady))"

definition eligibleCandidate :: "policy_candidate \<Rightarrow> bool" where
  "eligibleCandidate c \<longleftrightarrow>
     \<not> (rc_account (pc_choice c) = [] \<or> \<not> pc_compatible c \<or> \<not> pc_routable c \<or>
        cv_state (codexRoutePolicyCapacity c) = CapacityZero)"

text \<open>
  The loop over the sorted candidates: one choice per account, each with the models and
  buckets of the first. \<open>planned\<close> is the set of accounts already in the plan.
\<close>

fun planChoices :: "route_choice \<Rightarrow> account_key list \<Rightarrow> policy_candidate list \<Rightarrow> route_choice list"
  where
  "planChoices frozen planned [] = []"
| "planChoices frozen planned (c # cs) =
     (if \<not> codexRoutePolicyCompatibleWithFrozen (pc_choice c) frozen \<or>
        rc_account (pc_choice c) \<in> set planned
      then planChoices frozen planned cs
      else codexRoutePolicyChoiceForAccount frozen (rc_account (pc_choice c)) #
        planChoices frozen (rc_account (pc_choice c) # planned) cs)"

definition eligibleSorted ::
  "policy_candidate list \<Rightarrow> account_key \<Rightarrow> string \<Rightarrow> policy_candidate list" where
  "eligibleSorted candidates affinity affinityModel =
     sortBy (codexRoutePolicyCandidateLess affinity affinityModel)
       (filter eligibleCandidate candidates)"

definition frozenChoice :: "policy_candidate list \<Rightarrow> route_choice option" where
  "frozenChoice eligible = (case eligible of [] \<Rightarrow> None | c # _ \<Rightarrow> Some (pc_choice c))"

definition eligibleChoices :: "policy_candidate list \<Rightarrow> route_choice list" where
  "eligibleChoices eligible =
     (case frozenChoice eligible of None \<Rightarrow> [] | Some frozen \<Rightarrow> planChoices frozen [] eligible)"

text \<open>
  The configured default closes the plan as its last choice where it is not in it yet, on
  the frozen models when there are any, whatever its capacity.
\<close>

definition defaultMatches :: "route_choice option \<Rightarrow> policy_candidate \<Rightarrow> bool" where
  "defaultMatches frozen c \<longleftrightarrow>
     \<not> (\<not> pc_compatible c \<or> (case frozen of None \<Rightarrow> False
        | Some f \<Rightarrow> \<not> codexRoutePolicyCompatibleWithFrozen (pc_choice c) f))"

definition defaultCandidates ::
  "policy_candidate list \<Rightarrow> account_key \<Rightarrow> route_choice option \<Rightarrow> policy_candidate list" where
  "defaultCandidates candidates dflt frozen =
     filter (\<lambda>c. rc_account (pc_choice c) = dflt \<and> defaultMatches frozen c \<and> pc_routable c)
       candidates"

definition appendDefault ::
  "policy_candidate list \<Rightarrow> account_key \<Rightarrow> route_choice option \<Rightarrow> route_choice list \<Rightarrow>
   route_choice list \<times> u32 \<times> plan_status" where
  "appendDefault candidates dflt frozen choices =
     (if dflt = [] then (choices, 0, PlanDefaultMissing)
      else
        let resolved = filter (\<lambda>c. rc_account (pc_choice c) = dflt) candidates;
            compatible = filter (defaultMatches frozen) resolved
        in if list_ex (\<lambda>c. rc_account c = dflt) choices then (choices, 0, PlanReady)
           else
             (case sortBy (codexRoutePolicyCandidateLess [] [])
                (defaultCandidates candidates dflt frozen) of
                best # _ \<Rightarrow>
                  let choices' = choices @ [case frozen of
                        Some f \<Rightarrow> codexRoutePolicyChoiceForAccount f (rc_account (pc_choice best))
                      | None \<Rightarrow> pc_choice best]
                  in (choices', word_of_nat (length choices'), PlanReady)
              | [] \<Rightarrow> (choices, 0,
                  if resolved = [] then PlanDefaultUnresolved
                  else if compatible = [] then PlanDefaultIncompatible
                  else PlanDefaultUnroutable)))"

definition freePlan :: "policy_candidate list \<Rightarrow> policy_hints \<Rightarrow> account_key \<Rightarrow> string \<Rightarrow> route_plan"
  where
  "freePlan candidates hints affinity affinityModel =
     (let eligible = eligibleSorted candidates affinity affinityModel;
          (choices, ordinal, status) =
            appendDefault candidates (ph_default hints) (frozenChoice eligible)
              (eligibleChoices eligible)
      in \<lparr>rp_choices = choices,
          rp_default = (if list_ex (\<lambda>c. rc_account c = ph_default hints) choices
            then ph_default hints else []),
          rp_default_ordinal = ordinal, rp_status = status\<rparr>)"

text \<open>\<open>BuildCodexRoutePlan\<close>; \<open>ctxErr\<close> is what the context's \<open>Err\<close> returns.\<close>

definition BuildCodexRoutePlan ::
  "string option \<Rightarrow> policy_candidate list \<Rightarrow> policy_hints \<Rightarrow> route_plan \<times> policy_error option"
  where
  "BuildCodexRoutePlan ctxErr candidates hints =
     (case ctxErr of
        Some cause \<Rightarrow>
          (emptyPlan PlanCanceled, Some \<lparr>pe_status = PlanCanceled, pe_cause = Some cause\<rparr>)
      | None \<Rightarrow>
          if list_ex (\<lambda>c. \<not> codexRoutePolicyCandidateValid c) candidates
          then (emptyPlan PlanInvalidCandidate,
            Some \<lparr>pe_status = PlanInvalidCandidate, pe_cause = None\<rparr>)
          else if ph_bound hints \<noteq> [] then (boundPlan candidates hints, None)
          else
            (case codexRoutePolicyAffinity candidates hints of
               (affinity, affinityModel, status) \<Rightarrow>
                 if status \<noteq> PlanReady
                 then (emptyPlan status, planTerminalError (emptyPlan status))
                 else (freePlan candidates hints affinity affinityModel, None)))"

section \<open>The order of candidates\<close>

lemma sameModel_refl [simp]: "codexRoutePolicySameModel a a"
  by (simp add: codexRoutePolicySameModel_def equalFold_def)

lemma sameModel_sym: "codexRoutePolicySameModel a b \<Longrightarrow> codexRoutePolicySameModel b a"
  by (simp add: codexRoutePolicySameModel_def equalFold_def)

lemma sameModel_trans:
  "codexRoutePolicySameModel a b \<Longrightarrow> codexRoutePolicySameModel b c \<Longrightarrow> codexRoutePolicySameModel a c"
  by (simp add: codexRoutePolicySameModel_def equalFold_def)

lemma compatibleWithFrozen_refl [simp]: "codexRoutePolicyCompatibleWithFrozen c c"
  by (simp add: codexRoutePolicyCompatibleWithFrozen_def)

lemma bucketsLess_lexorder: "bucketsLess as bs \<longleftrightarrow> as < bs"
proof (induction as arbitrary: bs)
  case Nil
  then show ?case by (cases bs) auto
next
  case (Cons a as)
  then show ?case by (cases bs) auto
qed

lemma less_prod_if:
  "((a :: 'a::linorder, b :: 'b::linorder) < (c, d)) \<longleftrightarrow> (if a \<noteq> c then a < c else b < d)"
  by (auto simp: less_prod_simp)

lemma less_bool_if: "a \<noteq> b \<Longrightarrow> (a :: bool) < b \<longleftrightarrow> \<not> a"
  by auto

lemma capacityRank_positive:
  "codexRoutePolicyCapacityRank s = codexRoutePolicyCapacityRank s' \<Longrightarrow>
   s = CapacityPositive \<longleftrightarrow> s' = CapacityPositive"
  by (cases s; cases s') auto

text \<open>The comparison is lexicographic over twelve keys, the last four of which are the choice.\<close>

definition candidateKeys :: "account_key \<Rightarrow> string \<Rightarrow> policy_candidate \<Rightarrow>
    bool \<times> bool \<times> u32 \<times> bool \<times> int \<times> int \<times> bool \<times> int \<times> string \<times> string \<times> string \<times> string list"
  where
  "candidateKeys aff model c =
     (pc_quota_exhausted c, pc_system c, pc_value c, \<not> hasAffinity aff model c,
      - codexRoutePolicyCapacityRank (cv_state (codexRoutePolicyCapacity c)),
      (if cv_state (codexRoutePolicyCapacity c) = CapacityPositive
       then - cv_remaining (codexRoutePolicyCapacity c) else 0),
      \<not> codexRoutePolicyNative (pc_choice c), pc_provisional c,
      rc_account (pc_choice c), rc_effective_model (pc_choice c),
      rc_requested_model (pc_choice c), rc_buckets (pc_choice c))"

lemma candidateLess_keys:
  "codexRoutePolicyCandidateLess aff model l r \<longleftrightarrow> candidateKeys aff model l < candidateKeys aff model r"
proof -
  have "codexRoutePolicyCapacityRank (cv_state (codexRoutePolicyCapacity l)) =
      codexRoutePolicyCapacityRank (cv_state (codexRoutePolicyCapacity r)) \<Longrightarrow>
    cv_state (codexRoutePolicyCapacity l) = CapacityPositive \<longleftrightarrow>
    cv_state (codexRoutePolicyCapacity r) = CapacityPositive"
    by (rule capacityRank_positive)
  then show ?thesis
    unfolding codexRoutePolicyCandidateLess_def candidateKeys_def Let_def less_prod_if
      codexRoutePolicyAccountValueLess_def codexRoutePolicyChoiceLess_def bucketsLess_lexorder
    by (simp add: less_bool_if)
qed

interpretation candidateOrder: comparison "codexRoutePolicyCandidateLess aff model"
  for aff model
  using comparison_key [of "candidateKeys aff model"] by (simp add: candidateLess_keys [abs_def])

lemma candidateLess_equivalent:
  assumes "\<not> codexRoutePolicyCandidateLess aff model a b"
    and "\<not> codexRoutePolicyCandidateLess aff model b a"
  shows "pc_choice a = pc_choice b"
proof -
  from assms have "candidateKeys aff model a = candidateKeys aff model b"
    by (simp add: candidateLess_keys)
  then show ?thesis by (simp add: candidateKeys_def)
qed

section \<open>The plan\<close>

lemma planChoices_sound:
  assumes "c \<in> set (planChoices frozen planned cs)"
  shows "\<exists>x \<in> set cs. codexRoutePolicyCompatibleWithFrozen (pc_choice x) frozen \<and>
    c = codexRoutePolicyChoiceForAccount frozen (rc_account (pc_choice x))"
  using assms by (induction frozen planned cs rule: planChoices.induct) (auto split: if_splits)

lemma planChoices_distinct:
  "distinct (map rc_account (planChoices frozen planned cs)) \<and>
   set (map rc_account (planChoices frozen planned cs)) \<inter> set planned = {}"
proof (induction frozen planned cs rule: planChoices.induct)
  case (1 frozen planned)
  then show ?case by simp
next
  case (2 frozen planned c cs)
  then show ?case
    by (cases "\<not> codexRoutePolicyCompatibleWithFrozen (pc_choice c) frozen \<or>
        rc_account (pc_choice c) \<in> set planned")
      (auto simp: codexRoutePolicyChoiceForAccount_def)
qed

lemma planChoices_complete:
  "x \<in> set cs \<Longrightarrow> codexRoutePolicyCompatibleWithFrozen (pc_choice x) frozen \<Longrightarrow>
   rc_account (pc_choice x) \<in> set planned \<union> rc_account ` set (planChoices frozen planned cs)"
proof (induction frozen planned cs rule: planChoices.induct)
  case (1 frozen planned)
  then show ?case by simp
next
  case (2 frozen planned c cs)
  then show ?case
    by (cases "\<not> codexRoutePolicyCompatibleWithFrozen (pc_choice c) frozen \<or>
        rc_account (pc_choice c) \<in> set planned")
      (auto simp: codexRoutePolicyChoiceForAccount_def)
qed

lemma planChoices_cong:
  "map pc_choice cs = map pc_choice cs' \<Longrightarrow>
   planChoices frozen planned cs = planChoices frozen planned cs'"
proof (induction frozen planned cs arbitrary: cs' rule: planChoices.induct)
  case (1 frozen planned)
  then show ?case by simp
next
  case (2 frozen planned c cs)
  then obtain d ds where "cs' = d # ds" "pc_choice c = pc_choice d"
    "map pc_choice cs = map pc_choice ds" by (cases cs') auto
  with 2 show ?case by simp
qed

lemma set_eligibleSorted [simp]:
  "set (eligibleSorted candidates aff model) = {c \<in> set candidates. eligibleCandidate c}"
  by (auto simp: eligibleSorted_def)

lemma eligibleChoices_head:
  "eligible \<noteq> [] \<Longrightarrow> \<exists>rest. eligibleChoices eligible = pc_choice (hd eligible) # rest"
  by (cases eligible)
    (auto simp: eligibleChoices_def frozenChoice_def codexRoutePolicyChoiceForAccount_def)

lemma eligibleChoices_Nil_iff: "eligibleChoices eligible = [] \<longleftrightarrow> eligible = []"
  using eligibleChoices_head [of eligible]
  by (cases "eligible = []") (auto simp: eligibleChoices_def frozenChoice_def)

lemma eligibleChoices_distinct: "distinct (map rc_account (eligibleChoices eligible))"
  using planChoices_distinct [of _ "[]" eligible]
  by (auto simp: eligibleChoices_def split: option.split)

lemma eligibleChoices_sound:
  assumes "c \<in> set (eligibleChoices eligible)"
  shows "\<exists>x \<in> set eligible.
    codexRoutePolicyCompatibleWithFrozen (pc_choice x) (pc_choice (hd eligible)) \<and>
    c = codexRoutePolicyChoiceForAccount (pc_choice (hd eligible)) (rc_account (pc_choice x))"
proof (cases eligible)
  case Nil
  with assms show ?thesis by (simp add: eligibleChoices_def frozenChoice_def)
next
  case (Cons x xs)
  with assms have "c \<in> set (planChoices (pc_choice x) [] eligible)"
    by (simp add: eligibleChoices_def frozenChoice_def)
  from planChoices_sound [OF this] Cons show ?thesis by simp
qed

text \<open>What \<open>appendDefault\<close> does: nothing, or one last choice for the default account.\<close>

lemma appendDefault_cases:
  assumes "appendDefault candidates dflt frozen choices = (choices', ordinal, status)"
  obtains
    (keep) "choices' = choices" "ordinal = 0"
      "status = PlanReady \<longleftrightarrow> dflt \<noteq> [] \<and> dflt \<in> rc_account ` set choices"
  | (add) best where "best \<in> set candidates" "rc_account (pc_choice best) = dflt"
      "dflt \<noteq> []" "dflt \<notin> rc_account ` set choices" "pc_compatible best" "pc_routable best"
      "case frozen of None \<Rightarrow> True | Some f \<Rightarrow> codexRoutePolicyCompatibleWithFrozen (pc_choice best) f"
      "choices' = choices @ [case frozen of None \<Rightarrow> pc_choice best
         | Some f \<Rightarrow> codexRoutePolicyChoiceForAccount f dflt]"
      "ordinal = word_of_nat (Suc (length choices))" "status = PlanReady"
proof (cases "dflt = [] \<or> dflt \<in> rc_account ` set choices")
  case True
  with assms keep show thesis
    by (auto simp: appendDefault_def Let_def list_ex_iff split: if_splits list.splits)
next
  case False
  then have absent: "dflt \<noteq> []" "\<not> list_ex (\<lambda>c. rc_account c = dflt) choices"
    by (auto simp: list_ex_iff)
  show thesis
  proof (cases "sortBy (codexRoutePolicyCandidateLess [] [])
      (defaultCandidates candidates dflt frozen)")
    case Nil
    with assms absent have "choices' = choices" "ordinal = 0" "status \<noteq> PlanReady"
      by (auto simp: appendDefault_def Let_def split: if_splits)
    with False keep show thesis by blast
  next
    case (Cons best rest)
    then have best: "best \<in> set (defaultCandidates candidates dflt frozen)"
      by (metis list.set_intros(1) set_sortBy)
    then have "rc_account (pc_choice best) = dflt" by (simp add: defaultCandidates_def)
    with assms absent Cons have
      "choices' = choices @ [case frozen of None \<Rightarrow> pc_choice best
         | Some f \<Rightarrow> codexRoutePolicyChoiceForAccount f dflt]"
      "ordinal = word_of_nat (Suc (length choices))" "status = PlanReady"
      by (auto simp: appendDefault_def Let_def)
    with False best show thesis
      by (intro add [of best])
        (auto simp: defaultCandidates_def defaultMatches_def split: option.splits)
  qed
qed

lemma frozenChoice_hd: "eligible \<noteq> [] \<Longrightarrow> frozenChoice eligible = Some (pc_choice (hd eligible))"
  by (cases eligible) (auto simp: frozenChoice_def)

lemma build_success_cases:
  assumes "BuildCodexRoutePlan ctxErr candidates hints = (plan, None)"
  obtains
    (bound) "ph_bound hints \<noteq> []" "plan = boundPlan candidates hints"
  | (free) aff model where "ph_bound hints = []"
      "codexRoutePolicyAffinity candidates hints = (aff, model, PlanReady)"
      "plan = freePlan candidates hints aff model"
  using assms
  by (auto simp: BuildCodexRoutePlan_def planTerminalError_def emptyPlan_def
    split: option.splits if_splits prod.splits)

lemma boundPlan_cases:
  obtains
    (none) "rp_choices (boundPlan candidates hints) = []"
      "boundCandidates candidates (ph_bound hints) = []"
  | (one) best where "best \<in> set (boundCandidates candidates (ph_bound hints))"
      "rp_choices (boundPlan candidates hints) = [pc_choice best]"
      "\<forall>x \<in> set (boundCandidates candidates (ph_bound hints)).
         \<not> codexRoutePolicyCandidateLess [] [] x best"
proof (cases "sortBy (codexRoutePolicyCandidateLess [] []) (boundCandidates candidates (ph_bound hints))")
  case Nil
  with none show thesis by (simp add: boundPlan_def emptyPlan_def)
next
  case (Cons best rest)
  then have "best \<in> set (boundCandidates candidates (ph_bound hints))"
    by (metis list.set_intros(1) set_sortBy)
  with Cons candidateOrder.sortBy_head_minimal [OF Cons] one show thesis
    by (simp add: boundPlan_def)
qed

lemma boundPlan_fields [simp]:
  "rp_status (boundPlan candidates hints) = boundStatus candidates (ph_bound hints)"
  "rp_default_ordinal (boundPlan candidates hints) = 0"
  by (simp_all add: boundPlan_def emptyPlan_def split: list.splits)


text \<open>A free plan is the choices of the sorted candidates and at most one default at the end.\<close>

lemma freePlan_cases:
  fixes candidates hints aff model
  defines "eligible \<equiv> eligibleSorted candidates aff model"
  defines "plan \<equiv> freePlan candidates hints aff model"
  obtains
    (keep) "rp_choices plan = eligibleChoices eligible" "rp_default_ordinal plan = 0"
      "rp_status plan = PlanReady \<longleftrightarrow> ph_default hints \<noteq> [] \<and>
         ph_default hints \<in> rc_account ` set (rp_choices plan)"
  | (add) best where "best \<in> set candidates" "rc_account (pc_choice best) = ph_default hints"
      "ph_default hints \<noteq> []" "ph_default hints \<notin> rc_account ` set (eligibleChoices eligible)"
      "pc_compatible best" "pc_routable best"
      "case frozenChoice eligible of None \<Rightarrow> True
       | Some f \<Rightarrow> codexRoutePolicyCompatibleWithFrozen (pc_choice best) f"
      "rp_choices plan = eligibleChoices eligible @ [case frozenChoice eligible of
         None \<Rightarrow> pc_choice best | Some f \<Rightarrow> codexRoutePolicyChoiceForAccount f (ph_default hints)]"
      "rp_default_ordinal plan = word_of_nat (length (rp_choices plan))"
      "rp_status plan = PlanReady"
proof -
  obtain choices ordinal status where ap:
    "appendDefault candidates (ph_default hints) (frozenChoice eligible) (eligibleChoices eligible) =
      (choices, ordinal, status)"
    by (cases "appendDefault candidates (ph_default hints) (frozenChoice eligible)
      (eligibleChoices eligible)")
  then have plan: "rp_choices plan = choices" "rp_default_ordinal plan = ordinal"
      "rp_status plan = status"
    by (simp_all add: plan_def freePlan_def eligible_def Let_def)
  from ap show thesis
  proof (cases rule: appendDefault_cases)
    case keep
    with plan that(1) show thesis by simp
  next
    case (add best)
    with plan that(2) [of best] show thesis by simp
  qed
qed

lemma freePlan_default:
  "rp_default (freePlan candidates hints aff model) =
     (if ph_default hints \<in> rc_account ` set (rp_choices (freePlan candidates hints aff model))
      then ph_default hints else [])"
  by (auto simp: freePlan_def Let_def list_ex_iff image_iff split: prod.splits)

section \<open>Properties of the plan\<close>

text \<open>
  C19. Every attempt of a plan is on its own account, and all attempts share one requested
  model, one effective model and one list of capacity buckets: a fallback changes the
  account and nothing else.
\<close>

theorem route_plan_fallbacks_change_only_account:
  assumes "BuildCodexRoutePlan ctxErr candidates hints = (plan, None)"
  shows "distinct (map rc_account (rp_choices plan)) \<and>
    (\<forall>c \<in> set (rp_choices plan). c = (hd (rp_choices plan))\<lparr>rc_account := rc_account c\<rparr>)"
  using assms
proof (cases rule: build_success_cases)
  case bound
  then show ?thesis by (cases rule: boundPlan_cases [of candidates hints]) auto
next
  case (free aff model)
  let ?el = "eligibleSorted candidates aff model"
  have sound: "c = (pc_choice (hd ?el))\<lparr>rc_account := rc_account c\<rparr>"
    if "c \<in> set (eligibleChoices ?el)" for c
    using eligibleChoices_sound [OF that] by (auto simp: codexRoutePolicyChoiceForAccount_def)
  have head: "hd (eligibleChoices ?el) = pc_choice (hd ?el)" if "?el \<noteq> []"
    using eligibleChoices_head [OF that] by auto
  have empty: "eligibleChoices ?el = []" "frozenChoice ?el = None" if "?el = []"
    using that by (simp_all add: eligibleChoices_def frozenChoice_def)
  note distinct = eligibleChoices_distinct [of ?el]
  show ?thesis
  proof (cases rule: freePlan_cases [of candidates hints aff model])
    case keep
    with free distinct sound head empty show ?thesis by (cases "?el = []") auto
  next
    case (add best)
    show ?thesis
    proof (cases "?el = []")
      case True
      with add free empty show ?thesis by simp
    next
      case False
      with head have "hd (eligibleChoices ?el @ xs) = pc_choice (hd ?el)" for xs
        by (simp add: eligibleChoices_Nil_iff)
      with add free distinct sound frozenChoice_hd [OF False] show ?thesis
        by (auto simp: codexRoutePolicyChoiceForAccount_def)
    qed
  qed
qed

text \<open>What every attempt rests on.\<close>

lemma plan_attempt_admitted:
  assumes "BuildCodexRoutePlan ctxErr candidates hints = (plan, None)"
    and "c \<in> set (rp_choices plan)"
  shows "\<exists>x \<in> set candidates. rc_account (pc_choice x) = rc_account c \<and>
    pc_compatible x \<and> pc_routable x \<and> codexRoutePolicyCompatibleWithFrozen (pc_choice x) c \<and>
    (cv_state (codexRoutePolicyCapacity x) \<noteq> CapacityZero \<or> rc_account c = ph_bound hints \<or>
     rc_account c = ph_default hints \<and> c = last (rp_choices plan) \<and>
     rp_default_ordinal plan = word_of_nat (length (rp_choices plan)))"
  using assms(1)
proof (cases rule: build_success_cases)
  case bound
  with assms(2) show ?thesis
    by (cases rule: boundPlan_cases [of candidates hints]) (auto simp: boundCandidates_def)
next
  case (free aff model)
  let ?el = "eligibleSorted candidates aff model"
  have eligible: ?thesis if c: "c \<in> set (eligibleChoices ?el)"
  proof -
    from eligibleChoices_sound [OF c] obtain x where "x \<in> set ?el"
      "codexRoutePolicyCompatibleWithFrozen (pc_choice x) (pc_choice (hd ?el))"
      "c = codexRoutePolicyChoiceForAccount (pc_choice (hd ?el)) (rc_account (pc_choice x))"
      by blast
    then show ?thesis
      by (intro bexI [of _ x]) (auto simp: eligibleCandidate_def
        codexRoutePolicyCompatibleWithFrozen_def codexRoutePolicyChoiceForAccount_def)
  qed
  show ?thesis
  proof (cases rule: freePlan_cases [of candidates hints aff model])
    case keep
    with free eligible assms(2) show ?thesis by simp
  next
    case (add best)
    show ?thesis
    proof (cases "c \<in> set (eligibleChoices ?el)")
      case True
      then show ?thesis by (rule eligible)
    next
      case False
      with add free assms(2) show ?thesis
        by (intro bexI [of _ best]) (auto simp: codexRoutePolicyCompatibleWithFrozen_def
          codexRoutePolicyChoiceForAccount_def split: option.splits)
    qed
  qed
qed

text \<open>
  C17. Every attempt rests on a candidate that is compatible, routable and on the attempt's
  models and buckets. A candidate whose capacity is known to be zero is attempted only for
  a continuation bound to its account, or as the configured default, appended last with
  its position recorded.
\<close>

theorem route_plan_attempts_admitted:
  assumes "BuildCodexRoutePlan ctxErr candidates hints = (plan, None)"
    and "c \<in> set (rp_choices plan)"
  shows "\<exists>x \<in> set candidates. rc_account (pc_choice x) = rc_account c \<and>
    pc_compatible x \<and> pc_routable x \<and> codexRoutePolicyCompatibleWithFrozen (pc_choice x) c \<and>
    (cv_state (codexRoutePolicyCapacity x) \<noteq> CapacityZero \<or> rc_account c = ph_bound hints \<or>
     rc_account c = ph_default hints \<and> c = last (rp_choices plan) \<and>
     rp_default_ordinal plan = word_of_nat (length (rp_choices plan)))"
  by (rule plan_attempt_admitted [OF assms])

text \<open>
  C20. The plan is a function of the set of candidates: presenting the same candidates in
  another order, as iterating a Go map does, builds the same plan and the same error.
\<close>

theorem route_plan_order_independent:
  assumes "mset candidates = mset candidates'"
  shows "BuildCodexRoutePlan ctxErr candidates hints = BuildCodexRoutePlan ctxErr candidates' hints"
proof -
  have sets: "set candidates = set candidates'" by (metis assms set_mset_mset)
  have filt: "mset (filter P candidates) = mset (filter P candidates')" for P
    by (simp add: assms mset_filter)
  have empty: "filter P candidates = [] \<longleftrightarrow> filter P candidates' = []" for P
    by (simp add: filter_empty_conv sets)
  have sorted: "map pc_choice (sortBy (codexRoutePolicyCandidateLess aff model) (filter P candidates)) =
      map pc_choice (sortBy (codexRoutePolicyCandidateLess aff model) (filter P candidates'))"
    for aff model P
    by (rule candidateOrder.sortBy_permutation_map [OF filt]) (rule candidateLess_equivalent)
  have head: "map pc_choice xs = map pc_choice ys \<Longrightarrow>
      (case xs of [] \<Rightarrow> z | best # _ \<Rightarrow> f (pc_choice best)) =
      (case ys of [] \<Rightarrow> z | best # _ \<Rightarrow> f (pc_choice best))"
    for xs ys and z :: 'z and f by (cases xs; cases ys) auto
  have any: "list_ex P candidates = list_ex P candidates'" for P
    by (simp add: list_ex_iff sets)
  have bound: "boundPlan candidates hints = boundPlan candidates' hints"
    unfolding boundPlan_def boundStatus_def any boundCandidates_def
    by (rule head [OF sorted])
  have aff: "codexRoutePolicyAffinity candidates hints = codexRoutePolicyAffinity candidates' hints"
    by (simp only: codexRoutePolicyAffinity_def Let_def filter_filter filter_empty_conv set_filter sets)
  have free: "freePlan candidates hints aff model = freePlan candidates' hints aff model" for aff model
  proof -
    let ?el = "eligibleSorted candidates aff model" and ?el' = "eligibleSorted candidates' aff model"
    have el: "map pc_choice ?el = map pc_choice ?el'"
      unfolding eligibleSorted_def by (rule sorted)
    then have frozen: "frozenChoice ?el = frozenChoice ?el'"
      by (cases ?el; cases ?el') (auto simp: frozenChoice_def)
    have choices: "eligibleChoices ?el = eligibleChoices ?el'"
      unfolding eligibleChoices_def frozen by (simp only: planChoices_cong [OF el])
    have "appendDefault candidates d f cs = appendDefault candidates' d f cs" for d f cs
    proof -
      have "map pc_choice (sortBy (codexRoutePolicyCandidateLess [] []) (defaultCandidates candidates d f)) =
          map pc_choice (sortBy (codexRoutePolicyCandidateLess [] []) (defaultCandidates candidates' d f))"
        unfolding defaultCandidates_def by (rule sorted)
      then show ?thesis
        by (cases "sortBy (codexRoutePolicyCandidateLess [] []) (defaultCandidates candidates d f)";
            cases "sortBy (codexRoutePolicyCandidateLess [] []) (defaultCandidates candidates' d f)")
          (auto simp: appendDefault_def Let_def filter_empty_conv sets split: option.split)
    qed
    then show ?thesis by (simp add: freePlan_def Let_def frozen choices)
  qed
  show ?thesis
    by (simp only: BuildCodexRoutePlan_def any bound aff free)
qed


lemma eligible_least:
  assumes "eligibleSorted candidates aff model = best # rest"
    and "x \<in> set candidates" "eligibleCandidate x"
  shows "\<not> codexRoutePolicyCandidateLess aff model x best"
  using assms candidateOrder.sortBy_head_minimal [of aff model "filter eligibleCandidate candidates" best rest]
  by (simp add: eligibleSorted_def)

text \<open>
  The first attempt of an unbound plan is the best eligible candidate: no eligible one
  precedes it. So an account whose included quota is exhausted leads only when every
  eligible one is exhausted, and among those with quota left the system account leads only
  when every eligible one is a system account.
\<close>

theorem route_plan_first_choice:
  assumes "ph_bound hints = []"
    and "BuildCodexRoutePlan None candidates hints = (plan, None)"
    and "x \<in> set candidates" "eligibleCandidate x"
  shows "\<exists>best \<in> set candidates. eligibleCandidate best \<and>
    hd (rp_choices plan) = pc_choice best \<and>
    (case codexRoutePolicyAffinity candidates hints of (aff, model, _) \<Rightarrow>
       \<not> codexRoutePolicyCandidateLess aff model x best) \<and>
    (pc_quota_exhausted best \<longrightarrow> pc_quota_exhausted x) \<and>
    (pc_system best \<and> pc_quota_exhausted x = pc_quota_exhausted best \<longrightarrow> pc_system x)"
proof -
  from assms(2,1) obtain aff model where
    aff: "codexRoutePolicyAffinity candidates hints = (aff, model, PlanReady)"
    and plan: "plan = freePlan candidates hints aff model"
    by (cases rule: build_success_cases) auto
  let ?el = "eligibleSorted candidates aff model"
  from assms(3,4) have "x \<in> set ?el" by simp
  then obtain best rest where el: "?el = best # rest" by (cases ?el) auto
  then have best: "best \<in> set candidates" "eligibleCandidate best"
    using set_eligibleSorted [of candidates aff model] by auto
  have least: "\<not> codexRoutePolicyCandidateLess aff model x best"
    by (rule eligible_least [OF el assms(3,4)])
  from eligibleChoices_head [of ?el] el obtain cs where
    "eligibleChoices ?el = pc_choice best # cs" by auto
  then have "hd (rp_choices plan) = pc_choice best"
    using plan by (cases rule: freePlan_cases [of candidates hints aff model]) auto
  with best least aff show ?thesis
    by (intro bexI [of _ best])
      (auto simp: codexRoutePolicyCandidateLess_def codexRoutePolicyAccountValueLess_def
        split: if_splits)
qed

text \<open>
  Nothing usable is left out: every eligible candidate on the plan's models and buckets
  has its account among the attempts. With a default configured the plan is ready exactly
  when the default is among them, and then it is recorded as the plan's default.
\<close>

theorem route_plan_complete:
  assumes "ph_bound hints = []"
    and "BuildCodexRoutePlan None candidates hints = (plan, None)"
  shows "(\<forall>x \<in> set candidates. eligibleCandidate x \<longrightarrow>
      codexRoutePolicyCompatibleWithFrozen (pc_choice x) (hd (rp_choices plan)) \<longrightarrow>
      rc_account (pc_choice x) \<in> rc_account ` set (rp_choices plan)) \<and>
    (rp_status plan = PlanReady \<longleftrightarrow> ph_default hints \<noteq> [] \<and>
      ph_default hints \<in> rc_account ` set (rp_choices plan)) \<and>
    rp_default plan = (if rp_status plan = PlanReady then ph_default hints else [])"
proof -
  from assms(2,1) obtain aff model where plan: "plan = freePlan candidates hints aff model"
    by (cases rule: build_success_cases) auto
  let ?el = "eligibleSorted candidates aff model"
  have ready: "rp_status plan = PlanReady \<longleftrightarrow> ph_default hints \<noteq> [] \<and>
      ph_default hints \<in> rc_account ` set (rp_choices plan)"
    using plan by (cases rule: freePlan_cases [of candidates hints aff model])
      (auto simp: codexRoutePolicyChoiceForAccount_def split: option.splits)
  have "rc_account (pc_choice x) \<in> rc_account ` set (rp_choices plan)"
    if x: "x \<in> set candidates" "eligibleCandidate x"
      and same: "codexRoutePolicyCompatibleWithFrozen (pc_choice x) (hd (rp_choices plan))" for x
  proof -
    from x have "x \<in> set ?el" by simp
    then have ne: "?el \<noteq> []" by (metis empty_iff empty_set)
    then have head: "hd (eligibleChoices ?el @ cs) = pc_choice (hd ?el)" for cs
      using eligibleChoices_head [OF ne] by auto
    obtain cs where choices: "rp_choices plan = eligibleChoices ?el @ cs"
    proof (cases rule: freePlan_cases [of candidates hints aff model])
      case keep
      with plan that [of "[]"] show ?thesis by simp
    next
      case (add best)
      with plan that show ?thesis by blast
    qed
    with head have "hd (rp_choices plan) = pc_choice (hd ?el)" by simp
    with same have "codexRoutePolicyCompatibleWithFrozen (pc_choice x) (pc_choice (hd ?el))" by simp
    from planChoices_complete [OF \<open>x \<in> set ?el\<close> this, of "[]"] choices
    show ?thesis by (auto simp: eligibleChoices_def frozenChoice_hd [OF ne])
  qed
  with ready show ?thesis
    unfolding plan freePlan_default by auto
qed

section \<open>A request with three accounts\<close>

text \<open>
  Concrete candidates on which the properties above are evaluated: an account with quota
  left, the system account, and a default account without capacity.
\<close>

definition sampleCandidate :: "string \<Rightarrow> bool \<Rightarrow> capacity_view \<Rightarrow> policy_candidate" where
  "sampleCandidate account sys view =
     \<lparr>pc_choice = \<lparr>rc_account = account, rc_requested_model = ''gpt-5[1m]'',
        rc_effective_model = ''gpt-5'', rc_buckets = [''base'']\<rparr>,
      pc_value = 1, pc_system = sys, pc_quota_exhausted = False, pc_capacity = [view],
      pc_compatible = True, pc_routable = True, pc_provisional = 0\<rparr>"

definition sampleCandidates :: "policy_candidate list" where
  "sampleCandidates =
     [sampleCandidate ''sys'' True (capacityView CapacityPositive 90),
      sampleCandidate ''dflt'' False (capacityView CapacityZero 0),
      sampleCandidate ''acct'' False (capacityView CapacityPositive 50)]"

definition sampleHints :: "account_key \<Rightarrow> policy_hints" where
  "sampleHints bound = \<lparr>ph_affinity_account = [], ph_affinity_model = [], ph_default = ''dflt'',
     ph_bound = bound\<rparr>"

lemma samplePlan:
  "snd (BuildCodexRoutePlan None sampleCandidates (sampleHints [])) = None"
  "map rc_account (rp_choices (fst (BuildCodexRoutePlan None sampleCandidates (sampleHints [])))) =
     [''acct'', ''sys'', ''dflt'']"
  "snd (BuildCodexRoutePlan None sampleCandidates (sampleHints ''sys'')) = None"
  by code_simp+

lemma sampleBuilt: "BuildCodexRoutePlan None sampleCandidates (sampleHints []) =
    (fst (BuildCodexRoutePlan None sampleCandidates (sampleHints [])), None)"
  by (simp add: prod_eq_iff samplePlan(1))


lemma sampleDefaultCandidate:
  "hd (tl sampleCandidates) \<in> set sampleCandidates" "\<not> eligibleCandidate (hd (tl sampleCandidates))"
  "hd sampleCandidates \<in> set sampleCandidates" "eligibleCandidate (hd sampleCandidates)"
  by code_simp+

theorem route_plan_fallbacks_change_only_account_witness:
  "let plan = fst (BuildCodexRoutePlan None sampleCandidates (sampleHints []))
   in length (rp_choices plan) = 3 \<and> distinct (map rc_account (rp_choices plan)) \<and>
     (\<forall>c \<in> set (rp_choices plan). c = (hd (rp_choices plan))\<lparr>rc_account := rc_account c\<rparr>)"
  using route_plan_fallbacks_change_only_account [OF sampleBuilt]
    arg_cong [OF samplePlan(2), of length] by (simp add: Let_def)

theorem route_plan_attempts_admitted_witness:
  "let plan = fst (BuildCodexRoutePlan None sampleCandidates (sampleHints []))
   in \<exists>x \<in> set sampleCandidates. rc_account (pc_choice x) = rc_account (last (rp_choices plan)) \<and>
     pc_compatible x \<and> pc_routable x"
proof -
  have "rp_choices (fst (BuildCodexRoutePlan None sampleCandidates (sampleHints []))) \<noteq> []"
    using samplePlan(2) by auto
  from route_plan_attempts_admitted [OF sampleBuilt last_in_set [OF this]]
  show ?thesis unfolding Let_def by blast
qed

theorem route_plan_order_independent_witness:
  "BuildCodexRoutePlan None (rev sampleCandidates) (sampleHints []) =
     BuildCodexRoutePlan None sampleCandidates (sampleHints []) \<and>
   rev sampleCandidates \<noteq> sampleCandidates"
proof
  show "BuildCodexRoutePlan None (rev sampleCandidates) (sampleHints []) =
     BuildCodexRoutePlan None sampleCandidates (sampleHints [])"
    by (rule route_plan_order_independent) simp
  show "rev sampleCandidates \<noteq> sampleCandidates" by code_simp
qed


theorem route_plan_first_choice_witness:
  "\<exists>best \<in> set sampleCandidates. eligibleCandidate best \<and>
     hd (rp_choices (fst (BuildCodexRoutePlan None sampleCandidates (sampleHints [])))) = pc_choice best"
  using route_plan_first_choice [OF _ sampleBuilt sampleDefaultCandidate(3,4)]
  by (auto simp: sampleHints_def)

theorem route_plan_complete_witness:
  "rp_status (fst (BuildCodexRoutePlan None sampleCandidates (sampleHints []))) = PlanReady"
proof -
  have "''dflt'' \<in> rc_account ` set (rp_choices (fst (BuildCodexRoutePlan None sampleCandidates (sampleHints []))))"
    using arg_cong [OF samplePlan(2), of set] by simp
  then show ?thesis
    using route_plan_complete [OF _ sampleBuilt] by (simp add: sampleHints_def)
qed

end
