(* ===== verification/Digest.thy ===== *)
theory Digest
  imports Prelude
begin

text \<open>
  Persisted digests: unpadded URL-safe base64 of 32 bytes, with the checks of
  \<open>codex_lease_v2.go\<close> (\<open>validCodexLeaseDigest\<close>, \<open>constantTimeCodexLeaseDigestEqual\<close>,
  \<open>validCodexLeaseSHA256\<close>) and the digests of lanes, names and attempt plans. SHA-256, the
  HMAC under the store's key and the JSON encoder are parameters, collected in a record.
\<close>

section \<open>Unpadded URL-safe base64\<close>

type_synonym bytes = "nat list"

definition base64Alphabet :: string where
  "base64Alphabet = ''ABCDEFGHIJKLMNOPQRSTUVWXYZabcdefghijklmnopqrstuvwxyz0123456789-_''"

definition sextetChar :: "nat \<Rightarrow> char" where
  "sextetChar n = base64Alphabet ! n"

definition charSextet :: "char \<Rightarrow> nat option" where
  "charSextet c = findIndex (\<lambda>x. x = c) base64Alphabet"

fun packSextets :: "bytes \<Rightarrow> nat list" where
  "packSextets [] = []"
| "packSextets [a] = [a div 4, a mod 4 * 16]"
| "packSextets [a, b] = [a div 4, a mod 4 * 16 + b div 16, b mod 16 * 4]"
| "packSextets (a # b # c # rest) =
     a div 4 # (a mod 4 * 16 + b div 16) # (b mod 16 * 4 + c div 64) # c mod 64 # packSextets rest"

text \<open>
  The decoder of the library accepts nonzero trailing bits and skips line breaks; a single
  left-over character is an error.
\<close>

fun unpackSextets :: "nat list \<Rightarrow> bytes option" where
  "unpackSextets [] = Some []"
| "unpackSextets [p] = None"
| "unpackSextets [p, q] = Some [p * 4 + q div 16]"
| "unpackSextets [p, q, r] = Some [p * 4 + q div 16, q mod 16 * 16 + r div 4]"
| "unpackSextets (p # q # r # s # rest) =
     map_option (\<lambda>bs. (p * 4 + q div 16) # (q mod 16 * 16 + r div 4) # (r mod 4 * 64 + s) # bs)
       (unpackSextets rest)"

fun charSextets :: "string \<Rightarrow> nat list option" where
  "charSextets [] = Some []"
| "charSextets (c # cs) =
     (case charSextet c of None \<Rightarrow> None | Some n \<Rightarrow> map_option ((#) n) (charSextets cs))"

definition isLineBreak :: "char \<Rightarrow> bool" where
  "isLineBreak c \<longleftrightarrow> c = CHR 0x0A \<or> c = CHR 0x0D"

definition rawURLEncode :: "bytes \<Rightarrow> string" where
  "rawURLEncode bs = map sextetChar (packSextets bs)"

definition rawURLDecode :: "string \<Rightarrow> bytes option" where
  "rawURLDecode s = Option.bind (charSextets (filter (\<lambda>c. \<not> isLineBreak c) s)) unpackSextets"

section \<open>Digest checks\<close>

definition sha256Size :: nat where "sha256Size = 32"

definition validCodexLeaseDigest :: "string \<Rightarrow> bool" where
  "validCodexLeaseDigest value \<longleftrightarrow> length value = 43 \<and>
     (case rawURLDecode value of None \<Rightarrow> False
      | Some decoded \<Rightarrow> length decoded = sha256Size \<and> rawURLEncode decoded = value)"

definition constantTimeCodexLeaseDigestEqual :: "string \<Rightarrow> string \<Rightarrow> bool" where
  "constantTimeCodexLeaseDigestEqual left right \<longleftrightarrow>
     (case (rawURLDecode left, rawURLDecode right) of
        (Some l, Some r) \<Rightarrow> length l = sha256Size \<and> length r = sha256Size \<and> l = r
      | _ \<Rightarrow> False)"

definition decodeCanonicalCodexLeaseMAC :: "string \<Rightarrow> bytes option" where
  "decodeCanonicalCodexLeaseMAC value =
     (case rawURLDecode value of None \<Rightarrow> None
      | Some decoded \<Rightarrow>
          if length decoded = sha256Size \<and> rawURLEncode decoded = value then Some decoded else None)"

definition sameCodexLeaseOptionalDigest :: "string \<Rightarrow> string \<Rightarrow> bool" where
  "sameCodexLeaseOptionalDigest left right \<longleftrightarrow>
     (if left = [] \<or> right = [] then left = right
      else constantTimeCodexLeaseDigestEqual left right)"

definition isLowerHexByte :: "char \<Rightarrow> bool" where
  "isLowerHexByte c = (c \<in> set ''0123456789abcdef'')"

definition validCodexLeaseSHA256 :: "string \<Rightarrow> bool" where
  "validCodexLeaseSHA256 value \<longleftrightarrow> length value = 64 \<and> list_all isLowerHexByte value"

section \<open>Round trips\<close>

lemma below_64: "n < 64 \<Longrightarrow> n \<in> set [0..<64]"
  by (simp only: set_upt atLeastLessThan_iff le0 simp_thms)

lemma sextet_roundtrip: "n < 64 \<Longrightarrow> charSextet (sextetChar n) = Some n"
proof -
  have "\<forall>n \<in> set [0..<64]. charSextet (sextetChar n) = Some n" by code_simp
  then show "n < 64 \<Longrightarrow> ?thesis" using below_64 by blast
qed

lemma sextetChar_not_break: "n < 64 \<Longrightarrow> \<not> isLineBreak (sextetChar n)"
proof -
  have "\<forall>n \<in> set [0..<64]. \<not> isLineBreak (sextetChar n)" by code_simp
  then show "n < 64 \<Longrightarrow> ?thesis" using below_64 by blast
qed

lemma packSextets_bound: "\<forall>b \<in> set bs. b < 256 \<Longrightarrow> \<forall>n \<in> set (packSextets bs). n < 64"
  by (induction bs rule: packSextets.induct) auto

lemma sextet_split:
  assumes "q < (m::nat)"
  shows "(p * m + q) div m = p" "(p * m + q) mod m = q"
  using assms by auto

lemma unpack_pack: "\<forall>b \<in> set bs. b < 256 \<Longrightarrow> unpackSextets (packSextets bs) = Some bs"
proof (induction bs rule: packSextets.induct)
  case (3 a b)
  then have "b div 16 < 16" by auto
  then show ?case by (simp add: sextet_split)
next
  case (4 a b c rest)
  then have "b div 16 < 16" "c div 64 < 4" by auto
  with 4 show ?case by (simp add: sextet_split)
qed simp_all

lemma charSextets_map: "\<forall>n \<in> set ns. n < 64 \<Longrightarrow> charSextets (map sextetChar ns) = Some ns"
  by (induction ns) (auto simp: sextet_roundtrip)

lemma rawURL_roundtrip:
  assumes "\<forall>b \<in> set bs. b < 256"
  shows "rawURLDecode (rawURLEncode bs) = Some bs"
proof -
  note bound = packSextets_bound [OF assms]
  then have "filter (\<lambda>c. \<not> isLineBreak c) (map sextetChar (packSextets bs)) =
      map sextetChar (packSextets bs)"
    by (auto simp: filter_id_conv sextetChar_not_break)
  with bound assms show ?thesis
    by (simp add: rawURLDecode_def rawURLEncode_def charSextets_map unpack_pack)
qed

lemma length_packSextets: "length (packSextets bs) = (4 * length bs + 2) div 3"
  by (induction bs rule: packSextets.induct) simp_all

lemma charSextets_bound: "charSextets s = Some ns \<Longrightarrow> \<forall>n \<in> set ns. n < 64"
proof (induction s arbitrary: ns)
  case (Cons c s)
  then obtain n ms where "charSextet c = Some n" "charSextets s = Some ms" "ns = n # ms"
    by (auto split: option.splits)
  moreover from this(1) have "n < length base64Alphabet"
    unfolding charSextet_def using findIndex_SomeD by blast
  moreover have "length base64Alphabet = 64" by code_simp
  ultimately show ?case using Cons.IH by simp
qed simp

lemma unpackSextets_bound:
  "\<forall>n \<in> set ns. n < 64 \<Longrightarrow> unpackSextets ns = Some bs \<Longrightarrow> \<forall>b \<in> set bs. b < 256"
proof (induction ns arbitrary: bs rule: unpackSextets.induct)
  case (3 p q)
  then have "q div 16 < 4" by auto
  with 3 show ?case by auto
next
  case (4 p q r)
  then have "q div 16 < 4" "r div 4 < 16" "q mod 16 < 16" by auto
  with 4 show ?case by auto
next
  case (5 p q r s rest)
  then have "q div 16 < 4" "r div 4 < 16" "q mod 16 < 16" "r mod 4 < 4" by auto
  with 5 show ?case by auto
qed auto

lemma rawURLDecode_bound: "rawURLDecode s = Some bs \<Longrightarrow> \<forall>b \<in> set bs. b < 256"
  unfolding rawURLDecode_def bind_eq_Some_conv
  using charSextets_bound unpackSextets_bound by blast

lemma validDigest_decode:
  assumes "validCodexLeaseDigest s"
  obtains bs where "rawURLDecode s = Some bs" "length bs = sha256Size" "s = rawURLEncode bs"
  using assms by (auto simp: validCodexLeaseDigest_def split: option.splits)

lemma digestEqual_decode:
  "constantTimeCodexLeaseDigestEqual a b \<longleftrightarrow>
     (\<exists>bs. length bs = sha256Size \<and> rawURLDecode a = Some bs \<and> rawURLDecode b = Some bs)"
  by (auto simp: constantTimeCodexLeaseDigestEqual_def split: option.splits)

lemma digestEqual_sym: "constantTimeCodexLeaseDigestEqual a b = constantTimeCodexLeaseDigestEqual b a"
  by (auto simp: digestEqual_decode)

lemma digestEqual_trans:
  "constantTimeCodexLeaseDigestEqual a b \<Longrightarrow> constantTimeCodexLeaseDigestEqual b c \<Longrightarrow>
   constantTimeCodexLeaseDigestEqual a c"
  by (auto simp: digestEqual_decode)

lemma digestEqual_Nil [simp]:
  "\<not> constantTimeCodexLeaseDigestEqual [] b" "\<not> constantTimeCodexLeaseDigestEqual b []"
  by (auto simp: digestEqual_decode rawURLDecode_def sha256Size_def)

lemma digestEqual_refl: "validCodexLeaseDigest s \<Longrightarrow> constantTimeCodexLeaseDigestEqual s s"
  unfolding digestEqual_decode by (metis validDigest_decode)

lemma digestEqual_valid_iff:
  assumes "validCodexLeaseDigest a" "validCodexLeaseDigest b"
  shows "constantTimeCodexLeaseDigestEqual a b \<longleftrightarrow> a = b"
proof -
  from assms obtain x y where "rawURLDecode a = Some x" "a = rawURLEncode x"
    "rawURLDecode b = Some y" "b = rawURLEncode y" "length x = sha256Size"
    by (metis validDigest_decode)
  then show ?thesis unfolding digestEqual_decode by (metis option.inject)
qed

text \<open>
  A string is accepted as a digest exactly when it is the canonical encoding of 32
  bytes: encoding 32 bytes always gives an accepted string that decodes to them again, and
  no other string is accepted.
\<close>

theorem digest_valid_iff_encoding:
  "validCodexLeaseDigest s \<longleftrightarrow>
     (\<exists>bs. length bs = 32 \<and> list_all (\<lambda>b. b < 256) bs \<and> s = rawURLEncode bs \<and>
        rawURLDecode s = Some bs)"
proof
  assume "validCodexLeaseDigest s"
  then obtain bs where "rawURLDecode s = Some bs" "length bs = sha256Size" "s = rawURLEncode bs"
    by (rule validDigest_decode)
  then show "\<exists>bs. length bs = 32 \<and> list_all (\<lambda>b. b < 256) bs \<and> s = rawURLEncode bs \<and>
      rawURLDecode s = Some bs"
    using rawURLDecode_bound by (auto simp: sha256Size_def list_all_iff)
next
  assume "\<exists>bs. length bs = 32 \<and> list_all (\<lambda>b. b < 256) bs \<and> s = rawURLEncode bs \<and>
    rawURLDecode s = Some bs"
  then show "validCodexLeaseDigest s"
    by (auto simp: validCodexLeaseDigest_def sha256Size_def rawURLEncode_def length_packSextets)
qed

section \<open>Digests of names and lanes\<close>

text \<open>
  The hash functions of one store: SHA-256, and the HMAC-SHA-256 under the store's key. Both
  return 32 bytes.
\<close>

record crypto =
  cr_sha256 :: "string \<Rightarrow> bytes"
  cr_hmac :: "string \<Rightarrow> bytes"

definition zeroByte :: char where "zeroByte = CHR 0x00"

definition storeHash :: "crypto \<Rightarrow> string \<Rightarrow> string \<Rightarrow> string" where
  "storeHash cr domain value = rawURLEncode (cr_hmac cr (domain @ [zeroByte] @ value))"

definition hashOptional :: "crypto \<Rightarrow> string \<Rightarrow> string \<Rightarrow> string" where
  "hashOptional cr domain value = (if value = [] then [] else storeHash cr domain value)"

definition codexJournalLaneDigest :: "crypto \<Rightarrow> string \<Rightarrow> string \<Rightarrow> string \<Rightarrow> string" where
  "codexJournalLaneDigest cr sessionHash threadHash namespaceHash =
     rawURLEncode (cr_sha256 cr (sessionHash @ [zeroByte] @ threadHash @ [zeroByte] @ namespaceHash))"

end
