(* ===== verification/LeaseJournal.thy ===== *)
theory LeaseJournal
  imports Digest RoutePolicy
begin

text \<open>
  The data of the durable lease journal (\<open>internal/proxy/codex_lease_v2.go\<close> and the fences
  and identities of \<open>codex_lease_v2_cas.go\<close>): lanes, records with their current request and
  attempts, the envelope, the orders that make it canonical and the small readers every
  operation shares. Times are UTC or not as \<open>gotime\<close> records it; a nil slice and an empty
  one are the same list.
\<close>

section \<open>Errors\<close>

text \<open>
  The errors of the journal with the sentinel they wrap; a stale mutation names the
  component of the fence that changed, the others carry the message.
\<close>

datatype lease_error =
    ErrStaleMutation string
  | ErrInvalidMutation string
  | ErrTrustLost string
  | ErrAttemptLimit
  | ErrWriterUnavailable
  | ErrStorePoisoned string
  | ErrLegacyQuarantine
  | ErrInvalidEnvelope string
  | ErrAuthorityMismatch
  | ErrStoreIO string

section \<open>Lanes, requests and records\<close>

type_synonym request_kind = string
type_synonym compaction_phase = string

definition CodexRequestTurn :: request_kind where "CodexRequestTurn = ''turn''"
definition CodexRequestPrewarm :: request_kind where "CodexRequestPrewarm = ''prewarm''"
definition CodexRequestCompaction :: request_kind where "CodexRequestCompaction = ''compaction''"
definition CodexRequestMemory :: request_kind where "CodexRequestMemory = ''memory''"

definition CodexCompactionStandalone :: compaction_phase where
  "CodexCompactionStandalone = ''standalone_turn''"
definition CodexCompactionPreTurn :: compaction_phase where
  "CodexCompactionPreTurn = ''pre_turn''"
definition CodexCompactionMidTurn :: compaction_phase where
  "CodexCompactionMidTurn = ''mid_turn''"

definition codexLeaseJournalVersionV2 :: int where "codexLeaseJournalVersionV2 = 2"
definition codexLeaseJournalVersionV3 :: int where "codexLeaseJournalVersionV3 = 3"
definition codexLeaseHashVersion :: int where "codexLeaseHashVersion = 1"
definition CurrentCodexLeaseSchema :: int where "CurrentCodexLeaseSchema = 3"
definition compatCurrentEpoch :: int where "compatCurrentEpoch = 4"
definition CodexLeaseAttemptPolicyVersion :: u32 where "CodexLeaseAttemptPolicyVersion = 1"

definition CodexLeaseCutoverComplete :: string where "CodexLeaseCutoverComplete = ''complete''"
definition CodexLeaseCutoverLegacyQuarantine :: string where
  "CodexLeaseCutoverLegacyQuarantine = ''legacy_quarantine''"

record lease_cutover =
  cu_source_version :: int
  cu_compatibility_epoch :: int
  cu_state :: string
  cu_at :: gotime
  cu_journal_generation :: u64
  cu_authoritative_epochs :: "u64 list"
  cu_shadow_epochs :: "u64 list"
  cu_quarantine_until :: gotime
  cu_legacy_sha256 :: string
  cu_completed_at :: gotime
  cu_completion_generation :: u64
  cu_no_legacy_authority :: bool

record journal_lane =
  ln_redistribution_requested :: u64
  ln_redistribution_completed :: u64
  ln_session :: string
  ln_thread :: string
  ln_namespace :: string
  ln_generation :: u64
  ln_current_turn :: string
  ln_current_epoch :: u64
  ln_current_auth :: bool
  ln_last_turn :: string
  ln_last_epoch :: u64
  ln_last_auth :: bool
  ln_admitted_account :: string
  ln_admitted_turn :: string
  ln_admitted_epoch :: u64
  ln_admitted_auth :: bool
  ln_admission_generation :: u64
  ln_refresh_generation :: u64
  ln_admitted_at :: gotime
  ln_cache_admitted_at :: gotime
  ln_cache_model :: string
  ln_unavailable :: "string list"
  ln_exhausted :: "string list"
  ln_observed_at :: gotime

definition CodexAttemptSlotDirect :: string where "CodexAttemptSlotDirect = ''direct''"
definition CodexAttemptSlotEligibleManagedRefresh :: string where
  "CodexAttemptSlotEligibleManagedRefresh = ''eligible_managed_refresh''"

record attempt_slot =
  sl_index :: u32
  sl_account :: string
  sl_candidate :: string
  sl_kind :: string

record attempt_envelope =
  ae_policy :: u32
  ae_digest :: string
  ae_limit :: u32
  ae_slots :: "attempt_slot list"

record journal_attempt =
  at_generation :: u64
  at_revision :: u64
  at_slot :: u32
  at_state :: attempt_state
  at_created :: gotime
  at_observed :: gotime

record current_request =
  cq_redistribution :: u64
  cq_generation :: u64
  cq_kind :: request_kind
  cq_phase :: compaction_phase
  cq_model_hash :: string
  cq_permit :: string
  cq_quota_probe :: bool
  cq_effective_model :: string
  cq_buckets :: "capacity_bucket list"
  cq_envelope :: attempt_envelope
  cq_current :: u64
  cq_routing_refs :: int
  cq_attempt_refs :: int
  cq_observer_refs :: int
  cq_attempts :: "journal_attempt list"

text \<open>The Go struct embeds the current request; here it is the field \<open>jr_request\<close>.\<close>

record journal_record =
  jr_session :: string
  jr_thread :: string
  jr_namespace :: string
  jr_turn :: string
  jr_account :: string
  jr_pred_turn :: string
  jr_pred_epoch :: u64
  jr_pred_auth :: bool
  jr_correlation :: string
  jr_turn_state :: string
  jr_prev_turn_state :: string
  jr_generation :: u64
  jr_lane_generation :: u64
  jr_pred_generation :: u64
  jr_lease_generation :: u64
  jr_epoch :: u64
  jr_downstream :: u64
  jr_upstream :: u64
  jr_state :: lease_state
  jr_schema :: int
  jr_auth :: bool
  jr_extinct :: bool
  jr_request :: current_request
  jr_has_encrypted :: bool
  jr_has_anchor :: bool
  jr_has_turn_state :: bool
  jr_latch :: bool
  jr_non_migratable :: bool
  jr_prewarm :: bool
  jr_prewarm_generation :: u64
  jr_admitted :: bool
  jr_admission_generation :: u64
  jr_admission_request :: u64
  jr_admission_kind :: request_kind
  jr_admission_phase :: compaction_phase
  jr_admitted_at :: gotime
  jr_created :: gotime
  jr_observed :: gotime

record reset_event =
  ev_account :: string
  ev_event :: string
  ev_generation :: u64

record journal =
  jn_events :: "reset_event list"
  jn_version :: int
  jn_hash_version :: int
  jn_generation :: u64
  jn_invalidation :: u64
  jn_cutover :: lease_cutover
  jn_lanes :: "journal_lane list"
  jn_records :: "journal_record list"
  jn_mac :: string

definition zeroEnvelope :: attempt_envelope where
  "zeroEnvelope = \<lparr>ae_policy = 0, ae_digest = [], ae_limit = 0, ae_slots = []\<rparr>"

definition zeroAttempt :: journal_attempt where
  "zeroAttempt = \<lparr>at_generation = 0, at_revision = 0, at_slot = 0, at_state = AttemptNone,
     at_created = zeroTime, at_observed = zeroTime\<rparr>"

definition zeroRequest :: current_request where
  "zeroRequest = \<lparr>cq_redistribution = 0, cq_generation = 0, cq_kind = [], cq_phase = [],
     cq_model_hash = [], cq_permit = [], cq_quota_probe = False, cq_effective_model = [],
     cq_buckets = [], cq_envelope = zeroEnvelope, cq_current = 0, cq_routing_refs = 0,
     cq_attempt_refs = 0, cq_observer_refs = 0, cq_attempts = []\<rparr>"

definition zeroRecord :: journal_record where
  "zeroRecord = \<lparr>jr_session = [], jr_thread = [], jr_namespace = [], jr_turn = [],
     jr_account = [], jr_pred_turn = [], jr_pred_epoch = 0, jr_pred_auth = False,
     jr_correlation = [], jr_turn_state = [], jr_prev_turn_state = [], jr_generation = 0,
     jr_lane_generation = 0, jr_pred_generation = 0, jr_lease_generation = 0, jr_epoch = 0,
     jr_downstream = 0, jr_upstream = 0, jr_state = LeaseStateOther 0, jr_schema = 0,
     jr_auth = False, jr_extinct = False, jr_request = zeroRequest, jr_has_encrypted = False,
     jr_has_anchor = False, jr_has_turn_state = False, jr_latch = False,
     jr_non_migratable = False, jr_prewarm = False, jr_prewarm_generation = 0,
     jr_admitted = False, jr_admission_generation = 0, jr_admission_request = 0,
     jr_admission_kind = [], jr_admission_phase = [], jr_admitted_at = zeroTime,
     jr_created = zeroTime, jr_observed = zeroTime\<rparr>"

definition zeroLane :: journal_lane where
  "zeroLane = \<lparr>ln_redistribution_requested = 0, ln_redistribution_completed = 0,
     ln_session = [], ln_thread = [], ln_namespace = [], ln_generation = 0,
     ln_current_turn = [], ln_current_epoch = 0, ln_current_auth = False, ln_last_turn = [],
     ln_last_epoch = 0, ln_last_auth = False, ln_admitted_account = [], ln_admitted_turn = [],
     ln_admitted_epoch = 0, ln_admitted_auth = False, ln_admission_generation = 0,
     ln_refresh_generation = 0, ln_admitted_at = zeroTime, ln_cache_admitted_at = zeroTime,
     ln_cache_model = [], ln_unavailable = [], ln_exhausted = [], ln_observed_at = zeroTime\<rparr>"

section \<open>Identities\<close>

datatype record_identity =
  RecordIdentity (ri_lane: string) (ri_turn: string) (ri_epoch: u64) (ri_auth: bool)

definition zeroIdentity :: record_identity where
  "zeroIdentity = RecordIdentity [] [] 0 False"

definition codexRecordIdentityLess :: "record_identity \<Rightarrow> record_identity \<Rightarrow> bool" where
  "codexRecordIdentityLess left right \<longleftrightarrow>
     (if ri_lane left \<noteq> ri_lane right then ri_lane left < ri_lane right
      else if ri_turn left \<noteq> ri_turn right then ri_turn left < ri_turn right
      else if ri_epoch left \<noteq> ri_epoch right then ri_epoch left < ri_epoch right
      else \<not> ri_auth left \<and> ri_auth right)"

definition identityKey :: "record_identity \<Rightarrow> string \<times> string \<times> u64 \<times> bool" where
  "identityKey i = (ri_lane i, ri_turn i, ri_epoch i, ri_auth i)"

lemma identityLess_key: "codexRecordIdentityLess a b \<longleftrightarrow> identityKey a < identityKey b"
  by (auto simp: codexRecordIdentityLess_def identityKey_def less_prod_if)

lemma identityKey_inj: "identityKey a = identityKey b \<longleftrightarrow> a = b"
  by (cases a; cases b) (auto simp: identityKey_def)

instantiation record_identity :: linorder
begin

definition less_record_identity :: "record_identity \<Rightarrow> record_identity \<Rightarrow> bool" where
  "a < b \<longleftrightarrow> codexRecordIdentityLess a b"

definition less_eq_record_identity :: "record_identity \<Rightarrow> record_identity \<Rightarrow> bool" where
  "a \<le> b \<longleftrightarrow> codexRecordIdentityLess a b \<or> a = b"

instance
  by standard
    (auto simp: less_record_identity_def less_eq_record_identity_def identityLess_key
      identityKey_inj [symmetric])

end

definition Identity :: "crypto \<Rightarrow> journal_record \<Rightarrow> record_identity" where
  "Identity cr r = RecordIdentity
     (codexJournalLaneDigest cr (jr_session r) (jr_thread r) (jr_namespace r))
     (jr_turn r) (jr_epoch r) (jr_auth r)"

definition laneDigestOf :: "crypto \<Rightarrow> journal_lane \<Rightarrow> string" where
  "laneDigestOf cr lane =
     codexJournalLaneDigest cr (ln_session lane) (ln_thread lane) (ln_namespace lane)"

definition predecessorIdentity :: "crypto \<Rightarrow> journal_record \<Rightarrow> record_identity" where
  "predecessorIdentity cr r = RecordIdentity (ri_lane (Identity cr r))
     (jr_pred_turn r) (jr_pred_epoch r) (jr_pred_auth r)"

definition codexLaneTupleIdentity :: "crypto \<Rightarrow> journal_lane \<Rightarrow> bool \<Rightarrow> record_identity" where
  "codexLaneTupleIdentity cr lane current =
     (let turn = (if current then ln_current_turn lane else ln_last_turn lane);
          epoch = (if current then ln_current_epoch lane else ln_last_epoch lane);
          auth = (if current then ln_current_auth lane else ln_last_auth lane)
      in if turn = [] then zeroIdentity
         else RecordIdentity (laneDigestOf cr lane) turn epoch auth)"

section \<open>Fences and mutations\<close>

record attempt_fence =
  af_request :: u64
  af_generation :: u64
  af_revision :: u64

record record_fence =
  rf_record :: record_identity
  rf_revision :: u64
  rf_lease :: u64
  rf_request :: u64
  rf_current :: u64
  rf_attempts :: "attempt_fence list"

record generation_fence =
  gf_journal :: u64
  gf_lane :: u64
  gf_current :: record_identity
  gf_last :: record_identity
  gf_records :: "record_fence list"

record lane_mutation =
  lm_lane :: "journal_lane option"
  lm_begin :: "record_identity option"
  lm_latch :: "record_identity option"
  lm_unavailable :: "record_identity option"
  lm_exhausted :: "record_identity option"
  lm_cycle :: "record_identity option"
  lm_upserts :: "journal_record list"
  lm_deletes :: "record_identity list"

definition zeroFence :: record_fence where
  "zeroFence = \<lparr>rf_record = zeroIdentity, rf_revision = 0, rf_lease = 0, rf_request = 0,
     rf_current = 0, rf_attempts = []\<rparr>"

section \<open>Reading requests and attempts\<close>

definition codexLeaseRecordInLane :: "journal_record \<Rightarrow> journal_lane \<Rightarrow> bool" where
  "codexLeaseRecordInLane r lane \<longleftrightarrow>
     jr_session r = ln_session lane \<and> jr_thread r = ln_thread lane \<and>
     jr_namespace r = ln_namespace lane"

definition codexLeaseLaneCurrentMatchesRecord :: "journal_lane \<Rightarrow> journal_record \<Rightarrow> bool" where
  "codexLeaseLaneCurrentMatchesRecord lane r \<longleftrightarrow>
     ln_current_turn lane = jr_turn r \<and> ln_current_epoch lane = jr_epoch r \<and>
     ln_current_auth lane = jr_auth r"

definition codexLeaseAttemptByGeneration :: "journal_attempt list \<Rightarrow> u64 \<Rightarrow> journal_attempt option"
  where
  "codexLeaseAttemptByGeneration attempts generation =
     find (\<lambda>a. at_generation a = generation) attempts"

abbreviation requestCurrentAttempt :: "current_request \<Rightarrow> journal_attempt option" where
  "requestCurrentAttempt q \<equiv> codexLeaseAttemptByGeneration (cq_attempts q) (cq_current q)"

definition codexLeaseCurrentAttemptState :: "journal_record \<Rightarrow> attempt_state" where
  "codexLeaseCurrentAttemptState r =
     (case requestCurrentAttempt (jr_request r) of None \<Rightarrow> AttemptNone | Some a \<Rightarrow> at_state a)"

definition codexLeaseAttemptTerminalForRollover :: "attempt_state \<Rightarrow> bool" where
  "codexLeaseAttemptTerminalForRollover s \<longleftrightarrow>
     s \<in> {AttemptProviderCompleted, AttemptProviderFailed, AttemptIndeterminate,
       AttemptAbandonedBeforeDispatch, AttemptAccountUnavailable}"

definition codexLeaseAttemptTerminalForRequest :: "attempt_state \<Rightarrow> bool" where
  "codexLeaseAttemptTerminalForRequest s \<longleftrightarrow>
     codexLeaseAttemptTerminalForRollover s \<or> s = AttemptAbandonedBeforeDispatch"

text \<open>The account a slot of the frozen envelope names; slots count from one.\<close>

definition slotAccount :: "attempt_envelope \<Rightarrow> u32 \<Rightarrow> string option" where
  "slotAccount env slot =
     (if slot = 0 \<or> unat slot > length (ae_slots env) then None
      else Some (sl_account (ae_slots env ! (unat slot - 1))))"

definition codexAttemptEnvelopeIsZero :: "attempt_envelope \<Rightarrow> bool" where
  "codexAttemptEnvelopeIsZero env \<longleftrightarrow>
     ae_policy env = 0 \<and> ae_digest env = [] \<and> ae_limit env = 0 \<and> ae_slots env = []"

definition codexCurrentRequestIsZero :: "current_request \<Rightarrow> bool" where
  "codexCurrentRequestIsZero q \<longleftrightarrow>
     cq_redistribution q = 0 \<and> cq_generation q = 0 \<and> cq_kind q = [] \<and> cq_phase q = [] \<and>
     cq_model_hash q = [] \<and> cq_permit q = [] \<and> \<not> cq_quota_probe q \<and> cq_effective_model q = [] \<and>
     cq_buckets q = [] \<and> codexAttemptEnvelopeIsZero (cq_envelope q) \<and> cq_current q = 0 \<and>
     cq_routing_refs q = 0 \<and> cq_attempt_refs q = 0 \<and> cq_observer_refs q = 0 \<and>
     cq_attempts q = []"

definition sameCodexAttemptEnvelope :: "attempt_envelope \<Rightarrow> attempt_envelope \<Rightarrow> bool" where
  "sameCodexAttemptEnvelope left right \<longleftrightarrow>
     ae_policy left = ae_policy right \<and> ae_digest left = ae_digest right \<and>
     ae_limit left = ae_limit right \<and> ae_slots left = ae_slots right"

definition sameCodexCurrentRequestPlan :: "current_request \<Rightarrow> current_request \<Rightarrow> bool" where
  "sameCodexCurrentRequestPlan left right \<longleftrightarrow>
     cq_redistribution left = cq_redistribution right \<and>
     cq_generation left = cq_generation right \<and> cq_kind left = cq_kind right \<and>
     cq_phase left = cq_phase right \<and>
     sameCodexLeaseOptionalDigest (cq_model_hash left) (cq_model_hash right) \<and>
     sameCodexLeaseOptionalDigest (cq_permit left) (cq_permit right) \<and>
     cq_quota_probe left = cq_quota_probe right \<and>
     cq_effective_model left = cq_effective_model right \<and>
     cq_buckets left = cq_buckets right \<and>
     sameCodexAttemptEnvelope (cq_envelope left) (cq_envelope right)"

definition sameCodexLeaseSemantics :: "journal_record \<Rightarrow> journal_record \<Rightarrow> bool" where
  "sameCodexLeaseSemantics left right \<longleftrightarrow>
     jr_account left = jr_account right \<and> jr_correlation left = jr_correlation right \<and>
     jr_turn_state left = jr_turn_state right \<and>
     jr_prev_turn_state left = jr_prev_turn_state right \<and> jr_state left = jr_state right \<and>
     cq_kind (jr_request left) = cq_kind (jr_request right) \<and>
     cq_phase (jr_request left) = cq_phase (jr_request right) \<and>
     jr_schema left = jr_schema right \<and> jr_auth left = jr_auth right \<and>
     jr_downstream left = jr_downstream right \<and> jr_upstream left = jr_upstream right \<and>
     jr_extinct left = jr_extinct right \<and>
     cq_generation (jr_request left) = cq_generation (jr_request right) \<and>
     cq_routing_refs (jr_request left) = cq_routing_refs (jr_request right) \<and>
     cq_attempt_refs (jr_request left) = cq_attempt_refs (jr_request right) \<and>
     cq_observer_refs (jr_request left) = cq_observer_refs (jr_request right) \<and>
     cq_model_hash (jr_request left) = cq_model_hash (jr_request right) \<and>
     cq_permit (jr_request left) = cq_permit (jr_request right) \<and>
     cq_quota_probe (jr_request left) = cq_quota_probe (jr_request right) \<and>
     cq_redistribution (jr_request left) = cq_redistribution (jr_request right) \<and>
     cq_effective_model (jr_request left) = cq_effective_model (jr_request right) \<and>
     cq_buckets (jr_request left) = cq_buckets (jr_request right) \<and>
     jr_has_encrypted left = jr_has_encrypted right \<and> jr_has_anchor left = jr_has_anchor right \<and>
     jr_has_turn_state left = jr_has_turn_state right \<and> jr_latch left = jr_latch right \<and>
     jr_non_migratable left = jr_non_migratable right \<and> jr_prewarm left = jr_prewarm right \<and>
     jr_prewarm_generation left = jr_prewarm_generation right \<and>
     sameCodexAttemptEnvelope (cq_envelope (jr_request left)) (cq_envelope (jr_request right))"

definition drained :: "current_request \<Rightarrow> bool" where
  "drained q \<longleftrightarrow> cq_routing_refs q = 0 \<and> cq_attempt_refs q = 0 \<and> cq_observer_refs q = 0"

section \<open>Which records can begin again\<close>

definition codexLeaseRestartableFailedHead :: "journal_record \<Rightarrow> bool" where
  "codexLeaseRestartableFailedHead r \<longleftrightarrow>
     cq_generation (jr_request r) > 0 \<and> jr_state r = LeaseFailedUnadmitted \<and> \<not> jr_admitted r \<and>
     drained (jr_request r) \<and> jr_extinct r \<and> cq_current (jr_request r) > 0 \<and>
     (codexLeaseCurrentAttemptState r = AttemptProviderFailed \<or>
      codexLeaseCurrentAttemptState r = AttemptAccountUnavailable)"

definition codexLeaseAbandonedUnadmittedHead :: "journal_record \<Rightarrow> bool" where
  "codexLeaseAbandonedUnadmittedHead r \<longleftrightarrow>
     cq_generation (jr_request r) > 0 \<and> jr_state r = LeaseProvisional \<and> \<not> jr_admitted r \<and>
     drained (jr_request r) \<and> jr_extinct r \<and> cq_current (jr_request r) > 0 \<and>
     codexLeaseCurrentAttemptState r = AttemptAbandonedBeforeDispatch"

definition codexLeaseCurrentAttemptAccountDiffersFromBinding :: "journal_record \<Rightarrow> bool" where
  "codexLeaseCurrentAttemptAccountDiffersFromBinding r \<longleftrightarrow>
     (case requestCurrentAttempt (jr_request r) of None \<Rightarrow> False
      | Some a \<Rightarrow>
         (case slotAccount (cq_envelope (jr_request r)) (at_slot a) of None \<Rightarrow> False
          | Some account \<Rightarrow> \<not> constantTimeCodexLeaseDigestEqual account (jr_account r)))"

definition codexLeaseRuntimeCanBeginRequest :: "journal_record \<Rightarrow> bool" where
  "codexLeaseRuntimeCanBeginRequest r \<longleftrightarrow>
     (if cq_generation (jr_request r) = 0
      then jr_state r = LeaseReserving \<and> codexCurrentRequestIsZero (jr_request r)
      else if jr_state r = LeaseOrphaned \<and> codexLeaseCurrentAttemptState r = AttemptIndeterminate \<and>
        codexLeaseCurrentAttemptAccountDiffersFromBinding r then False
      else if \<not> drained (jr_request r) \<or>
        \<not> codexLeaseAttemptTerminalForRequest (codexLeaseCurrentAttemptState r) then False
      else jr_state r = LeaseContinuationPending \<or> jr_state r = LeaseBoundQuiescent \<or>
        jr_state r = LeaseOrphaned \<or> codexLeaseAbandonedUnadmittedHead r \<or>
        codexLeaseRestartableFailedHead r)"

definition codexLeaseRecordRequiresAccount :: "journal_record \<Rightarrow> bool" where
  "codexLeaseRecordRequiresAccount r \<longleftrightarrow>
     (if jr_has_turn_state r then True
      else if \<not> jr_non_migratable r then False
      else if \<not> drained (jr_request r) \<or> \<not> jr_extinct r then True
      else codexLeaseCurrentAttemptState r \<notin> {AttemptProviderCompleted, AttemptProviderFailed,
        AttemptAbandonedBeforeDispatch, AttemptAccountUnavailable})"

definition codexLeaseRecordAllowsPortableReset :: "journal_record \<Rightarrow> bool" where
  "codexLeaseRecordAllowsPortableReset r \<longleftrightarrow>
     jr_non_migratable r \<and> \<not> codexLeaseRecordRequiresAccount r"

definition codexLeasePreTurnCompactionCanBeginTurn :: "journal_record \<Rightarrow> request_kind \<Rightarrow> bool" where
  "codexLeasePreTurnCompactionCanBeginTurn r kind \<longleftrightarrow>
     kind = CodexRequestTurn \<and> jr_admitted r \<and>
     jr_admission_kind r = CodexRequestCompaction \<and>
     jr_admission_phase r = CodexCompactionPreTurn \<and>
     jr_admission_request r = cq_generation (jr_request r) \<and>
     cq_kind (jr_request r) = CodexRequestCompaction \<and>
     cq_phase (jr_request r) = CodexCompactionPreTurn \<and>
     codexLeaseCurrentAttemptState r = AttemptProviderCompleted \<and>
     jr_extinct r \<and> codexLeaseRuntimeCanBeginRequest r"

definition codexLeaseAccountUnavailableCanBeginRequest :: "journal_record \<Rightarrow> bool" where
  "codexLeaseAccountUnavailableCanBeginRequest old \<longleftrightarrow>
     (let currentState = codexLeaseCurrentAttemptState old;
          accountUnavailable = (currentState = AttemptAccountUnavailable);
          pendingPreparedRebind = (jr_admitted old \<and> jr_state old = LeaseOrphaned \<and>
            currentState = AttemptAbandonedBeforeDispatch \<and> \<not> jr_non_migratable old \<and>
            codexLeaseCurrentAttemptAccountDiffersFromBinding old)
      in if (\<not> accountUnavailable \<and> \<not> pendingPreparedRebind) \<or> \<not> drained (jr_request old) \<or>
           \<not> jr_extinct old then False
         else if jr_admitted old then jr_state old = LeaseBoundQuiescent \<or> jr_state old = LeaseOrphaned
         else jr_state old = LeaseFailedUnadmitted \<and> codexLeaseRestartableFailedHead old)"

section \<open>Admission, affinity and lane readers\<close>

definition codexLeaseAffinityEligible :: "journal_record \<Rightarrow> bool" where
  "codexLeaseAffinityEligible r \<longleftrightarrow> jr_auth r \<and> jr_admitted r \<and>
     (if jr_admission_kind r = CodexRequestTurn then jr_admission_phase r = []
      else if jr_admission_kind r = CodexRequestCompaction
      then jr_admission_phase r = CodexCompactionStandalone \<or>
        jr_admission_phase r = CodexCompactionPreTurn
      else False)"

definition codexLeaseCurrentRequestCacheEligible :: "journal_record \<Rightarrow> bool" where
  "codexLeaseCurrentRequestCacheEligible r \<longleftrightarrow>
     (if cq_kind (jr_request r) = CodexRequestTurn then cq_phase (jr_request r) = []
      else if cq_kind (jr_request r) = CodexRequestCompaction
      then cq_phase (jr_request r) = CodexCompactionStandalone \<or>
        cq_phase (jr_request r) = CodexCompactionPreTurn
      else False)"

definition codexLaneAffinityIsZero :: "journal_lane \<Rightarrow> bool" where
  "codexLaneAffinityIsZero lane \<longleftrightarrow>
     ln_admitted_account lane = [] \<and> ln_admitted_turn lane = [] \<and> ln_admitted_epoch lane = 0 \<and>
     \<not> ln_admitted_auth lane \<and> ln_admission_generation lane = 0 \<and>
     ln_refresh_generation lane = 0 \<and> isZeroTime (ln_admitted_at lane) \<and>
     isZeroTime (ln_cache_admitted_at lane) \<and> ln_cache_model lane = []"

definition codexLaneAffinityJournalGeneration :: "journal_lane \<Rightarrow> u64" where
  "codexLaneAffinityJournalGeneration lane =
     max (ln_admission_generation lane) (ln_refresh_generation lane)"

definition copyCodexLaneAffinity :: "journal_lane \<Rightarrow> journal_lane \<Rightarrow> journal_lane" where
  "copyCodexLaneAffinity destination source = destination\<lparr>
     ln_admitted_account := ln_admitted_account source,
     ln_admitted_turn := ln_admitted_turn source,
     ln_admitted_epoch := ln_admitted_epoch source,
     ln_admitted_auth := ln_admitted_auth source,
     ln_admission_generation := ln_admission_generation source,
     ln_refresh_generation := ln_refresh_generation source,
     ln_admitted_at := ln_admitted_at source,
     ln_cache_admitted_at := ln_cache_admitted_at source,
     ln_cache_model := ln_cache_model source\<rparr>"

definition sameCodexLanePointers :: "journal_lane \<Rightarrow> journal_lane \<Rightarrow> bool" where
  "sameCodexLanePointers left right \<longleftrightarrow>
     ln_session left = ln_session right \<and> ln_thread left = ln_thread right \<and>
     ln_namespace left = ln_namespace right \<and> ln_current_turn left = ln_current_turn right \<and>
     ln_current_epoch left = ln_current_epoch right \<and>
     ln_current_auth left = ln_current_auth right \<and> ln_last_turn left = ln_last_turn right \<and>
     ln_last_epoch left = ln_last_epoch right \<and> ln_last_auth left = ln_last_auth right \<and>
     ln_unavailable left = ln_unavailable right \<and> ln_exhausted left = ln_exhausted right"

definition codexLaneRequestScopeIdentity :: "crypto \<Rightarrow> journal_lane \<Rightarrow> record_identity" where
  "codexLaneRequestScopeIdentity cr lane =
     (let current = codexLaneTupleIdentity cr lane True
      in if current \<noteq> zeroIdentity then current else codexLaneTupleIdentity cr lane False)"

definition sameCodexLaneRequestScope :: "crypto \<Rightarrow> journal_lane \<Rightarrow> journal_lane \<Rightarrow> bool" where
  "sameCodexLaneRequestScope cr left right \<longleftrightarrow>
     codexLaneRequestScopeIdentity cr left = codexLaneRequestScopeIdentity cr right"

definition codexLaneRedistributionPending :: "journal_lane \<Rightarrow> u64" where
  "codexLaneRedistributionPending lane =
     (if ln_redistribution_requested lane > ln_redistribution_completed lane
      then ln_redistribution_requested lane else 0)"

definition codexLeaseSafeRedistributionSource :: "journal_record \<Rightarrow> bool" where
  "codexLeaseSafeRedistributionSource r \<longleftrightarrow> codexLeaseRuntimeCanBeginRequest r \<and>
     (jr_admitted r \<or> codexLeaseRestartableFailedHead r \<or> codexLeaseAbandonedUnadmittedHead r)"

definition monotonicCodexLeaseTime :: "gotime \<Rightarrow> gotime \<Rightarrow> gotime" where
  "monotonicCodexLeaseTime now prior = (if before now prior then utc prior else utc now)"

lemma monotonicTime_not_before [simp]:
  "\<not> before (monotonicCodexLeaseTime now prior) prior"
  "\<not> before (monotonicCodexLeaseTime now prior) now"
  by (auto simp: monotonicCodexLeaseTime_def before_def)

section \<open>The canonical order\<close>

definition codexJournalLaneLess :: "journal_lane \<Rightarrow> journal_lane \<Rightarrow> bool" where
  "codexJournalLaneLess left right \<longleftrightarrow>
     (if ln_session left \<noteq> ln_session right then ln_session left < ln_session right
      else if ln_thread left \<noteq> ln_thread right then ln_thread left < ln_thread right
      else ln_namespace left < ln_namespace right)"

definition codexJournalRecordLess :: "journal_record \<Rightarrow> journal_record \<Rightarrow> bool" where
  "codexJournalRecordLess left right \<longleftrightarrow>
     (if jr_session left \<noteq> jr_session right then jr_session left < jr_session right
      else if jr_thread left \<noteq> jr_thread right then jr_thread left < jr_thread right
      else if jr_namespace left \<noteq> jr_namespace right then jr_namespace left < jr_namespace right
      else if jr_turn left \<noteq> jr_turn right then jr_turn left < jr_turn right
      else if jr_epoch left \<noteq> jr_epoch right then jr_epoch left < jr_epoch right
      else \<not> jr_auth left \<and> jr_auth right)"

definition laneKey :: "journal_lane \<Rightarrow> string \<times> string \<times> string" where
  "laneKey l = (ln_session l, ln_thread l, ln_namespace l)"

definition recordKey :: "journal_record \<Rightarrow> string \<times> string \<times> string \<times> string \<times> u64 \<times> bool" where
  "recordKey r = (jr_session r, jr_thread r, jr_namespace r, jr_turn r, jr_epoch r, jr_auth r)"

lemma laneLess_key: "codexJournalLaneLess a b \<longleftrightarrow> laneKey a < laneKey b"
  by (auto simp: codexJournalLaneLess_def laneKey_def less_prod_if)

lemma recordLess_key: "codexJournalRecordLess a b \<longleftrightarrow> recordKey a < recordKey b"
  by (auto simp: codexJournalRecordLess_def recordKey_def less_prod_if)

interpretation laneOrder: comparison codexJournalLaneLess
  by unfold_locales (auto simp: laneLess_key)

interpretation recordOrder: comparison codexJournalRecordLess
  by unfold_locales (auto simp: recordLess_key)

interpretation identityOrder: comparison codexRecordIdentityLess
  by unfold_locales (auto simp: identityLess_key)

definition canonicalRequest :: "current_request \<Rightarrow> current_request" where
  "canonicalRequest q = q\<lparr>
     cq_envelope := (cq_envelope q)\<lparr>ae_slots :=
       sortBy (\<lambda>a b. sl_index a < sl_index b) (ae_slots (cq_envelope q))\<rparr>,
     cq_attempts := sortBy (\<lambda>a b. at_generation a < at_generation b) (cq_attempts q),
     cq_buckets := sortBy (<) (cq_buckets q)\<rparr>"

definition canonicalLane :: "journal_lane \<Rightarrow> journal_lane" where
  "canonicalLane lane = lane\<lparr>ln_unavailable := sortBy (<) (ln_unavailable lane),
     ln_exhausted := sortBy (<) (ln_exhausted lane)\<rparr>"

definition canonicaliseCodexLeaseV2 :: "journal \<Rightarrow> journal" where
  "canonicaliseCodexLeaseV2 j = j\<lparr>
     jn_events := sortBy (\<lambda>a b. ev_account a < ev_account b) (jn_events j),
     jn_cutover := (jn_cutover j)\<lparr>
       cu_authoritative_epochs := sortBy (<) (cu_authoritative_epochs (jn_cutover j)),
       cu_shadow_epochs := sortBy (<) (cu_shadow_epochs (jn_cutover j))\<rparr>,
     jn_lanes := map canonicalLane (sortBy codexJournalLaneLess (jn_lanes j)),
     jn_records := map (\<lambda>r. r\<lparr>jr_request := canonicalRequest (jr_request r)\<rparr>)
       (sortBy codexJournalRecordLess (jn_records j))\<rparr>"

end
