(* ===== verification/LeaseAttempts.thy ===== *)
theory LeaseAttempts
  imports LeaseJournal
begin

text \<open>
  The attempts of one request (\<open>buildCodexLeaseAttemptAfterImages\<close> of
  \<open>internal/proxy/codex_lease_v2_cas.go\<close>): a caller presents the attempts it wants and the
  fences of those it touches, and the store builds the after-image. Attempts are never
  dropped, their slot is fixed, a state change needs a current fence and a legal transition,
  and at most one new attempt is appended, after the current one has ended.
\<close>

section \<open>The after-image\<close>

text \<open>The Go map by generation keeps the last of equal keys.\<close>

definition attemptByGeneration :: "journal_attempt list \<Rightarrow> u64 \<Rightarrow> journal_attempt option" where
  "attemptByGeneration old g = find (\<lambda>a. at_generation a = g) (rev old)"

definition maxAttemptGeneration :: "journal_attempt list \<Rightarrow> u64" where
  "maxAttemptGeneration old = foldl max 0 (map at_generation old)"

definition fenceByGeneration :: "attempt_fence list \<Rightarrow> u64 \<Rightarrow> attempt_fence option" where
  "fenceByGeneration fences g = find (\<lambda>f. af_generation f = g) fences"

fun checkAttemptFences :: "u64 \<Rightarrow> u64 list \<Rightarrow> attempt_fence list \<Rightarrow> lease_error + unit" where
  "checkAttemptFences requestGeneration seen [] = Inr ()"
| "checkAttemptFences requestGeneration seen (f # fs) =
     (if af_request f \<noteq> requestGeneration
      then Inl (ErrStaleMutation ''attempt_request_generation'')
      else if af_generation f \<in> set seen
      then Inl (ErrInvalidMutation ''duplicate attempt fence'')
      else checkAttemptFences requestGeneration (af_generation f # seen) fs)"

record attempt_scan =
  as_seen :: "u64 list"
  as_result :: "journal_attempt list"
  as_append :: "nat option"

definition scanAttempt ::
  "journal_attempt list \<Rightarrow> attempt_fence list \<Rightarrow> gotime \<Rightarrow> attempt_scan \<Rightarrow> journal_attempt \<Rightarrow>
   lease_error + attempt_scan" where
  "scanAttempt old fences now s input =
     (if at_generation input = 0 then
        (if as_append s \<noteq> None then Inl (ErrInvalidMutation ''more than one attempt append'')
         else Inr (s\<lparr>as_append := Some (length (as_result s)),
           as_result := as_result s @ [input]\<rparr>))
      else if at_generation input \<in> set (as_seen s)
      then Inl (ErrInvalidMutation ''duplicate attempt generation'')
      else case attemptByGeneration old (at_generation input) of
        None \<Rightarrow> Inl (ErrInvalidMutation ''explicit attempt generation is store-owned'')
      | Some previous \<Rightarrow>
          if at_slot input \<noteq> at_slot previous
          then Inl (ErrInvalidMutation ''attempt slot changed'')
          else
            let touched = fenceByGeneration fences (at_generation input);
                s' = s\<lparr>as_seen := at_generation input # as_seen s\<rparr>
            in if at_state input \<noteq> at_state previous \<and> touched = None
               then Inl (ErrInvalidMutation ''changed attempt lacks fence'')
               else if at_state input \<noteq> at_state previous \<and>
                 \<not> (at_state previous = AttemptPrepared \<and>
                    at_state input = AttemptAbandonedBeforeDispatch) \<and>
                 \<not> validCodexAttemptTransition (at_state previous) (at_state input)
               then Inl (ErrInvalidMutation ''forbidden attempt transition'')
               else (case touched of
                 None \<Rightarrow> Inr (s'\<lparr>as_result := as_result s @ [previous]\<rparr>)
               | Some fence \<Rightarrow>
                   if af_revision fence \<noteq> at_revision previous
                   then Inl (ErrStaleMutation ''attempt_revision'')
                   else if at_revision previous = MaxUint64
                   then Inl (ErrInvalidMutation ''attempt revision overflow'')
                   else Inr (s'\<lparr>as_result := as_result s @ [previous\<lparr>at_state := at_state input,
                     at_revision := at_revision previous + 1, at_observed := now\<rparr>]\<rparr>)))"

text \<open>The append: the row at the recorded index becomes the next generation.\<close>

definition appendAttempt ::
  "journal_attempt list \<Rightarrow> u64 \<Rightarrow> u64 \<Rightarrow> attempt_fence list \<Rightarrow> attempt_envelope \<Rightarrow> gotime \<Rightarrow>
   nat \<Rightarrow> journal_attempt list \<Rightarrow> lease_error + journal_attempt list \<times> u64" where
  "appendAttempt old oldCurrent desiredCurrent fences env now i result =
     (let maxGeneration = maxAttemptGeneration old;
          appended = maxGeneration + 1
      in if (case fenceByGeneration fences 0 of None \<Rightarrow> True | Some f \<Rightarrow> af_revision f \<noteq> 0)
         then Inl (ErrInvalidMutation ''attempt append lacks absent fence'')
         else if at_state (result ! i) \<noteq> AttemptPrepared
         then Inl (ErrInvalidMutation ''appended attempt must be prepared'')
         else if maxGeneration = MaxUint64
         then Inl (ErrInvalidMutation ''attempt generation overflow'')
         else if ae_limit env = 0 \<or> length old \<ge> unat (ae_limit env) then Inl ErrAttemptLimit
         else if old \<noteq> [] \<and>
           (case codexLeaseAttemptByGeneration result oldCurrent of None \<Rightarrow> True
            | Some p \<Rightarrow> \<not> codexLeaseAttemptTerminalForRollover (at_state p))
         then Inl (ErrInvalidMutation ''previous current attempt is not terminal'')
         else if desiredCurrent \<noteq> 0
         then Inl (ErrInvalidMutation ''appended attempt requires store-owned current generation'')
         else Inr (result[i := (result ! i)\<lparr>at_generation := appended, at_revision := 1,
             at_created := now, at_observed := now\<rparr>], appended))"

definition placeAppend ::
  "journal_attempt list \<Rightarrow> u64 \<Rightarrow> u64 \<Rightarrow> attempt_fence list \<Rightarrow> attempt_envelope \<Rightarrow> gotime \<Rightarrow>
   attempt_scan \<Rightarrow> lease_error + journal_attempt list \<times> u64 \<times> u64" where
  "placeAppend old oldCurrent desiredCurrent fences env now s =
     (case as_append s of
        None \<Rightarrow> Inr (as_result s, desiredCurrent, 0)
      | Some i \<Rightarrow>
          andThen (appendAttempt old oldCurrent desiredCurrent fences env now i (as_result s))
            (\<lambda>(result, appended). Inr (result, appended, appended)))"

definition checkFenceTargets :: "journal_attempt list \<Rightarrow> attempt_fence list \<Rightarrow> lease_error + unit"
  where
  "checkFenceTargets old fences =
     forE (\<lambda>f. if af_generation f = 0 then Inr ()
       else case attemptByGeneration old (af_generation f) of
         None \<Rightarrow> failIf (af_revision f \<noteq> 0) (ErrStaleMutation ''attempt_revision'')
       | Some previous \<Rightarrow>
           if af_revision f = 0 then Inl (ErrStaleMutation ''attempt_absence'')
           else failIf (at_revision previous \<noteq> af_revision f) (ErrStaleMutation ''attempt_revision''))
       fences"

definition buildCodexLeaseAttemptAfterImages ::
  "journal_attempt list \<Rightarrow> u64 \<Rightarrow> journal_attempt list \<Rightarrow> u64 \<Rightarrow> attempt_fence list \<Rightarrow> u64 \<Rightarrow>
   attempt_envelope \<Rightarrow> gotime \<Rightarrow> lease_error + journal_attempt list \<times> u64 \<times> u64" where
  "buildCodexLeaseAttemptAfterImages old oldCurrent desired desiredCurrent fences
     requestGeneration env now =
     andThen (failIf (\<exists>a \<in> set old. at_generation a = 0)
       (ErrTrustLost ''stored zero attempt generation'')) (\<lambda>_.
     andThen (checkAttemptFences requestGeneration [] fences) (\<lambda>_.
     andThen (foldE (scanAttempt old fences now)
       \<lparr>as_seen = [], as_result = [], as_append = None\<rparr> desired) (\<lambda>s.
     andThen (failIf (\<exists>a \<in> set old. at_generation a \<notin> set (as_seen s))
       (ErrInvalidMutation ''attempt deletion by omission'')) (\<lambda>_.
     andThen (placeAppend old oldCurrent desiredCurrent fences env now s)
       (\<lambda>(result, current, appended).
     andThen (checkFenceTargets old fences) (\<lambda>_.
     andThen (failIf (current \<noteq> 0 \<and> codexLeaseAttemptByGeneration result current = None)
       (ErrInvalidMutation ''current attempt is absent'')) (\<lambda>_.
     Inr (sortBy (\<lambda>a b. at_generation a < at_generation b) result, current, appended))))))))"

section \<open>What the after-image keeps\<close>

text \<open>How one attempt may change: not at all, or once, one revision up, by a legal move.\<close>

definition attempt_step :: "gotime \<Rightarrow> journal_attempt \<Rightarrow> journal_attempt \<Rightarrow> bool" where
  "attempt_step now a b \<longleftrightarrow> b = a \<or>
     (at_revision a \<noteq> MaxUint64 \<and>
      b = a\<lparr>at_state := at_state b, at_revision := at_revision a + 1, at_observed := now\<rparr> \<and>
      (at_state b = at_state a \<or>
       at_state a = AttemptPrepared \<and> at_state b = AttemptAbandonedBeforeDispatch \<or>
       validCodexAttemptTransition (at_state a) (at_state b)))"

lemma attempt_step_fields:
  assumes "attempt_step now a b"
  shows "at_generation b = at_generation a" "at_slot b = at_slot a" "at_created b = at_created a"
  using assms unfolding attempt_step_def
  by (metis journal_attempt.select_convs journal_attempt.surjective journal_attempt.update_convs)+

lemma attemptByGeneration_distinct:
  assumes "distinct (map at_generation old)"
  shows "attemptByGeneration old g = Some a \<longleftrightarrow> a \<in> set old \<and> at_generation a = g"
proof
  assume "attemptByGeneration old g = Some a"
  then show "a \<in> set old \<and> at_generation a = g"
    unfolding attemptByGeneration_def by (auto dest: find_Some_mem)
next
  assume a: "a \<in> set old \<and> at_generation a = g"
  then have "attemptByGeneration old g \<noteq> None"
    by (auto simp: attemptByGeneration_def find_None_iff)
  then obtain b where b: "attemptByGeneration old g = Some b" by auto
  then have "b \<in> set old" "at_generation b = g"
    unfolding attemptByGeneration_def by (auto dest: find_Some_mem)
  with a assms have "b = a" by (metis distinct_map inj_onD)
  with b show "attemptByGeneration old g = Some a" by simp
qed

lemma maxAttemptGeneration_upper: "a \<in> set old \<Longrightarrow> at_generation a \<le> maxAttemptGeneration old"
proof -
  have "\<forall>g \<in> set gs \<union> {m}. g \<le> foldl max m gs" for gs and m :: u64
  proof (induction gs arbitrary: m)
    case (Cons g gs)
    have "m \<le> max m g" "g \<le> max m g" by simp_all
    with Cons.IH [of "max m g"] show ?case by (auto intro: order_trans)
  qed simp
  from this [of "map at_generation old" 0] show "a \<in> set old \<Longrightarrow> ?thesis"
    by (auto simp: maxAttemptGeneration_def)
qed

text \<open>The scan keeps one row per seen generation, in step with the old row.\<close>

definition scan_invariant :: "journal_attempt list \<Rightarrow> gotime \<Rightarrow> attempt_scan \<Rightarrow> bool" where
  "scan_invariant old now s \<longleftrightarrow>
     (case as_append s of
        None \<Rightarrow> \<forall>b \<in> set (as_result s). at_generation b \<noteq> 0
      | Some i \<Rightarrow> i < length (as_result s) \<and> at_generation (as_result s ! i) = 0) \<and>
     distinct (map at_generation (as_result s)) \<and>
     (\<forall>b \<in> set (as_result s). at_generation b \<noteq> 0 \<longrightarrow>
        at_generation b \<in> set (as_seen s) \<and> (\<exists>a \<in> set old. attempt_step now a b)) \<and>
     (\<forall>g \<in> set (as_seen s). g \<noteq> 0 \<and> (\<exists>b \<in> set (as_result s). at_generation b = g))"


lemma scanAttempt_cases:
  assumes "scanAttempt old fences now s input = Inr s'"
  obtains (append) "at_generation input = 0" "as_append s = None"
      "s' = s\<lparr>as_append := Some (length (as_result s)), as_result := as_result s @ [input]\<rparr>"
  | (row) previous b where "at_generation input \<noteq> 0" "at_generation input \<notin> set (as_seen s)"
      "attemptByGeneration old (at_generation input) = Some previous" "attempt_step now previous b"
      "s' = s\<lparr>as_seen := at_generation input # as_seen s, as_result := as_result s @ [b]\<rparr>"
      "at_state b = at_state input" "at_slot b = at_slot input"
proof (cases "at_generation input = 0")
  case True
  with assms append show thesis by (auto simp: scanAttempt_def split: if_splits)
next
  case False
  with assms obtain previous where prev: "at_generation input \<notin> set (as_seen s)"
    "attemptByGeneration old (at_generation input) = Some previous" "at_slot input = at_slot previous"
    by (auto simp: scanAttempt_def split: if_splits option.splits)
  note fixed = False prev
  show thesis
  proof (cases "fenceByGeneration fences (at_generation input)")
    case None
    with assms fixed have "at_state input = at_state previous"
      "s' = s\<lparr>as_seen := at_generation input # as_seen s, as_result := as_result s @ [previous]\<rparr>"
      by (auto simp: scanAttempt_def Let_def split: if_splits)
    then show thesis
      by (intro row [OF fixed(1-3), of previous]) (simp_all add: attempt_step_def fixed(4))
  next
    case (Some f)
    let ?b = "previous\<lparr>at_state := at_state input, at_revision := at_revision previous + 1,
      at_observed := now\<rparr>"
    from assms fixed Some have "at_revision previous \<noteq> MaxUint64"
      "s' = s\<lparr>as_seen := at_generation input # as_seen s, as_result := as_result s @ [?b]\<rparr>"
      "at_state input = at_state previous \<or>
       at_state previous = AttemptPrepared \<and> at_state input = AttemptAbandonedBeforeDispatch \<or>
       validCodexAttemptTransition (at_state previous) (at_state input)"
      by (auto simp: scanAttempt_def Let_def split: if_splits)
    then show thesis
      by (intro row [OF fixed(1-3), of ?b]) (simp_all add: attempt_step_def fixed(4))
  qed
qed

lemma scan_invariant_step:
  assumes inv: "scan_invariant old now s" and step: "scanAttempt old fences now s input = Inr s'"
    and "distinct (map at_generation old)"
  shows "scan_invariant old now s'"
  using step
proof (cases rule: scanAttempt_cases)
  case append
  with inv show ?thesis
    by (auto simp: scan_invariant_def)
next
  case (row previous b)
  from row(3) assms(3) have prev: "previous \<in> set old" "at_generation previous = at_generation input"
    by (auto simp: attemptByGeneration_distinct)
  with attempt_step_fields(1) [OF row(4)] have gen: "at_generation b = at_generation input" by simp
  have new: "at_generation b \<notin> set (map at_generation (as_result s))"
    using inv row(1,2) gen by (auto simp: scan_invariant_def)
  have s': "as_append s' = as_append s" "as_seen s' = at_generation input # as_seen s"
    "as_result s' = as_result s @ [b]" by (simp_all add: row(5))
  have "case as_append s' of None \<Rightarrow> \<forall>b \<in> set (as_result s'). at_generation b \<noteq> 0
      | Some i \<Rightarrow> i < length (as_result s') \<and> at_generation (as_result s' ! i) = 0"
    using inv row(1) gen
    by (cases "as_append s") (simp_all add: s' scan_invariant_def nth_append)
  moreover have "distinct (map at_generation (as_result s'))"
    using inv new by (simp add: s' scan_invariant_def)
  moreover have "\<forall>b \<in> set (as_result s'). at_generation b \<noteq> 0 \<longrightarrow>
      at_generation b \<in> set (as_seen s') \<and> (\<exists>a \<in> set old. attempt_step now a b)"
    using inv row(4) prev(1) gen by (auto simp: s' scan_invariant_def)
  moreover have "\<forall>g \<in> set (as_seen s'). g \<noteq> 0 \<and> (\<exists>b \<in> set (as_result s'). at_generation b = g)"
    using inv row(1) gen by (auto simp: s' scan_invariant_def)
  ultimately show ?thesis unfolding scan_invariant_def by blast
qed

lemma appendAttempt_cases:
  assumes "appendAttempt old oldCurrent desiredCurrent fences env now i result = Inr (result', appended)"
  shows "appended = maxAttemptGeneration old + 1" "maxAttemptGeneration old \<noteq> MaxUint64"
    "at_state (result ! i) = AttemptPrepared" "length old < unat (ae_limit env)" "desiredCurrent = 0"
    "result' = result[i := (result ! i)\<lparr>at_generation := appended, at_revision := 1,
       at_created := now, at_observed := now\<rparr>]"
    "old \<noteq> [] \<Longrightarrow> \<exists>p. codexLeaseAttemptByGeneration result oldCurrent = Some p \<and>
       codexLeaseAttemptTerminalForRollover (at_state p)"
  using assms by (auto simp: appendAttempt_def Let_def split: if_splits option.splits)

lemma strict_of_sorted_distinct:
  fixes key :: "'a \<Rightarrow> 'k :: linorder"
  shows "sorted_wrt (\<lambda>x y. \<not> key y < key x) xs \<Longrightarrow> distinct (map key xs) \<Longrightarrow>
    sorted_wrt (\<lambda>x y. key x < key y) xs"
proof (induction xs)
  case (Cons x xs)
  then show ?case by (auto simp: image_iff not_less intro: le_neq_trans)
qed simp

lemma sortBy_key_strict:
  fixes key :: "'a \<Rightarrow> 'k :: linorder"
  assumes "distinct (map key xs)"
  shows "sorted_wrt (\<lambda>x y. key x < key y) (sortBy (\<lambda>a b. key a < key b) xs)"
proof (rule strict_of_sorted_distinct)
  show "sorted_wrt (\<lambda>x y. \<not> key y < key x) (sortBy (\<lambda>a b. key a < key b) xs)"
    by (rule comparison.sortBy_sorted [OF comparison_key])
  have "mset (map key (sortBy (\<lambda>a b. key a < key b) xs)) = mset (map key xs)" by simp
  with assms show "distinct (map key (sortBy (\<lambda>a b. key a < key b) xs))"
    by (metis mset_eq_imp_distinct_iff)
qed

text \<open>The rows before sorting, with or without an append.\<close>

definition after_rows :: "journal_attempt list \<Rightarrow> gotime \<Rightarrow> attempt_envelope \<Rightarrow>
    journal_attempt list \<Rightarrow> u64 \<Rightarrow> bool" where
  "after_rows old now env rows appended \<longleftrightarrow>
     (\<forall>a \<in> set old. \<exists>b \<in> set rows. attempt_step now a b) \<and>
     (\<forall>b \<in> set rows. (\<exists>a \<in> set old. attempt_step now a b) \<or>
        at_generation b = appended \<and> at_state b = AttemptPrepared \<and> at_revision b = 1 \<and>
        at_created b = now \<and> (\<forall>a \<in> set old. at_generation a < appended) \<and>
        length old < unat (ae_limit env)) \<and>
     distinct (map at_generation rows)"

lemma scan_rows:
  assumes inv: "scan_invariant old now s" and dist: "distinct (map at_generation old)"
    and seen: "\<forall>a \<in> set old. at_generation a \<in> set (as_seen s)"
  shows "\<forall>a \<in> set old. \<exists>b \<in> set (as_result s). at_generation b \<noteq> 0 \<and> attempt_step now a b"
proof
  fix a assume a: "a \<in> set old"
  with seen inv obtain b where b: "b \<in> set (as_result s)" "at_generation b = at_generation a"
    "at_generation b \<noteq> 0" by (fastforce simp: scan_invariant_def)
  with inv obtain a' where a': "a' \<in> set old" "attempt_step now a' b"
    by (auto simp: scan_invariant_def)
  with b attempt_step_fields(1) [OF a'(2)] have "at_generation a' = at_generation a" by simp
  with dist a a'(1) have "a' = a" by (metis distinct_map inj_onD)
  with a' b show "\<exists>b \<in> set (as_result s). at_generation b \<noteq> 0 \<and> attempt_step now a b" by blast
qed

lemma after_rows_keep:
  assumes inv: "scan_invariant old now s" and dist: "distinct (map at_generation old)"
    and seen: "\<forall>a \<in> set old. at_generation a \<in> set (as_seen s)" and "as_append s = None"
  shows "after_rows old now env (as_result s) 0"
  using scan_rows [OF inv dist seen] inv assms(4)
  unfolding after_rows_def scan_invariant_def by auto

lemma after_rows_append:
  assumes inv: "scan_invariant old now s" and dist: "distinct (map at_generation old)"
    and seen: "\<forall>a \<in> set old. at_generation a \<in> set (as_seen s)" and i: "as_append s = Some i"
    and ap: "appendAttempt old oldCurrent desiredCurrent fences env now i (as_result s) = Inr (rows, appended)"
  shows "after_rows old now env rows appended"
proof -
  let ?rs = "as_result s"
  note ap = appendAttempt_cases [OF ap]
  define new where "new = (?rs ! i)\<lparr>at_generation := appended, at_revision := 1,
    at_created := now, at_observed := now\<rparr>"
  have rows: "rows = ?rs[i := new]" by (simp add: ap(6) new_def)
  have i_len: "i < length ?rs" and zero: "at_generation (?rs ! i) = 0"
    and distinct: "distinct (map at_generation ?rs)"
    using inv i by (auto simp: scan_invariant_def)
  have old_less: "\<forall>a \<in> set old. at_generation a < appended"
    using maxAttemptGeneration_upper u64_less_Suc [OF ap(2)] by (auto simp: ap(1) intro: le_less_trans)
  have other: "at_generation b \<noteq> 0 \<and> (\<exists>a \<in> set old. attempt_step now a b)"
    if b: "b \<in> set rows" "b \<noteq> new" for b
  proof -
    from b(1) obtain j where "j < length ?rs" "b = ?rs[i := new] ! j"
      unfolding rows by (auto simp: in_set_conv_nth)
    with b(2) i_len have j: "j < length ?rs" "j \<noteq> i" "b = ?rs ! j"
      by (auto simp: nth_list_update split: if_splits)
    have "at_generation b \<noteq> 0"
    proof
      assume "at_generation b = 0"
      with zero j have "map at_generation ?rs ! j = map at_generation ?rs ! i"
        by (simp add: i_len)
      with distinct j(1,2) i_len show False
        by (metis length_map nth_eq_iff_index_eq)
    qed
    moreover have "b \<in> set ?rs" using j by simp
    ultimately show ?thesis using inv by (auto simp: scan_invariant_def)
  qed
  have keep: "b \<in> set rows" if "b \<in> set ?rs" "at_generation b \<noteq> 0" for b
  proof -
    from that(1) obtain j where "j < length ?rs" "b = ?rs ! j" by (auto simp: in_set_conv_nth)
    moreover from this that(2) zero have "j \<noteq> i" by auto
    ultimately have "b = rows ! j" "j < length rows" by (simp_all add: rows)
    then show ?thesis by simp
  qed
  have new_row: "at_generation new = appended" "at_state new = AttemptPrepared" "at_revision new = 1"
    "at_created new = now" using ap(3) by (simp_all add: new_def)
  have "appended \<notin> set (map at_generation ?rs)"
  proof
    assume "appended \<in> set (map at_generation ?rs)"
    then obtain b where "b \<in> set ?rs" "at_generation b = appended" by auto
    moreover have "appended \<noteq> 0" using ap(1,2) u64_Suc_neq_zero by metis
    ultimately obtain a where "a \<in> set old" "attempt_step now a b"
      using inv by (auto simp: scan_invariant_def)
    with old_less attempt_step_fields(1) \<open>at_generation b = appended\<close> show False by fastforce
  qed
  then have "distinct (map at_generation rows)"
    unfolding rows map_update new_row using distinct by (intro distinct_list_update) auto
  moreover have "\<forall>a \<in> set old. \<exists>b \<in> set rows. attempt_step now a b"
    using scan_rows [OF inv dist seen] keep by blast
  ultimately show ?thesis
    using other new_row old_less ap(4) unfolding after_rows_def by blast
qed

text \<open>
  C24. The after-image of a request's attempts: every stored attempt survives with its
  generation, slot and creation time, its state moving only along the transition table and
  each move counted by one revision; every other row is the one appended attempt, prepared,
  numbered after all the others and within the plan's limit. The current attempt is among
  them, and the rows are in strictly ascending order of generation.
\<close>

theorem attempts_after_image:
  assumes build: "buildCodexLeaseAttemptAfterImages old oldCurrent desired desiredCurrent fences
      requestGeneration env now = Inr (attempts, current, appended)"
    and "distinct (map at_generation old)"
  shows "(\<forall>a \<in> set old. \<exists>b \<in> set attempts. attempt_step now a b) \<and>
    (\<forall>b \<in> set attempts. (\<exists>a \<in> set old. attempt_step now a b) \<or>
       at_generation b = appended \<and> at_state b = AttemptPrepared \<and> at_revision b = 1 \<and>
       at_created b = now \<and> (\<forall>a \<in> set old. at_generation a < appended) \<and>
       length old < unat (ae_limit env)) \<and>
    (current \<noteq> 0 \<longrightarrow> (\<exists>b \<in> set attempts. at_generation b = current)) \<and>
    (appended \<noteq> 0 \<longrightarrow> current = appended) \<and>
    sorted_wrt (\<lambda>a b. at_generation a < at_generation b) attempts"
proof -
  from build obtain s where
    scan: "foldE (scanAttempt old fences now) \<lparr>as_seen = [], as_result = [], as_append = None\<rparr> desired = Inr s"
    and seen: "\<forall>a \<in> set old. at_generation a \<in> set (as_seen s)"
    and rest: "andThen (placeAppend old oldCurrent desiredCurrent fences env now s)
       (\<lambda>(result, current, appended).
         andThen (checkFenceTargets old fences) (\<lambda>_.
         andThen (failIf (current \<noteq> 0 \<and> codexLeaseAttemptByGeneration result current = None)
           (ErrInvalidMutation ''current attempt is absent'')) (\<lambda>_.
         Inr (sortBy (\<lambda>a b. at_generation a < at_generation b) result, current, appended)))) =
      Inr (attempts, current, appended)"
    unfolding buildCodexLeaseAttemptAfterImages_def andThen_Inr_iff failIf_Inr_iff by blast
  from rest obtain rows where
    place: "placeAppend old oldCurrent desiredCurrent fences env now s = Inr (rows, current, appended)"
    and present: "current \<noteq> 0 \<longrightarrow> codexLeaseAttemptByGeneration rows current \<noteq> None"
    and sorted: "attempts = sortBy (\<lambda>a b. at_generation a < at_generation b) rows"
    by (cases "placeAppend old oldCurrent desiredCurrent fences env now s")
      (auto simp: andThen_Inr_iff)
  from place have rows: "(as_append s = None \<and> rows = as_result s \<and> appended = 0) \<or>
      (\<exists>i. as_append s = Some i \<and> current = appended \<and> appendAttempt old oldCurrent desiredCurrent
         fences env now i (as_result s) = Inr (rows, appended))"
    by (auto simp: placeAppend_def andThen_Inr_iff split: option.splits)
  have inv: "scan_invariant old now s"
  proof (rule foldE_invariant [OF scan])
    show "scan_invariant old now \<lparr>as_seen = [], as_result = [], as_append = None\<rparr>"
      by (simp add: scan_invariant_def)
  qed (rule scan_invariant_step [OF _ _ assms(2)])
  have "after_rows old now env rows appended"
    using rows after_rows_keep [OF inv assms(2) seen] after_rows_append [OF inv assms(2) seen] by auto
  moreover have "\<exists>b \<in> set rows. at_generation b = current" if "current \<noteq> 0"
    using present that by (auto simp: codexLeaseAttemptByGeneration_def dest!: find_Some_mem)
  ultimately show ?thesis
    using rows unfolding sorted by (auto simp: after_rows_def intro: sortBy_key_strict)
qed

section \<open>A failed attempt and its replacement\<close>

definition sampleTime :: gotime where "sampleTime = GoTime 1000 True"

definition sampleAttempts :: "journal_attempt list" where
  "sampleAttempts = [\<lparr>at_generation = 1, at_revision = 2, at_slot = 1, at_state = AttemptDispatched,
     at_created = sampleTime, at_observed = sampleTime\<rparr>]"

definition sampleDesired :: "journal_attempt list" where
  "sampleDesired = [zeroAttempt\<lparr>at_generation := 1, at_slot := 1, at_state := AttemptProviderFailed\<rparr>,
     zeroAttempt\<lparr>at_slot := 2, at_state := AttemptPrepared\<rparr>]"

definition sampleAttemptFences :: "attempt_fence list" where
  "sampleAttemptFences = [\<lparr>af_request = 1, af_generation = 1, af_revision = 2\<rparr>,
     \<lparr>af_request = 1, af_generation = 0, af_revision = 0\<rparr>]"

definition sampleSlots :: "attempt_slot list" where
  "sampleSlots = [\<lparr>sl_index = 1, sl_account = ''a'', sl_candidate = ''c'', sl_kind = ''direct''\<rparr>,
     \<lparr>sl_index = 2, sl_account = ''b'', sl_candidate = ''d'', sl_kind = ''direct''\<rparr>]"

definition sampleImage :: "lease_error + journal_attempt list \<times> u64 \<times> u64" where
  "sampleImage = buildCodexLeaseAttemptAfterImages sampleAttempts 1 sampleDesired 0
     sampleAttemptFences 1 \<lparr>ae_policy = 1, ae_digest = ''p'', ae_limit = 2, ae_slots = sampleSlots\<rparr>
     (GoTime 2000 True)"

lemma sampleImage_ok: "sampleImage = Inr (fst (projr sampleImage), 2, 2)"
  by code_simp

theorem attempts_after_image_witness:
  "sorted_wrt (\<lambda>a b. at_generation a < at_generation b) (fst (projr sampleImage)) \<and>
   (\<exists>b \<in> set (fst (projr sampleImage)). at_generation b = 2)"
proof -
  have "distinct (map at_generation sampleAttempts)" by code_simp
  from attempts_after_image [OF sampleImage_ok [unfolded sampleImage_def] this]
  show ?thesis by (simp add: sampleImage_def)
qed

end
