(* ===== verification/LeaseRecord.thy ===== *)
theory LeaseRecord
  imports LeaseAttempts
begin

text \<open>
  The after-image of one journal record (\<open>buildCodexLeaseRecordAfterImage\<close> and
  \<open>buildCodexBeginRequestAfterImage\<close> of \<open>internal/proxy/codex_lease_v2_cas.go\<close>): what a
  caller may change in a record, what only the store writes, and how a request begins. The
  function is long in the source; here every block of it is one definition, composed in the
  source's order, so that the first failing check is the error.
\<close>

section \<open>Kinds of transition\<close>

definition attemptState :: "journal_attempt option \<Rightarrow> attempt_state" where
  "attemptState a = (case a of None \<Rightarrow> AttemptNone | Some b \<Rightarrow> at_state b)"

definition codexLeaseExactCurrentAttemptFence :: "record_fence \<Rightarrow> journal_record \<Rightarrow> bool" where
  "codexLeaseExactCurrentAttemptFence fence r \<longleftrightarrow>
     (if length (rf_attempts fence) \<noteq> 1 \<or> cq_current (jr_request r) = 0 then False
      else case requestCurrentAttempt (jr_request r) of
        None \<Rightarrow> False
      | Some a \<Rightarrow> let touched = hd (rf_attempts fence)
          in af_request touched = cq_generation (jr_request r) \<and>
             af_generation touched = cq_current (jr_request r) \<and>
             af_revision touched = at_revision a)"

definition codexLeaseAccountUnavailableAdmission :: "journal_record \<Rightarrow> journal_record \<Rightarrow> bool" where
  "codexLeaseAccountUnavailableAdmission old desired \<longleftrightarrow>
     (let validState = (\<not> jr_admitted old \<and> jr_state old = LeaseProvisional) \<or>
            (jr_admitted old \<and> jr_state old = LeaseBoundActive)
      in if \<not> validState \<or> jr_non_migratable old \<or> jr_state desired \<noteq> LeaseBoundActive \<or>
           cq_generation (jr_request old) \<noteq> cq_generation (jr_request desired) \<or>
           cq_current (jr_request old) = 0 \<or>
           cq_current (jr_request old) \<noteq> cq_current (jr_request desired) \<or>
           constantTimeCodexLeaseDigestEqual (jr_account old) (jr_account desired) then False
         else case (requestCurrentAttempt (jr_request old), requestCurrentAttempt (jr_request desired)) of
           (Some current, Some desiredCurrent) \<Rightarrow>
             at_state current = AttemptDispatched \<and> at_state desiredCurrent = AttemptStreaming \<and>
             at_slot desiredCurrent = at_slot current \<and>
             (case slotAccount (cq_envelope (jr_request old)) (at_slot current) of
                None \<Rightarrow> False
              | Some account \<Rightarrow>
                  \<not> constantTimeCodexLeaseDigestEqual account (jr_account old) \<and>
                  constantTimeCodexLeaseDigestEqual account (jr_account desired))
         | _ \<Rightarrow> False)"

definition codexLeasePreTurnCompactionBeginRequest :: "journal_record \<Rightarrow> journal_record \<Rightarrow> bool" where
  "codexLeasePreTurnCompactionBeginRequest old desired \<longleftrightarrow>
     codexLeasePreTurnCompactionCanBeginTurn old (cq_kind (jr_request desired)) \<and>
     cq_phase (jr_request desired) = [] \<and> \<not> jr_non_migratable desired \<and>
     jr_state desired = LeaseBoundActive"

definition codexLeaseAccountUnavailableBeginRequest :: "journal_record \<Rightarrow> journal_record \<Rightarrow> bool" where
  "codexLeaseAccountUnavailableBeginRequest old desired \<longleftrightarrow>
     (if \<not> codexLeaseAccountUnavailableCanBeginRequest old \<or> jr_non_migratable desired then False
      else if jr_admitted old then jr_state desired = LeaseBoundActive
      else jr_state desired = LeaseProvisional)"

definition codexLeaseAffinityInvalidationBeginRequest ::
  "journal_record \<Rightarrow> journal_record \<Rightarrow> journal_lane \<Rightarrow> u64 \<Rightarrow> bool" where
  "codexLeaseAffinityInvalidationBeginRequest old desired lane invalidation \<longleftrightarrow>
     (if invalidation = 0 \<or> ln_admission_generation lane = 0 \<or>
        ln_admission_generation lane > invalidation \<or> \<not> jr_admitted old \<or>
        codexLeaseRecordRequiresAccount old \<or> jr_non_migratable desired \<or>
        ae_slots (cq_envelope (jr_request desired)) = [] \<or>
        length (cq_attempts (jr_request desired)) \<noteq> 1 then False
      else case slotAccount (cq_envelope (jr_request desired))
          (at_slot (hd (cq_attempts (jr_request desired)))) of
        None \<Rightarrow> False
      | Some account \<Rightarrow> \<not> constantTimeCodexLeaseDigestEqual (jr_account old) account)"

definition codexLeaseRedistributionBeginRequest ::
  "journal_record \<Rightarrow> journal_record \<Rightarrow> journal_lane \<Rightarrow> bool" where
  "codexLeaseRedistributionBeginRequest old desired lane \<longleftrightarrow>
     cq_redistribution (jr_request desired) \<noteq> 0 \<and>
     cq_redistribution (jr_request desired) = codexLaneRedistributionPending lane \<and>
     (codexLeaseSafeRedistributionSource old \<or>
      (cq_generation (jr_request old) = 0 \<and> jr_state old = LeaseReserving)) \<and>
     cq_kind (jr_request desired) = CodexRequestTurn \<and> \<not> jr_non_migratable desired"

definition bindingResetOf :: "journal_record \<Rightarrow> journal_record \<Rightarrow> bool \<Rightarrow> bool" where
  "bindingResetOf old desired affinityReset \<longleftrightarrow>
     codexLeaseAccountUnavailableBeginRequest old desired \<or> affinityReset \<or>
     codexLeaseRecordAllowsPortableReset old \<or> codexLeasePreTurnCompactionBeginRequest old desired"

section \<open>Beginning a request\<close>

definition beginRequestGuards ::
  "journal_record \<Rightarrow> journal_record \<Rightarrow> record_fence \<Rightarrow> lease_error + unit" where
  "beginRequestGuards old desired fence =
     (let q = jr_request desired in
      andThen (failIf (cq_generation q \<noteq> 0 \<or> cq_current q \<noteq> 0 \<or> length (cq_attempts q) \<noteq> 1)
        (ErrInvalidMutation ''BeginRequest requires a store-owned generation and one prepared attempt'')) (\<lambda>_.
      andThen (failIf (\<not> (case rf_attempts fence of [f] \<Rightarrow> af_request f = 0 \<and> af_generation f = 0 \<and>
          af_revision f = 0 | _ \<Rightarrow> False))
        (ErrInvalidMutation ''BeginRequest requires an absent request-attempt fence'')) (\<lambda>_.
      andThen (failIf (cq_generation (jr_request old) = MaxUint64)
        (ErrInvalidMutation ''request generation overflow'')) (\<lambda>_.
      if cq_generation (jr_request old) = 0
      then failIf (jr_state old \<noteq> LeaseReserving \<or> \<not> codexCurrentRequestIsZero (jr_request old))
        (ErrInvalidMutation ''initial BeginRequest requires a clean reservation'')
      else
        andThen (failIf (\<not> drained (jr_request old) \<or>
            \<not> codexLeaseAttemptTerminalForRequest (codexLeaseCurrentAttemptState old))
          (ErrInvalidMutation ''prior request is not terminal and drained'')) (\<lambda>_.
        failIf (\<not> (jr_state old = LeaseContinuationPending \<or> jr_state old = LeaseBoundQuiescent \<or>
            jr_state old = LeaseOrphaned \<or>
            (jr_state old = LeaseProvisional \<and>
             codexLeaseCurrentAttemptState old = AttemptAbandonedBeforeDispatch) \<or>
            codexLeaseRestartableFailedHead old))
          (ErrInvalidMutation ''lease state cannot begin another request''))))))"

definition beginRequestBinding ::
  "journal_record \<Rightarrow> journal_record \<Rightarrow> bool \<Rightarrow> lease_error + unit" where
  "beginRequestBinding old desired affinityReset =
     (let q = jr_request desired;
          bindingReset = bindingResetOf old desired affinityReset;
          unadmittedBindingReset = (bindingReset \<and> \<not> jr_admitted old);
          attempt = hd (cq_attempts q)
      in
      andThen (failIf (jr_state desired \<noteq> (if jr_admitted old then LeaseBoundActive else LeaseProvisional))
        (ErrInvalidMutation ''BeginRequest has invalid lease state'')) (\<lambda>_.
      andThen (failIf ((jr_admitted old \<or> jr_non_migratable old) \<and>
          \<not> constantTimeCodexLeaseDigestEqual (jr_account old) (jr_account desired) \<and>
          \<not> unadmittedBindingReset)
        (ErrInvalidMutation ''bound request changed account'')) (\<lambda>_.
      andThen (failIf (jr_non_migratable old \<and> \<not> bindingReset \<and>
          (\<exists>slot \<in> set (ae_slots (cq_envelope q)).
            \<not> constantTimeCodexLeaseDigestEqual (sl_account slot) (jr_account desired)))
        (ErrInvalidMutation ''bound request plan contains another account'')) (\<lambda>_.
      andThen (failIf (at_generation attempt \<noteq> 0 \<or> at_revision attempt \<noteq> 0 \<or>
          at_state attempt \<noteq> AttemptPrepared \<or> at_slot attempt = 0 \<or>
          \<not> isZeroTime (at_created attempt) \<or> \<not> isZeroTime (at_observed attempt))
        (ErrInvalidMutation ''BeginRequest attempt is not a clean prepared append'')) (\<lambda>_.
      (case slotAccount (cq_envelope q) (at_slot attempt) of
         None \<Rightarrow> Inl (ErrInvalidMutation ''BeginRequest attempt slot is outside the frozen envelope'')
       | Some account \<Rightarrow>
           failIf ((jr_admitted old \<or> jr_non_migratable old) \<and>
               \<not> constantTimeCodexLeaseDigestEqual account (jr_account desired) \<and> \<not> bindingReset)
             (ErrInvalidMutation ''bound request changed account without account unavailability'')))))))"

definition beginRequestImage :: "journal_record \<Rightarrow> journal_record \<Rightarrow> gotime \<Rightarrow> current_request" where
  "beginRequestImage old desired now =
     (jr_request desired)\<lparr>cq_generation := cq_generation (jr_request old) + 1,
        cq_attempts := [(hd (cq_attempts (jr_request desired)))\<lparr>at_generation := 1,
          at_revision := 1, at_created := now, at_observed := now\<rparr>],
        cq_current := 1\<rparr>"

definition buildCodexBeginRequestAfterImage ::
  "journal_record \<Rightarrow> journal_record \<Rightarrow> bool \<Rightarrow> record_fence \<Rightarrow> gotime \<Rightarrow>
   lease_error + current_request" where
  "buildCodexBeginRequestAfterImage old desired affinityReset fence now =
     andThen (beginRequestGuards old desired fence) (\<lambda>_.
     andThen (beginRequestBinding old desired affinityReset) (\<lambda>_.
     Inr (beginRequestImage old desired now)))"

section \<open>The record after-image\<close>

text \<open>What the caller's input is, and what the mutation names it as.\<close>

record record_input =
  ri_old :: journal_record
  ri_exists :: bool
  ri_input :: journal_record
  ri_begin :: bool
  ri_latch :: bool
  ri_affinity_reset :: bool
  ri_fence :: record_fence

definition bindingReassignment :: "record_input \<Rightarrow> bool" where
  "bindingReassignment c \<longleftrightarrow> ri_exists c \<and>
     codexLeaseAccountUnavailableAdmission (ri_old c) (ri_input c)"

definition bindingReset :: "record_input \<Rightarrow> bool" where
  "bindingReset c \<longleftrightarrow> ri_exists c \<and> ri_begin c \<and>
     bindingResetOf (ri_old c) (ri_input c) (ri_affinity_reset c)"

definition newRecordImage :: "record_input \<Rightarrow> gotime \<Rightarrow> lease_error + journal_record" where
  "newRecordImage c now =
     (let r = ri_input c in
      andThen (failIf (ri_begin c \<or> jr_state r \<noteq> LeaseReserving \<or> jr_account r \<noteq> [] \<or>
          \<not> codexCurrentRequestIsZero (jr_request r) \<or> jr_prewarm r \<or> jr_prewarm_generation r \<noteq> 0)
        (ErrInvalidMutation ''new record must begin as a clean reserving lease'')) (\<lambda>_.
      Inr (r\<lparr>jr_generation := 1, jr_lease_generation := 1, jr_created := now\<rparr>)))"

definition latchMigration :: "record_input \<Rightarrow> journal_record \<Rightarrow> bool" where
  "latchMigration c r \<longleftrightarrow> ri_latch c \<and> ri_begin c \<and> jr_has_turn_state (ri_old c) \<and>
     \<not> jr_latch (ri_old c) \<and> jr_latch r \<and> jr_admitted (ri_old c) \<and>
     constantTimeCodexLeaseDigestEqual (jr_account (ri_old c)) (jr_account r) \<and>
     codexLeaseRuntimeCanBeginRequest (ri_old c)"

text \<open>The lifecycle checks of an existing record, in the source's order.\<close>

definition lifecycleChecks :: "record_input \<Rightarrow> lease_error + unit" where
  "lifecycleChecks c =
     (let old = ri_old c; input = ri_input c;
          retiredPrewarm = (bindingReset c \<and> jr_prewarm old \<and> \<not> jr_prewarm input \<and>
            jr_prewarm_generation input = 0);
          provisionalUncertainty = (\<not> ri_begin c \<and> jr_state old = LeaseProvisional \<and>
            jr_state input = LeaseOrphaned);
          abandonedSuccessor = (\<not> ri_begin c \<and> jr_state input = LeaseSuperseded \<and>
            codexLeaseAbandonedUnadmittedHead old)
      in
      andThen (failIf ((jr_prewarm old \<noteq> jr_prewarm input \<or>
          jr_prewarm_generation old \<noteq> jr_prewarm_generation input) \<and> \<not> retiredPrewarm)
        (ErrInvalidMutation ''prewarm adoption marker changed'')) (\<lambda>_.
      andThen (failIf (jr_generation old = MaxUint64)
        (ErrInvalidMutation ''record generation overflow'')) (\<lambda>_.
      andThen (failIf (\<not> provisionalUncertainty \<and> \<not> abandonedSuccessor \<and> \<not> ri_begin c \<and>
          jr_state old \<noteq> jr_state input \<and>
          \<not> validLeaseTransition (jr_state old) (jr_state input))
        (ErrInvalidMutation ''forbidden lease transition'')) (\<lambda>_.
      andThen (failIf (jr_pred_turn old \<noteq> jr_pred_turn input \<or>
          jr_pred_epoch old \<noteq> jr_pred_epoch input \<or> jr_pred_auth old \<noteq> jr_pred_auth input)
        (ErrInvalidMutation ''frozen predecessor changed'')) (\<lambda>_.
      failIf (jr_non_migratable old \<and> \<not> jr_non_migratable input \<and> \<not> bindingReset c)
        (ErrInvalidMutation ''non-migratable authority was cleared''))))))"

definition continuationChecks :: "record_input \<Rightarrow> lease_error + unit" where
  "continuationChecks c =
     (let old = ri_old c; input = ri_input c; reassigned = bindingReassignment c in
      andThen (failIf (jr_has_encrypted old \<and> \<not> jr_has_encrypted input)
        (ErrInvalidMutation ''encrypted-state authority was cleared'')) (\<lambda>_.
      andThen (failIf (jr_prev_turn_state old \<noteq> jr_prev_turn_state input \<and>
          \<not> (reassigned \<and> jr_prev_turn_state old = [] \<and>
             jr_prev_turn_state input = jr_turn_state old))
        (ErrInvalidMutation ''previous turn-state authority changed'')) (\<lambda>_.
      andThen (failIf (jr_has_turn_state old \<and> \<not> jr_has_turn_state input \<and> \<not> reassigned)
        (ErrInvalidMutation ''turn-state authority was cleared'')) (\<lambda>_.
      andThen (failIf (\<not> jr_has_turn_state old \<and> jr_has_turn_state input \<and> \<not> jr_latch input)
        (ErrInvalidMutation ''first turn-state authority is missing current latch marker'')) (\<lambda>_.
      andThen (failIf (jr_latch old \<noteq> jr_latch input \<and> \<not> latchMigration c input \<and>
          \<not> (reassigned \<and> \<not> jr_has_turn_state input \<and> \<not> jr_latch input) \<and>
          \<not> (\<not> jr_has_turn_state old \<and> jr_has_turn_state input \<and> jr_latch input))
        (ErrInvalidMutation ''turn-state latch marker changed outside admission or migration'')) (\<lambda>_.
      failIf (jr_has_anchor old \<and> (\<not> jr_has_anchor input \<or> jr_correlation input = []) \<and> \<not> reassigned)
        (ErrInvalidMutation ''response anchor was cleared'')))))))"

definition existingRecordImage :: "record_input \<Rightarrow> lease_error + journal_record" where
  "existingRecordImage c =
     (let old = ri_old c; input = ri_input c in
      andThen (lifecycleChecks c) (\<lambda>_.
      andThen (continuationChecks c) (\<lambda>_.
      andThen (failIf (\<not> sameCodexLeaseSemantics old input \<and> jr_lease_generation old = MaxUint64)
        (ErrInvalidMutation ''lease generation overflow'')) (\<lambda>_.
      andThen (failIf ((jr_admitted old \<or> jr_non_migratable old) \<and>
          \<not> constantTimeCodexLeaseDigestEqual (jr_account old) (jr_account input) \<and>
          \<not> bindingReassignment c \<and> \<not> (bindingReset c \<and> \<not> jr_admitted old))
        (ErrInvalidMutation ''admitted account changed'')) (\<lambda>_.
      Inr (input\<lparr>jr_generation := jr_generation old + 1, jr_created := jr_created old,
        jr_lease_generation := (if sameCodexLeaseSemantics old input then jr_lease_generation old
          else jr_lease_generation old + 1),
        jr_admitted := jr_admitted old,
        jr_admission_generation := jr_admission_generation old,
        jr_admission_request := jr_admission_request old,
        jr_admission_kind := jr_admission_kind old,
        jr_admission_phase := jr_admission_phase old,
        jr_admitted_at := jr_admitted_at old\<rparr>))))))"

text \<open>Requests and attempts: a new request, or the after-image of the current one.\<close>

definition slotsSameAccount :: "attempt_envelope \<Rightarrow> u32 \<Rightarrow> u32 \<Rightarrow> bool" where
  "slotsSameAccount env a b \<longleftrightarrow>
     (case (slotAccount env a, slotAccount env b) of
        (Some x, Some y) \<Rightarrow> constantTimeCodexLeaseDigestEqual x y
      | _ \<Rightarrow> False)"

definition replacementAllowed ::
  "journal_record \<Rightarrow> journal_record \<Rightarrow> journal_attempt list \<Rightarrow> u64 \<Rightarrow> bool" where
  "replacementAllowed old result attempts nextAttempt \<longleftrightarrow>
     (let previousCurrent = codexLeaseAttemptByGeneration attempts (cq_current (jr_request old));
          appended = codexLeaseAttemptByGeneration attempts nextAttempt;
          env = cq_envelope (jr_request result);
          pinnedAccountChanged = (jr_non_migratable old \<and>
            \<not> constantTimeCodexLeaseDigestEqual (jr_account old) (jr_account result));
          unadmittedReplacement = (\<not> jr_admitted old \<and> jr_state old = LeaseProvisional \<and>
            jr_state result = LeaseProvisional);
          admittedReplacement = (jr_admitted old \<and>
            cq_generation (jr_request old) > jr_admission_request old \<and>
            jr_state old = LeaseBoundActive \<and> jr_state result = LeaseBoundActive \<and>
            constantTimeCodexLeaseDigestEqual (jr_account old) (jr_account result) \<and>
            (case appended of None \<Rightarrow> False | Some a \<Rightarrow> slotAccount env (at_slot a) \<noteq> None) \<and>
            cq_routing_refs (jr_request old) = cq_routing_refs (jr_request result) \<and>
            cq_attempt_refs (jr_request old) = cq_attempt_refs (jr_request result) \<and>
            cq_observer_refs (jr_request old) = cq_observer_refs (jr_request result) \<and>
            jr_extinct old = jr_extinct result);
          sameAccountReplacement = (admittedReplacement \<and>
            (case (previousCurrent, appended) of
               (Some p, Some a) \<Rightarrow> at_state p = AttemptProviderFailed \<and>
                 slotsSameAccount env (at_slot a) (at_slot p)
             | _ \<Rightarrow> False));
          unavailableReplacement = (admittedReplacement \<and> \<not> jr_non_migratable old \<and>
            attemptState previousCurrent = AttemptAccountUnavailable);
          unadmittedTerminal = (unadmittedReplacement \<and>
            (attemptState previousCurrent = AttemptProviderFailed \<or>
             attemptState previousCurrent = AttemptAccountUnavailable))
      in \<not> (pinnedAccountChanged \<or>
            (\<not> unadmittedTerminal \<and> \<not> sameAccountReplacement \<and> \<not> unavailableReplacement)))"

definition requestAfterImage ::
  "record_input \<Rightarrow> journal_record \<Rightarrow> gotime \<Rightarrow> lease_error + journal_record \<times> u64" where
  "requestAfterImage c result now =
     (if ri_begin c then
        andThen (buildCodexBeginRequestAfterImage (ri_old c) result (ri_affinity_reset c) (ri_fence c) now)
          (\<lambda>q. Inr (result\<lparr>jr_request := q\<rparr>, 1))
      else
        andThen (failIf (ri_exists c \<and>
            \<not> sameCodexCurrentRequestPlan (jr_request (ri_old c)) (jr_request (ri_input c)))
          (ErrInvalidMutation ''current request plan changed without BeginRequest'')) (\<lambda>_.
        andThen (buildCodexLeaseAttemptAfterImages (cq_attempts (jr_request (ri_old c)))
            (cq_current (jr_request (ri_old c))) (cq_attempts (jr_request (ri_input c)))
            (cq_current (jr_request (ri_input c))) (rf_attempts (ri_fence c))
            (cq_generation (jr_request (ri_old c))) (cq_envelope (jr_request result)) now)
          (\<lambda>(attempts, current, nextAttempt).
        andThen (failIf (nextAttempt \<noteq> 0 \<and> \<not> replacementAllowed (ri_old c) result attempts nextAttempt)
          (ErrInvalidMutation ''terminal request replacement requires BeginRequest'')) (\<lambda>_.
        Inr (result\<lparr>jr_request := (jr_request result)\<lparr>cq_attempts := attempts, cq_current := current\<rparr>\<rparr>,
          nextAttempt)))))"

definition turnStateCheck :: "record_input \<Rightarrow> journal_record \<Rightarrow> lease_error + unit" where
  "turnStateCheck c result =
     (let old = ri_old c; input = ri_input c;
          turnStateChanged = (jr_has_turn_state input \<and> (\<not> jr_has_turn_state old \<or>
            \<not> constantTimeCodexLeaseDigestEqual (jr_turn_state old) (jr_turn_state input)));
          oldState = attemptState (requestCurrentAttempt (jr_request old));
          resultState = attemptState (requestCurrentAttempt (jr_request result))
      in failIf (ri_exists c \<and> turnStateChanged \<and> \<not> latchMigration c result \<and>
           (ri_begin c \<or> requestCurrentAttempt (jr_request old) = None \<or>
            requestCurrentAttempt (jr_request result) = None \<or>
            \<not> (oldState = AttemptDispatched \<or> oldState = AttemptStreaming) \<or>
            resultState \<noteq> AttemptStreaming \<or>
            cq_current (jr_request result) \<noteq> cq_current (jr_request old) \<or>
            \<not> codexLeaseExactCurrentAttemptFence (ri_fence c) old))
         (ErrInvalidMutation ''turn-state authority changed outside provider admission''))"

definition pinIndeterminate :: "record_input \<Rightarrow> journal_record \<Rightarrow> lease_error + journal_record" where
  "pinIndeterminate c result =
     (if codexLeaseCurrentAttemptState result = AttemptIndeterminate \<and> \<not> jr_non_migratable result then
        (if ri_exists c \<and> jr_lease_generation result = jr_lease_generation (ri_old c) then
           andThen (failIf (jr_lease_generation (ri_old c) = MaxUint64)
             (ErrInvalidMutation ''lease generation overflow'')) (\<lambda>_.
           Inr (result\<lparr>jr_non_migratable := True,
             jr_lease_generation := jr_lease_generation result + 1\<rparr>))
         else Inr (result\<lparr>jr_non_migratable := True\<rparr>))
      else Inr result)"

definition accountChangeCheck ::
  "record_input \<Rightarrow> journal_record \<Rightarrow> u64 \<Rightarrow> lease_error + unit" where
  "accountChangeCheck c result appended =
     (let old = ri_old c;
          accountChanged = ((jr_account old \<noteq> [] \<or> jr_account result \<noteq> []) \<and>
            \<not> constantTimeCodexLeaseDigestEqual (jr_account old) (jr_account result))
      in failIf (ri_exists c \<and> accountChanged \<and> \<not> ri_begin c \<and> \<not> bindingReassignment c \<and>
           (jr_admitted old \<or> jr_non_migratable old \<or> appended = 0 \<or>
            cq_current (jr_request result) \<noteq> appended \<or>
            (case codexLeaseAttemptByGeneration (cq_attempts (jr_request result)) appended of
               None \<Rightarrow> True
             | Some a \<Rightarrow> at_state a \<noteq> AttemptPrepared \<or>
                 (case slotAccount (cq_envelope (jr_request result)) (at_slot a) of
                    None \<Rightarrow> True
                  | Some account \<Rightarrow>
                      \<not> constantTimeCodexLeaseDigestEqual account (jr_account result)))))
         (ErrInvalidMutation ''account change is not coupled to a prepared replacement attempt''))"

text \<open>
  The two narrow terminal transitions compare the result with the one after-image that is
  allowed; the comparison leaves the attempts out, so the expected record need not set them.
\<close>

definition provisionalUncertaintyCheck :: "record_input \<Rightarrow> journal_record \<Rightarrow> lease_error + unit"
  where
  "provisionalUncertaintyCheck c result =
     (let old = ri_old c; oldQ = jr_request old; resultQ = jr_request result;
          expected = old\<lparr>jr_state := LeaseOrphaned, jr_non_migratable := True,
            jr_request := oldQ\<lparr>cq_routing_refs := 0, cq_attempt_refs := 0, cq_observer_refs := 1\<rparr>\<rparr>
      in failIf (ri_exists c \<and> jr_state old = LeaseProvisional \<and> jr_state result = LeaseOrphaned \<and>
           (ri_begin c \<or> \<not> codexLeaseExactCurrentAttemptFence (ri_fence c) old \<or>
            cq_current oldQ = 0 \<or> cq_current resultQ \<noteq> cq_current oldQ \<or>
            (case (requestCurrentAttempt oldQ,
                codexLeaseAttemptByGeneration (cq_attempts resultQ) (cq_current oldQ)) of
               (Some a, Some b) \<Rightarrow> at_state a \<noteq> AttemptDispatched \<or>
                 at_state b \<noteq> AttemptIndeterminate \<or> at_slot a \<noteq> at_slot b
             | _ \<Rightarrow> True) \<or>
            \<not> constantTimeCodexLeaseDigestEqual (jr_account old) (jr_account result) \<or>
            cq_generation oldQ \<noteq> cq_generation resultQ \<or>
            cq_routing_refs oldQ \<noteq> 1 \<or> cq_attempt_refs oldQ \<noteq> 0 \<or> cq_observer_refs oldQ \<noteq> 0 \<or>
            jr_extinct old \<or> cq_routing_refs resultQ \<noteq> 0 \<or> cq_attempt_refs resultQ \<noteq> 0 \<or>
            cq_observer_refs resultQ \<noteq> 1 \<or> jr_extinct result \<or> \<not> jr_non_migratable result \<or>
            \<not> sameCodexLeaseSemantics expected result))
         (ErrInvalidMutation ''provisional uncertainty lacks an exact dispatched after-image''))"

definition preparedAbandonmentCheck :: "record_input \<Rightarrow> journal_record \<Rightarrow> lease_error + unit" where
  "preparedAbandonmentCheck c result =
     (let old = ri_old c; oldQ = jr_request old; resultQ = jr_request result;
          expected = old\<lparr>jr_state := (if jr_admitted old then LeaseOrphaned else LeaseProvisional),
            jr_extinct := True,
            jr_request := oldQ\<lparr>cq_routing_refs := 0, cq_attempt_refs := 0, cq_observer_refs := 0\<rparr>\<rparr>;
          validOldState = ((\<not> jr_admitted old \<and> jr_state old = LeaseProvisional) \<or>
            (jr_admitted old \<and> jr_state old = LeaseBoundActive))
      in case (requestCurrentAttempt oldQ,
            codexLeaseAttemptByGeneration (cq_attempts resultQ) (cq_current oldQ)) of
           (Some a, Some b) \<Rightarrow>
             failIf (ri_exists c \<and> at_state a = AttemptPrepared \<and>
                 at_state b = AttemptAbandonedBeforeDispatch \<and>
                 (ri_begin c \<or> \<not> validOldState \<or>
                  \<not> codexLeaseExactCurrentAttemptFence (ri_fence c) old \<or>
                  cq_current resultQ \<noteq> cq_current oldQ \<or> at_slot a \<noteq> at_slot b \<or>
                  \<not> sameCodexLeaseSemantics expected result))
               (ErrInvalidMutation ''prepared abandonment lacks an exact terminal after-image'')
         | _ \<Rightarrow> Inr ())"

definition firstAdmissionOf :: "journal_record \<Rightarrow> bool" where
  "firstAdmissionOf result \<longleftrightarrow> \<not> jr_admitted result \<and> codexLeaseCurrentRequestCacheEligible result \<and>
     jr_state result = LeaseBoundActive \<and>
     codexLeaseCurrentAttemptState result = AttemptStreaming"

definition admitRecord :: "u64 \<Rightarrow> journal_record \<Rightarrow> gotime \<Rightarrow> journal_record" where
  "admitRecord generation result now =
     (if firstAdmissionOf result
      then result\<lparr>jr_admitted := True, jr_admission_generation := generation + 1,
        jr_admission_request := cq_generation (jr_request result),
        jr_admission_kind := cq_kind (jr_request result),
        jr_admission_phase := cq_phase (jr_request result), jr_admitted_at := now\<rparr>
      else result)"

text \<open>\<open>generation\<close> is the journal's, before this commit.\<close>

definition buildCodexLeaseRecordAfterImage ::
  "u64 \<Rightarrow> record_input \<Rightarrow> gotime \<Rightarrow> lease_error + journal_record \<times> u64 \<times> bool" where
  "buildCodexLeaseRecordAfterImage generation c now =
     (let input = ri_input c in
      andThen (failIf (jr_session input = [] \<or> jr_thread input = [] \<or> jr_namespace input = [] \<or>
          jr_turn input = [] \<or> jr_epoch input = 0 \<or> jr_schema input \<noteq> CurrentCodexLeaseSchema)
        (ErrInvalidMutation ''incomplete record identity/protocol'')) (\<lambda>_.
      andThen (if ri_exists c then existingRecordImage c else newRecordImage c now) (\<lambda>base.
      andThen (requestAfterImage c (base\<lparr>jr_observed := now\<rparr>) now) (\<lambda>(r1, appended).
      andThen (turnStateCheck c r1) (\<lambda>_.
      andThen (pinIndeterminate c r1) (\<lambda>r2.
      andThen (accountChangeCheck c r2 appended) (\<lambda>_.
      andThen (provisionalUncertaintyCheck c r2) (\<lambda>_.
      andThen (preparedAbandonmentCheck c r2) (\<lambda>_.
      Inr (admitRecord generation r2 now, appended,
        firstAdmissionOf r2 \<or> bindingReassignment c))))))))))"

section \<open>Decomposition of a successful build\<close>

lemma record_image_cases:
  assumes "buildCodexLeaseRecordAfterImage generation c now = Inr (r, appended, cache)"
  obtains base r1 r2 where
    "(if ri_exists c then existingRecordImage c else newRecordImage c now) = Inr base"
    "requestAfterImage c (base\<lparr>jr_observed := now\<rparr>) now = Inr (r1, appended)"
    "turnStateCheck c r1 = Inr ()" "pinIndeterminate c r1 = Inr r2"
    "accountChangeCheck c r2 appended = Inr ()" "provisionalUncertaintyCheck c r2 = Inr ()"
    "preparedAbandonmentCheck c r2 = Inr ()" "r = admitRecord generation r2 now"
    "cache = (firstAdmissionOf r2 \<or> bindingReassignment c)"
  using assms unfolding buildCodexLeaseRecordAfterImage_def Let_def andThen_failIf_iff andThen_Inr_iff
  by (auto simp: andThen_Inr_iff simp del: failIf_Inr_iff)

lemma requestAfterImage_frame:
  "requestAfterImage c result now = Inr (r1, appended) \<Longrightarrow> r1 = result\<lparr>jr_request := jr_request r1\<rparr>"
  by (auto simp: requestAfterImage_def andThen_Inr_iff split: if_splits)

lemma pinIndeterminate_frame:
  assumes "pinIndeterminate c r1 = Inr r2"
  shows "r2 = r1\<lparr>jr_non_migratable := jr_non_migratable r2, jr_lease_generation := jr_lease_generation r2\<rparr>"
    "jr_non_migratable r1 \<Longrightarrow> jr_non_migratable r2"
    "jr_lease_generation r2 = jr_lease_generation r1 \<or>
     jr_lease_generation r1 = jr_lease_generation (ri_old c) \<and>
     jr_lease_generation (ri_old c) \<noteq> MaxUint64 \<and>
     jr_lease_generation r2 = jr_lease_generation (ri_old c) + 1"
    "codexLeaseCurrentAttemptState r1 = AttemptIndeterminate \<Longrightarrow> jr_non_migratable r2"
  using assms by (auto simp: pinIndeterminate_def andThen_failIf_iff split: if_splits)

lemma admitRecord_simps [simp]:
  "jr_session (admitRecord g r now) = jr_session r" "jr_thread (admitRecord g r now) = jr_thread r"
  "jr_namespace (admitRecord g r now) = jr_namespace r" "jr_turn (admitRecord g r now) = jr_turn r"
  "jr_epoch (admitRecord g r now) = jr_epoch r" "jr_auth (admitRecord g r now) = jr_auth r"
  "jr_account (admitRecord g r now) = jr_account r" "jr_state (admitRecord g r now) = jr_state r"
  "jr_generation (admitRecord g r now) = jr_generation r"
  "jr_lease_generation (admitRecord g r now) = jr_lease_generation r"
  "jr_request (admitRecord g r now) = jr_request r"
  "jr_non_migratable (admitRecord g r now) = jr_non_migratable r"
  "jr_created (admitRecord g r now) = jr_created r" "jr_observed (admitRecord g r now) = jr_observed r"
  "jr_pred_turn (admitRecord g r now) = jr_pred_turn r"
  "jr_pred_epoch (admitRecord g r now) = jr_pred_epoch r"
  "jr_pred_auth (admitRecord g r now) = jr_pred_auth r"
  "jr_has_encrypted (admitRecord g r now) = jr_has_encrypted r"
  "jr_has_turn_state (admitRecord g r now) = jr_has_turn_state r"
  "jr_turn_state (admitRecord g r now) = jr_turn_state r"
  "jr_latch (admitRecord g r now) = jr_latch r" "jr_has_anchor (admitRecord g r now) = jr_has_anchor r"
  "jr_correlation (admitRecord g r now) = jr_correlation r"
  by (simp_all add: admitRecord_def)

text \<open>The admission evidence as one value: what a first admission writes and nothing else does.\<close>

definition admissionEvidence ::
  "journal_record \<Rightarrow> bool \<times> u64 \<times> u64 \<times> request_kind \<times> compaction_phase \<times> gotime" where
  "admissionEvidence r = (jr_admitted r, jr_admission_generation r, jr_admission_request r,
     jr_admission_kind r, jr_admission_phase r, jr_admitted_at r)"

lemma existingRecordImage_cases:
  assumes "existingRecordImage c = Inr base"
  shows "lifecycleChecks c = Inr ()" "continuationChecks c = Inr ()"
    "\<not> sameCodexLeaseSemantics (ri_old c) (ri_input c) \<Longrightarrow> jr_lease_generation (ri_old c) \<noteq> MaxUint64"
    "(jr_admitted (ri_old c) \<or> jr_non_migratable (ri_old c)) \<Longrightarrow>
     \<not> constantTimeCodexLeaseDigestEqual (jr_account (ri_old c)) (jr_account (ri_input c)) \<Longrightarrow>
     bindingReassignment c \<or> bindingReset c \<and> \<not> jr_admitted (ri_old c)"
    "base = (ri_input c)\<lparr>jr_generation := jr_generation (ri_old c) + 1,
        jr_created := jr_created (ri_old c),
        jr_lease_generation := (if sameCodexLeaseSemantics (ri_old c) (ri_input c)
          then jr_lease_generation (ri_old c) else jr_lease_generation (ri_old c) + 1),
        jr_admitted := jr_admitted (ri_old c),
        jr_admission_generation := jr_admission_generation (ri_old c),
        jr_admission_request := jr_admission_request (ri_old c),
        jr_admission_kind := jr_admission_kind (ri_old c),
        jr_admission_phase := jr_admission_phase (ri_old c),
        jr_admitted_at := jr_admitted_at (ri_old c)\<rparr>"
  using assms by (auto simp: existingRecordImage_def Let_def andThen_Inr_iff)

lemma admitRecord_readers [simp]:
  "codexLeaseCurrentAttemptState (admitRecord g r now) = codexLeaseCurrentAttemptState r"
  "codexLeaseCurrentRequestCacheEligible (admitRecord g r now) = codexLeaseCurrentRequestCacheEligible r"
  by (simp_all add: codexLeaseCurrentAttemptState_def codexLeaseCurrentRequestCacheEligible_def)

lemma request_semantics:
  assumes "requestAfterImage c result now = Inr (r1, appended)" and "\<not> ri_begin c"
  shows "jr_request r1 = (jr_request result)\<lparr>cq_attempts := cq_attempts (jr_request r1),
    cq_current := cq_current (jr_request r1)\<rparr>"
  using assms by (auto simp: requestAfterImage_def andThen_Inr_iff)

lemma begin_request_cases:
  assumes "requestAfterImage c result now = Inr (r1, appended)" and "ri_begin c"
  shows "beginRequestGuards (ri_old c) result (ri_fence c) = Inr ()"
    "beginRequestBinding (ri_old c) result (ri_affinity_reset c) = Inr ()"
    "jr_request r1 = beginRequestImage (ri_old c) result now" "appended = 1"
  using assms by (auto simp: requestAfterImage_def buildCodexBeginRequestAfterImage_def andThen_Inr_iff)

lemma begin_changes_semantics:
  assumes "beginRequestGuards old desired fence = Inr ()"
    and "beginRequestBinding old desired affinityReset = Inr ()"
  shows "cq_generation (jr_request desired) \<noteq> cq_generation (jr_request old) \<or>
    jr_state desired \<noteq> jr_state old"
  using assms by (auto simp: beginRequestGuards_def beginRequestBinding_def Let_def andThen_failIf_iff
    split: if_splits)

text \<open>
  The two versions of a record: every accepted update moves the record generation up by
  exactly one without wrapping, keeps the creation time and the frozen predecessor, and
  stamps the observation time; the lease generation moves up by one or stays, and where it
  stays the stored record means what it meant before.
\<close>

theorem record_after_image_versions:
  assumes build: "buildCodexLeaseRecordAfterImage generation c now = Inr (r, appended, cache)"
    and exists: "ri_exists c"
  shows "jr_generation r = jr_generation (ri_old c) + 1 \<and> jr_generation (ri_old c) < jr_generation r \<and>
    jr_created r = jr_created (ri_old c) \<and> jr_observed r = now \<and>
    (jr_pred_turn r, jr_pred_epoch r, jr_pred_auth r) =
      (jr_pred_turn (ri_old c), jr_pred_epoch (ri_old c), jr_pred_auth (ri_old c)) \<and>
    (jr_lease_generation r = jr_lease_generation (ri_old c) \<and> sameCodexLeaseSemantics (ri_old c) r \<or>
     jr_lease_generation r = jr_lease_generation (ri_old c) + 1 \<and>
     jr_lease_generation (ri_old c) < jr_lease_generation r)"
proof -
  let ?old = "ri_old c" and ?input = "ri_input c"
  from build obtain base r1 r2 where base: "existingRecordImage c = Inr base"
    and req: "requestAfterImage c (base\<lparr>jr_observed := now\<rparr>) now = Inr (r1, appended)"
    and pin: "pinIndeterminate c r1 = Inr r2" and r: "r = admitRecord generation r2 now"
    by (rule record_image_cases) (simp add: exists)
  note frame = existingRecordImage_cases [OF base] and r1 = requestAfterImage_frame [OF req]
    and r2 = pinIndeterminate_frame [OF pin]
  from frame(1) have life: "jr_generation ?old \<noteq> MaxUint64" "jr_pred_turn ?old = jr_pred_turn ?input"
    "jr_pred_epoch ?old = jr_pred_epoch ?input" "jr_pred_auth ?old = jr_pred_auth ?input"
    by (auto simp: lifecycleChecks_def Let_def andThen_failIf_iff)
  have kept: "jr_generation r = jr_generation ?old + 1" "jr_created r = jr_created ?old"
    "jr_observed r = now" "jr_pred_turn r = jr_pred_turn ?old" "jr_pred_epoch r = jr_pred_epoch ?old"
    "jr_pred_auth r = jr_pred_auth ?old"
    unfolding r admitRecord_simps by (subst r2(1), subst r1, simp add: frame(5) life)+
  have lease1: "jr_lease_generation r1 = (if sameCodexLeaseSemantics ?old ?input
      then jr_lease_generation ?old else jr_lease_generation ?old + 1)"
    by (subst r1) (simp add: frame(5))
  have lease: "jr_lease_generation r = jr_lease_generation ?old + 1 \<and> jr_lease_generation ?old \<noteq> MaxUint64 \<or>
      jr_lease_generation r = jr_lease_generation ?old \<and> sameCodexLeaseSemantics ?old ?input \<and> r2 = r1"
    using pin lease1 frame(3) unfolding r admitRecord_simps
    by (auto simp: pinIndeterminate_def exists andThen_failIf_iff split: if_splits)
  have "sameCodexLeaseSemantics ?old r" if same: "sameCodexLeaseSemantics ?old ?input" and "r2 = r1"
  proof (cases "ri_begin c")
    case True
    from begin_changes_semantics [OF begin_request_cases(1,2) [OF req True]] same
    show ?thesis by (simp add: frame(5) sameCodexLeaseSemantics_def)
  next
    case False
    from request_semantics [OF req False] obtain attempts current where
      q: "jr_request r1 = (jr_request ?input)\<lparr>cq_attempts := attempts, cq_current := current\<rparr>"
      by (simp add: frame(5))
    have "r1 = base\<lparr>jr_observed := now, jr_request := jr_request r1\<rparr>" using r1 by simp
    then have "sameCodexLeaseSemantics ?old r1 = sameCodexLeaseSemantics ?old ?input"
      by (subst \<open>r1 = _\<close>) (simp add: q frame(5) sameCodexLeaseSemantics_def)
    moreover have "sameCodexLeaseSemantics ?old (admitRecord generation r1 now) = sameCodexLeaseSemantics ?old r1"
      by (simp add: admitRecord_def sameCodexLeaseSemantics_def)
    ultimately show ?thesis using same by (simp add: r \<open>r2 = r1\<close>)
  qed
  with lease kept life u64_less_Suc show ?thesis by auto
qed

text \<open>
  Admission evidence is written once: an admitted record keeps every field of it under
  any later update, and an unadmitted one becomes admitted only with its current attempt
  streaming on an active lease for a turn or a compaction that counts, stamped with the
  generation of this very commit and reported to the caller for the lane's cache.
\<close>

theorem record_admission_evidence:
  assumes build: "buildCodexLeaseRecordAfterImage generation c now = Inr (r, appended, cache)"
    and exists: "ri_exists c"
  shows "(jr_admitted (ri_old c) \<longrightarrow> admissionEvidence r = admissionEvidence (ri_old c)) \<and>
    (admissionEvidence r \<noteq> admissionEvidence (ri_old c) \<longrightarrow>
       jr_state r = LeaseBoundActive \<and> codexLeaseCurrentAttemptState r = AttemptStreaming \<and>
       codexLeaseCurrentRequestCacheEligible r \<and> cache \<and>
       admissionEvidence r = (True, generation + 1, cq_generation (jr_request r),
         cq_kind (jr_request r), cq_phase (jr_request r), now))"
proof -
  from build obtain base r1 r2 where base: "existingRecordImage c = Inr base"
    and req: "requestAfterImage c (base\<lparr>jr_observed := now\<rparr>) now = Inr (r1, appended)"
    and pin: "pinIndeterminate c r1 = Inr r2" and r: "r = admitRecord generation r2 now"
    and cache: "cache = (firstAdmissionOf r2 \<or> bindingReassignment c)"
    by (rule record_image_cases) (simp add: exists)
  have "admissionEvidence r1 = admissionEvidence base"
    by (subst requestAfterImage_frame [OF req]) (simp add: admissionEvidence_def)
  moreover have "admissionEvidence r2 = admissionEvidence r1"
    by (subst pinIndeterminate_frame(1) [OF pin]) (simp add: admissionEvidence_def)
  moreover have "admissionEvidence base = admissionEvidence (ri_old c)"
    by (simp add: existingRecordImage_cases(5) [OF base] admissionEvidence_def)
  ultimately have same: "admissionEvidence r2 = admissionEvidence (ri_old c)" by simp
  show ?thesis
  proof (cases "firstAdmissionOf r2")
    case True
    then have "\<not> jr_admitted (ri_old c)"
      using same by (auto simp: firstAdmissionOf_def admissionEvidence_def)
    with True show ?thesis
      by (simp add: r cache admissionEvidence_def firstAdmissionOf_def)
        (simp add: admitRecord_def firstAdmissionOf_def)
  next
    case False
    with same show ?thesis by (simp add: r admitRecord_def)
  qed
qed

text \<open>Facts of the input that every accepted update carries over to the result.\<close>

lemma existing_image_fields:
  assumes build: "buildCodexLeaseRecordAfterImage generation c now = Inr (r, appended, cache)"
    and exists: "ri_exists c"
  shows "jr_account r = jr_account (ri_input c)" "jr_state r = jr_state (ri_input c)"
    "jr_has_encrypted r = jr_has_encrypted (ri_input c)" "jr_has_turn_state r = jr_has_turn_state (ri_input c)"
    "jr_non_migratable (ri_input c) \<Longrightarrow> jr_non_migratable r"
    "codexLeaseCurrentAttemptState r = AttemptIndeterminate \<Longrightarrow> jr_non_migratable r"
    "lifecycleChecks c = Inr ()" "continuationChecks c = Inr ()"
proof -
  from build obtain base r1 r2 where base: "existingRecordImage c = Inr base"
    and req: "requestAfterImage c (base\<lparr>jr_observed := now\<rparr>) now = Inr (r1, appended)"
    and pin: "pinIndeterminate c r1 = Inr r2" and r: "r = admitRecord generation r2 now"
    by (rule record_image_cases) (simp add: exists)
  note frame = existingRecordImage_cases [OF base] and r1 = requestAfterImage_frame [OF req]
    and r2 = pinIndeterminate_frame [OF pin]
  show "jr_account r = jr_account (ri_input c)" "jr_state r = jr_state (ri_input c)"
    "jr_has_encrypted r = jr_has_encrypted (ri_input c)" "jr_has_turn_state r = jr_has_turn_state (ri_input c)"
    unfolding r admitRecord_simps by (subst r2(1), subst r1, simp add: frame(5))+
  have nm: "jr_non_migratable r1 = jr_non_migratable (ri_input c)"
    by (subst r1) (simp add: frame(5))
  show "jr_non_migratable (ri_input c) \<Longrightarrow> jr_non_migratable r"
    using r2(2) by (simp add: r nm)
  have "codexLeaseCurrentAttemptState r2 = codexLeaseCurrentAttemptState r1"
    unfolding codexLeaseCurrentAttemptState_def by (subst r2(1), simp)+
  then show "codexLeaseCurrentAttemptState r = AttemptIndeterminate \<Longrightarrow> jr_non_migratable r"
    using r2(4) by (simp add: r)
  show "lifecycleChecks c = Inr ()" "continuationChecks c = Inr ()" by (rule frame)+
qed

text \<open>
  The account binding is authority: the account of an admitted record changes only when
  a dispatched attempt on another account of the same plan is admitted to streaming after an
  account became unavailable; a non-migratable record stays so unless a new request resets
  the binding; an indeterminate attempt always pins its record; encrypted continuation state
  is never cleared, turn state only by that reassignment.
\<close>

theorem record_account_binding:
  assumes build: "buildCodexLeaseRecordAfterImage generation c now = Inr (r, appended, cache)"
    and exists: "ri_exists c"
  shows "(jr_admitted (ri_old c) \<and>
       \<not> constantTimeCodexLeaseDigestEqual (jr_account (ri_old c)) (jr_account r) \<longrightarrow>
       codexLeaseAccountUnavailableAdmission (ri_old c) (ri_input c)) \<and>
    (jr_non_migratable (ri_old c) \<and> \<not> jr_non_migratable r \<longrightarrow>
       ri_begin c \<and> bindingResetOf (ri_old c) (ri_input c) (ri_affinity_reset c)) \<and>
    (codexLeaseCurrentAttemptState r = AttemptIndeterminate \<longrightarrow> jr_non_migratable r) \<and>
    (jr_has_encrypted (ri_old c) \<longrightarrow> jr_has_encrypted r) \<and>
    (jr_has_turn_state (ri_old c) \<and> \<not> jr_has_turn_state r \<longrightarrow>
       codexLeaseAccountUnavailableAdmission (ri_old c) (ri_input c))"
proof -
  note fields = existing_image_fields [OF build exists]
  from build obtain base where base: "existingRecordImage c = Inr base"
    by (rule record_image_cases) (simp add: exists)
  have reset: "jr_non_migratable (ri_old c) \<Longrightarrow> \<not> jr_non_migratable (ri_input c) \<Longrightarrow> bindingReset c"
    using fields(7) by (auto simp: lifecycleChecks_def Let_def andThen_failIf_iff)
  have kept: "jr_has_encrypted (ri_old c) \<Longrightarrow> jr_has_encrypted (ri_input c)"
    "jr_has_turn_state (ri_old c) \<Longrightarrow> \<not> jr_has_turn_state (ri_input c) \<Longrightarrow> bindingReassignment c"
    using fields(8) by (auto simp: continuationChecks_def Let_def andThen_failIf_iff)
  from existingRecordImage_cases(4) [OF base] reset kept fields(1-6) show ?thesis
    by (auto simp: bindingReset_def bindingReassignment_def)
qed

text \<open>
  The life of a lease on the durable side: an update that begins no request leaves the
  state, follows the transition table shared with the in-memory turn leases, supersedes an
  abandoned unadmitted head, or orphans a provisional lease whose one dispatched attempt has
  become indeterminate; a request begins only from a clean reservation or after the previous
  request ended and drained, and makes the lease provisional or, once admitted, active.
\<close>

theorem record_state_transitions:
  assumes build: "buildCodexLeaseRecordAfterImage generation c now = Inr (r, appended, cache)"
    and exists: "ri_exists c"
  shows "(\<not> ri_begin c \<longrightarrow>
      jr_state r = jr_state (ri_old c) \<or>
      validLeaseTransition (jr_state (ri_old c)) (jr_state r) \<or>
      jr_state r = LeaseSuperseded \<and> codexLeaseAbandonedUnadmittedHead (ri_old c) \<or>
      jr_state (ri_old c) = LeaseProvisional \<and> jr_state r = LeaseOrphaned \<and>
        codexLeaseCurrentAttemptState (ri_old c) = AttemptDispatched \<and> jr_non_migratable r \<and>
        codexLeaseCurrentAttemptState r = AttemptIndeterminate) \<and>
    (ri_begin c \<longrightarrow>
      jr_state r = (if jr_admitted (ri_old c) then LeaseBoundActive else LeaseProvisional) \<and>
      (jr_state (ri_old c) = LeaseReserving \<and> codexCurrentRequestIsZero (jr_request (ri_old c)) \<or>
       drained (jr_request (ri_old c)) \<and>
       codexLeaseAttemptTerminalForRequest (codexLeaseCurrentAttemptState (ri_old c)) \<and>
       jr_state (ri_old c) \<in> {LeaseContinuationPending, LeaseBoundQuiescent, LeaseOrphaned,
         LeaseProvisional, LeaseFailedUnadmitted}))"
proof -
  note fields = existing_image_fields [OF build exists]
  from build obtain base r1 r2 where base: "existingRecordImage c = Inr base"
    and req: "requestAfterImage c (base\<lparr>jr_observed := now\<rparr>) now = Inr (r1, appended)"
    and r: "r = admitRecord generation r2 now"
    and unc: "provisionalUncertaintyCheck c r2 = Inr ()"
    by (rule record_image_cases) (simp add: exists)
  show ?thesis
  proof (cases "ri_begin c")
    case True
    note b = begin_request_cases [OF req True]
    have "jr_state (base\<lparr>jr_observed := now\<rparr>) = jr_state (ri_input c)"
      by (simp add: existingRecordImage_cases(5) [OF base])
    with b(2) have state: "jr_state (ri_input c) =
        (if jr_admitted (ri_old c) then LeaseBoundActive else LeaseProvisional)"
      by (auto simp: beginRequestBinding_def Let_def andThen_failIf_iff)
    have "jr_state (ri_old c) = LeaseReserving \<and> codexCurrentRequestIsZero (jr_request (ri_old c)) \<or>
       drained (jr_request (ri_old c)) \<and>
       codexLeaseAttemptTerminalForRequest (codexLeaseCurrentAttemptState (ri_old c)) \<and>
       jr_state (ri_old c) \<in> {LeaseContinuationPending, LeaseBoundQuiescent, LeaseOrphaned,
         LeaseProvisional, LeaseFailedUnadmitted}"
      using b(1) by (auto simp: beginRequestGuards_def Let_def andThen_failIf_iff
        codexLeaseRestartableFailedHead_def split: if_splits)
    with state True show ?thesis by (simp add: fields(2))
  next
    case False
    have moved: "jr_state (ri_old c) = jr_state (ri_input c) \<or>
        validLeaseTransition (jr_state (ri_old c)) (jr_state (ri_input c)) \<or>
        jr_state (ri_input c) = LeaseSuperseded \<and> codexLeaseAbandonedUnadmittedHead (ri_old c) \<or>
        jr_state (ri_old c) = LeaseProvisional \<and> jr_state (ri_input c) = LeaseOrphaned"
      using fields(7) False by (auto simp: lifecycleChecks_def Let_def andThen_failIf_iff)
    have "codexLeaseCurrentAttemptState (ri_old c) = AttemptDispatched \<and> jr_non_migratable r \<and>
        codexLeaseCurrentAttemptState r = AttemptIndeterminate"
      if "jr_state (ri_old c) = LeaseProvisional" "jr_state r = LeaseOrphaned"
      using unc that exists unfolding r admitRecord_simps admitRecord_readers
      by (auto simp: provisionalUncertaintyCheck_def Let_def codexLeaseCurrentAttemptState_def
        split: option.splits)
    with moved False show ?thesis by (auto simp: fields(2))
  qed
qed

text \<open>
  Beginning a request: the store numbers it one above the last, without wrapping, and
  gives it exactly one prepared attempt, the first of the request, created now and current,
  on a slot inside the frozen plan; a bound request keeps its account.
\<close>

theorem record_begin_request:
  assumes build: "buildCodexLeaseRecordAfterImage generation c now = Inr (r, appended, cache)"
    and "ri_exists c" and "ri_begin c"
  shows "cq_generation (jr_request r) = cq_generation (jr_request (ri_old c)) + 1 \<and>
    cq_generation (jr_request (ri_old c)) < cq_generation (jr_request r) \<and> appended = 1 \<and>
    (\<exists>a. cq_attempts (jr_request r) = [a] \<and> cq_current (jr_request r) = at_generation a \<and>
       at_generation a = 1 \<and> at_revision a = 1 \<and> at_state a = AttemptPrepared \<and>
       at_created a = now \<and>
       (\<exists>account. slotAccount (cq_envelope (jr_request r)) (at_slot a) = Some account \<and>
          (jr_admitted (ri_old c) \<and> \<not> bindingReset c \<longrightarrow>
             constantTimeCodexLeaseDigestEqual account (jr_account r) \<and>
             constantTimeCodexLeaseDigestEqual (jr_account (ri_old c)) (jr_account r))))"
proof -
  note fields = existing_image_fields [OF build assms(2)]
  from build obtain base r1 r2 where base: "existingRecordImage c = Inr base"
    and req: "requestAfterImage c (base\<lparr>jr_observed := now\<rparr>) now = Inr (r1, appended)"
    and pin: "pinIndeterminate c r1 = Inr r2" and r: "r = admitRecord generation r2 now"
    by (rule record_image_cases) (simp add: assms(2))
  define d where "d = base\<lparr>jr_observed := now\<rparr>"
  note b = begin_request_cases [OF req assms(3), folded d_def]
  have d: "jr_account d = jr_account (ri_input c)" "jr_request d = jr_request (ri_input c)"
    "jr_state d = jr_state (ri_input c)" "jr_non_migratable d = jr_non_migratable (ri_input c)"
    by (simp_all add: d_def existingRecordImage_cases(5) [OF base])
  have resets: "bindingResetOf (ri_old c) d affinity = bindingResetOf (ri_old c) (ri_input c) affinity" for affinity
    by (simp add: bindingResetOf_def codexLeaseAccountUnavailableBeginRequest_def
      codexLeasePreTurnCompactionBeginRequest_def d)
  have q: "jr_request r = beginRequestImage (ri_old c) d now"
    unfolding r admitRecord_simps by (subst pinIndeterminate_frame(1) [OF pin]) (simp add: b)
  from b(1) have one: "length (cq_attempts (jr_request d)) = 1" "cq_generation (jr_request (ri_old c)) \<noteq> MaxUint64"
    by (auto simp: beginRequestGuards_def Let_def andThen_failIf_iff)
  from b(2) obtain account where
    attempt: "at_state (hd (cq_attempts (jr_request d))) = AttemptPrepared"
    and slot: "slotAccount (cq_envelope (jr_request d)) (at_slot (hd (cq_attempts (jr_request d)))) = Some account"
    and kept: "jr_admitted (ri_old c) \<Longrightarrow> \<not> bindingResetOf (ri_old c) d (ri_affinity_reset c) \<Longrightarrow>
      constantTimeCodexLeaseDigestEqual account (jr_account d) \<and>
      constantTimeCodexLeaseDigestEqual (jr_account (ri_old c)) (jr_account d)"
    by (auto simp: beginRequestBinding_def Let_def andThen_failIf_iff split: option.splits)
  have "jr_admitted (ri_old c) \<and> \<not> bindingReset c \<longrightarrow>
      constantTimeCodexLeaseDigestEqual account (jr_account r) \<and>
      constantTimeCodexLeaseDigestEqual (jr_account (ri_old c)) (jr_account r)"
    using kept by (simp add: bindingReset_def assms resets fields(1) d(1))
  with u64_less_Suc [OF one(2)] attempt slot b(4) show ?thesis
    by (simp add: q beginRequestImage_def)
qed

section \<open>A request that begins and is admitted\<close>

definition sampleAccountA :: string where "sampleAccountA = replicate 43 CHR ''A''"

definition sampleEnvelope :: attempt_envelope where
  "sampleEnvelope = \<lparr>ae_policy = 1, ae_digest = ''p'', ae_limit = 2,
     ae_slots = [\<lparr>sl_index = 1, sl_account = sampleAccountA, sl_candidate = ''c'', sl_kind = ''direct''\<rparr>]\<rparr>"

definition sampleReserving :: journal_record where
  "sampleReserving = zeroRecord\<lparr>jr_session := ''s'', jr_thread := ''t'', jr_namespace := ''n'',
     jr_turn := ''u'', jr_epoch := 1, jr_schema := 3, jr_auth := True, jr_generation := 1,
     jr_lease_generation := 1, jr_state := LeaseReserving\<rparr>"

definition sampleBeginInput :: record_input where
  "sampleBeginInput = \<lparr>ri_old = sampleReserving, ri_exists = True,
     ri_input = sampleReserving\<lparr>jr_state := LeaseProvisional, jr_account := sampleAccountA,
       jr_request := zeroRequest\<lparr>cq_kind := CodexRequestTurn, cq_envelope := sampleEnvelope,
         cq_routing_refs := 1,
         cq_attempts := [zeroAttempt\<lparr>at_slot := 1, at_state := AttemptPrepared\<rparr>]\<rparr>\<rparr>,
     ri_begin = True, ri_latch = False, ri_affinity_reset = False,
     ri_fence = zeroFence\<lparr>rf_attempts := [\<lparr>af_request = 0, af_generation = 0, af_revision = 0\<rparr>]\<rparr>\<rparr>"

definition sampleBegun :: "lease_error + journal_record \<times> u64 \<times> bool" where
  "sampleBegun = buildCodexLeaseRecordAfterImage 5 sampleBeginInput sampleTime"

lemma sampleBegun_ok: "sampleBegun = Inr (fst (projr sampleBegun), 1, False)"
  by code_simp

definition sampleDispatched :: journal_record where
  "sampleDispatched = (fst (projr sampleBegun))\<lparr>jr_request :=
     (jr_request (fst (projr sampleBegun)))\<lparr>cq_attempts :=
       [zeroAttempt\<lparr>at_generation := 1, at_revision := 2, at_slot := 1, at_state := AttemptDispatched\<rparr>]\<rparr>\<rparr>"

definition sampleAdmissionInput :: record_input where
  "sampleAdmissionInput = \<lparr>ri_old = sampleDispatched, ri_exists = True,
     ri_input = sampleDispatched\<lparr>jr_state := LeaseBoundActive,
       jr_request := (jr_request sampleDispatched)\<lparr>cq_attempts :=
         [zeroAttempt\<lparr>at_generation := 1, at_revision := 2, at_slot := 1, at_state := AttemptStreaming\<rparr>]\<rparr>\<rparr>,
     ri_begin = False, ri_latch = False, ri_affinity_reset = False,
     ri_fence = zeroFence\<lparr>rf_attempts := [\<lparr>af_request = 1, af_generation = 1, af_revision = 2\<rparr>]\<rparr>\<rparr>"

definition sampleAdmitted :: "lease_error + journal_record \<times> u64 \<times> bool" where
  "sampleAdmitted = buildCodexLeaseRecordAfterImage 6 sampleAdmissionInput sampleTime"

lemma sampleAdmitted_ok: "sampleAdmitted = Inr (fst (projr sampleAdmitted), 0, True)"
  by code_simp

lemma sampleAdmission_exists: "ri_exists sampleAdmissionInput"
  by (simp add: sampleAdmissionInput_def)

definition sampleLostInput :: record_input where
  "sampleLostInput = \<lparr>ri_old = fst (projr sampleAdmitted), ri_exists = True,
     ri_input = (fst (projr sampleAdmitted))\<lparr>jr_state := LeaseOrphaned,
       jr_request := (jr_request (fst (projr sampleAdmitted)))\<lparr>cq_attempts :=
         [zeroAttempt\<lparr>at_generation := 1, at_revision := 3, at_slot := 1, at_state := AttemptIndeterminate\<rparr>]\<rparr>\<rparr>,
     ri_begin = False, ri_latch = False, ri_affinity_reset = False,
     ri_fence = zeroFence\<lparr>rf_attempts := [\<lparr>af_request = 1, af_generation = 1, af_revision = 3\<rparr>]\<rparr>\<rparr>"

definition sampleLost :: "lease_error + journal_record \<times> u64 \<times> bool" where
  "sampleLost = buildCodexLeaseRecordAfterImage 7 sampleLostInput sampleTime"

lemma sampleLost_ok: "sampleLost = Inr (fst (projr sampleLost), 0, False)"
  "ri_exists sampleLostInput"
  by code_simp (simp add: sampleLostInput_def)

theorem record_after_image_versions_witness:
  "jr_generation (fst (projr sampleAdmitted)) = jr_generation sampleDispatched + 1"
  using record_after_image_versions [OF sampleAdmitted_ok [unfolded sampleAdmitted_def] sampleAdmission_exists]
  by (simp add: sampleAdmissionInput_def sampleAdmitted_def)

theorem record_admission_evidence_witness:
  "jr_admission_generation (fst (projr sampleAdmitted)) = 7 \<and> \<not> jr_admitted sampleDispatched"
proof -
  have new: "jr_admission_generation (fst (projr sampleAdmitted)) \<noteq> 0 \<and>
      jr_admission_generation sampleDispatched = 0 \<and> \<not> jr_admitted sampleDispatched" by code_simp
  then have "admissionEvidence (fst (projr sampleAdmitted)) \<noteq> admissionEvidence (ri_old sampleAdmissionInput)"
    by (auto simp: admissionEvidence_def sampleAdmissionInput_def)
  with record_admission_evidence [OF sampleAdmitted_ok [unfolded sampleAdmitted_def] sampleAdmission_exists] new
  show ?thesis by (simp add: sampleAdmitted_def admissionEvidence_def)
qed

theorem record_account_binding_witness:
  "\<not> jr_non_migratable (ri_input sampleLostInput) \<and> jr_non_migratable (fst (projr sampleLost))"
proof
  have "codexLeaseCurrentAttemptState (fst (projr sampleLost)) = AttemptIndeterminate" by code_simp
  then show "jr_non_migratable (fst (projr sampleLost))"
    using record_account_binding [OF sampleLost_ok(1) [unfolded sampleLost_def] sampleLost_ok(2)]
    by (simp add: sampleLost_def)
qed code_simp

theorem record_state_transitions_witness:
  "validLeaseTransition (jr_state sampleDispatched) (jr_state (fst (projr sampleAdmitted)))"
proof -
  have moved: "jr_state (fst (projr sampleAdmitted)) = LeaseBoundActive \<and>
      jr_state sampleDispatched = LeaseProvisional" by code_simp
  have input: "\<not> ri_begin sampleAdmissionInput" "ri_old sampleAdmissionInput = sampleDispatched"
    by (simp_all add: sampleAdmissionInput_def)
  from record_state_transitions [OF sampleAdmitted_ok [unfolded sampleAdmitted_def] sampleAdmission_exists]
    moved input show ?thesis by (simp add: sampleAdmitted_def)
qed

theorem record_begin_request_witness:
  "cq_generation (jr_request (fst (projr sampleBegun))) = 1"
proof -
  have input: "ri_exists sampleBeginInput" "ri_begin sampleBeginInput"
    "cq_generation (jr_request (ri_old sampleBeginInput)) = 0" by code_simp+
  from record_begin_request [OF sampleBegun_ok [unfolded sampleBegun_def] input(1,2)] input(3)
  show ?thesis by (simp add: sampleBegun_def)
qed

end
