(* ===== verification/LeaseRetention.thy ===== *)
theory LeaseRetention
  imports LeaseRecord
begin

text \<open>
  The retention sweep of the journal (\<open>internal/proxy/codex_lease_v2_retention.go\<close>): records
  idle longer than the retention are deleted when their lease has ended and expired
  otherwise, predecessors wait for their successors, and a lane that keeps any record keeps
  its last-turn anchor.
\<close>

section \<open>The action of one record\<close>

datatype retention_action = RetentionKeep | RetentionDelete | RetentionExpire

definition codexLeaseRetentionActionFor :: "journal_record \<Rightarrow> gotime \<Rightarrow> int \<Rightarrow> retention_action" where
  "codexLeaseRetentionActionFor r now retention =
     (let q = jr_request r in
      if cq_routing_refs q > 0 \<or> cq_attempt_refs q > 0 \<or> cq_observer_refs q > 0 \<or>
        \<not> jr_extinct r \<or> after (jr_observed r) now \<or> timeSub now (jr_observed r) \<le> retention
      then RetentionKeep
      else if jr_state r \<in> {LeaseBoundQuiescent, LeaseOrphaned, LeaseSuperseded, LeaseExpired,
        LeaseFailedUnadmitted}
      then RetentionDelete else RetentionExpire)"

definition attemptInFlight :: "journal_attempt \<Rightarrow> bool" where
  "attemptInFlight a \<longleftrightarrow> at_state a \<in> {AttemptPrepared, AttemptDispatched, AttemptStreaming}"

fun expireAttempts :: "gotime \<Rightarrow> journal_attempt list \<Rightarrow> lease_error + journal_attempt list" where
  "expireAttempts now [] = Inr []"
| "expireAttempts now (a # as) =
     (if attemptInFlight a then
        andThen (failIf (at_revision a = MaxUint64) (ErrInvalidMutation ''attempt revision overflow''))
          (\<lambda>_. andThen (expireAttempts now as) (\<lambda>rest.
            Inr (a\<lparr>at_state := AttemptIndeterminate, at_revision := at_revision a + 1,
              at_observed := monotonicCodexLeaseTime now (at_observed a)\<rparr> # rest)))
      else andThen (expireAttempts now as) (\<lambda>rest. Inr (a # rest)))"

definition expireCodexLeaseRecord :: "journal_record \<Rightarrow> gotime \<Rightarrow> lease_error + journal_record" where
  "expireCodexLeaseRecord r now =
     andThen (failIf (jr_generation r = MaxUint64 \<or> jr_lease_generation r = MaxUint64)
       (ErrInvalidMutation ''record generation overflow'')) (\<lambda>_.
     andThen (expireAttempts now (cq_attempts (jr_request r))) (\<lambda>attempts.
     Inr (r\<lparr>jr_state := (if jr_state r = LeaseReserving then LeaseFailedUnadmitted else LeaseExpired),
       jr_non_migratable := (jr_non_migratable r \<or> (\<exists>a \<in> set (cq_attempts (jr_request r)). attemptInFlight a)),
       jr_generation := jr_generation r + 1,
       jr_lease_generation := jr_lease_generation r + 1,
       jr_extinct := True,
       jr_request := (jr_request r)\<lparr>cq_attempts := attempts, cq_routing_refs := 0,
         cq_attempt_refs := 0, cq_observer_refs := 0\<rparr>,
       jr_observed := monotonicCodexLeaseTime now (jr_observed r)\<rparr>)))"

section \<open>The sweep of an envelope\<close>

text \<open>
  The Go map of actions; a key that was never assigned reads as \<open>RetentionKeep\<close>, the zero
  value.
\<close>

type_synonym retention_actions = "record_identity \<Rightarrow> retention_action"

definition initialActions :: "crypto \<Rightarrow> gotime \<Rightarrow> int \<Rightarrow> journal_record list \<Rightarrow> retention_actions" where
  "initialActions cr now retention rs =
     foldl (\<lambda>m r. m(Identity cr r := codexLeaseRetentionActionFor r now retention))
       (\<lambda>_. RetentionKeep) rs"

definition keepPredecessor :: "crypto \<Rightarrow> retention_actions \<Rightarrow> journal_record \<Rightarrow> retention_actions" where
  "keepPredecessor cr m r =
     (if m (Identity cr r) = RetentionDelete \<or> jr_pred_turn r = [] then m
      else if m (predecessorIdentity cr r) = RetentionExpire
      then m(predecessorIdentity cr r := RetentionKeep) else m)"

definition laneSurvives :: "crypto \<Rightarrow> retention_actions \<Rightarrow> journal_record list \<Rightarrow> string \<Rightarrow> bool" where
  "laneSurvives cr m rs lane \<longleftrightarrow>
     (\<exists>r \<in> set rs. ri_lane (Identity cr r) = lane \<and> m (Identity cr r) \<noteq> RetentionDelete)"

definition keepAnchor :: "crypto \<Rightarrow> (string \<Rightarrow> bool) \<Rightarrow> retention_actions \<Rightarrow> journal_lane \<Rightarrow> retention_actions"
  where
  "keepAnchor cr survives m lane =
     (let last = codexLaneTupleIdentity cr lane False in
      if \<not> survives (laneDigestOf cr lane) then m
      else if m last = RetentionDelete then m(last := RetentionKeep) else m)"

definition retentionActions :: "crypto \<Rightarrow> gotime \<Rightarrow> int \<Rightarrow> journal \<Rightarrow> retention_actions" where
  "retentionActions cr now retention j =
     (let m = foldl (keepPredecessor cr) (initialActions cr now retention (jn_records j)) (jn_records j)
      in foldl (keepAnchor cr (laneSurvives cr m (jn_records j))) m (jn_lanes j))"

fun sweepRecords :: "crypto \<Rightarrow> gotime \<Rightarrow> retention_actions \<Rightarrow> journal_record list \<Rightarrow>
    lease_error + journal_record list" where
  "sweepRecords cr now m [] = Inr []"
| "sweepRecords cr now m (r # rs) =
     (case m (Identity cr r) of
        RetentionDelete \<Rightarrow> sweepRecords cr now m rs
      | RetentionExpire \<Rightarrow> andThen (expireCodexLeaseRecord r now) (\<lambda>r'.
          andThen (sweepRecords cr now m rs) (\<lambda>rest. Inr (r' # rest)))
      | RetentionKeep \<Rightarrow> andThen (sweepRecords cr now m rs) (\<lambda>rest. Inr (r # rest)))"

definition transitioned :: "crypto \<Rightarrow> retention_actions \<Rightarrow> journal_record list \<Rightarrow> record_identity \<Rightarrow> bool"
  where
  "transitioned cr m rs i \<longleftrightarrow> (\<exists>r \<in> set rs. Identity cr r = i) \<and> m i = RetentionExpire"

definition sweepLane :: "crypto \<Rightarrow> gotime \<Rightarrow> (record_identity \<Rightarrow> bool) \<Rightarrow> (string \<Rightarrow> bool) \<Rightarrow>
    journal_lane \<Rightarrow> lease_error + journal_lane" where
  "sweepLane cr now expired expiredIn lane =
     (if expired (codexLaneTupleIdentity cr lane True) then
        andThen (failIf (ln_generation lane = MaxUint64)
          (ErrInvalidMutation ''lane generation overflow'')) (\<lambda>_.
        Inr (lane\<lparr>ln_generation := ln_generation lane + 1, ln_current_turn := [],
          ln_current_epoch := 0, ln_current_auth := False,
          ln_observed_at := monotonicCodexLeaseTime now (ln_observed_at lane)\<rparr>))
      else if expiredIn (laneDigestOf cr lane)
      then Inr (lane\<lparr>ln_observed_at := monotonicCodexLeaseTime now (ln_observed_at lane)\<rparr>)
      else Inr lane)"

text \<open>
  The lanes that keep a record, swept; and the new generations of the lanes whose current
  record expired, by lane digest (the last of equal digests counts).
\<close>

fun sweepLanes :: "crypto \<Rightarrow> gotime \<Rightarrow> (record_identity \<Rightarrow> bool) \<Rightarrow> (string \<Rightarrow> bool) \<Rightarrow>
    (string \<Rightarrow> bool) \<Rightarrow> journal_lane list \<Rightarrow> lease_error + journal_lane list" where
  "sweepLanes cr now expired expiredIn hasRecord [] = Inr []"
| "sweepLanes cr now expired expiredIn hasRecord (l # ls) =
     (if \<not> hasRecord (laneDigestOf cr l) then sweepLanes cr now expired expiredIn hasRecord ls
      else andThen (sweepLane cr now expired expiredIn l) (\<lambda>l'.
        andThen (sweepLanes cr now expired expiredIn hasRecord ls) (\<lambda>rest. Inr (l' # rest))))"

definition updatedLaneGeneration :: "crypto \<Rightarrow> (record_identity \<Rightarrow> bool) \<Rightarrow> (string \<Rightarrow> bool) \<Rightarrow>
    journal_lane list \<Rightarrow> string \<Rightarrow> u64 option" where
  "updatedLaneGeneration cr expired hasRecord lanes digest =
     map_option (\<lambda>l. ln_generation l + 1)
       (find (\<lambda>l. laneDigestOf cr l = digest \<and> hasRecord digest \<and>
          expired (codexLaneTupleIdentity cr l True)) (rev lanes))"

definition stampLaneGeneration :: "crypto \<Rightarrow> (record_identity \<Rightarrow> bool) \<Rightarrow> (string \<Rightarrow> u64 option) \<Rightarrow>
    journal_record \<Rightarrow> journal_record" where
  "stampLaneGeneration cr expired updated r =
     (case updated (ri_lane (Identity cr r)) of
        None \<Rightarrow> r
      | Some g \<Rightarrow> if expired (Identity cr r) then r\<lparr>jr_lane_generation := g\<rparr> else r)"

definition compactCodexLeaseV2Envelope ::
  "crypto \<Rightarrow> journal \<Rightarrow> gotime \<Rightarrow> int \<Rightarrow> lease_error + journal \<times> bool" where
  "compactCodexLeaseV2Envelope cr next now retention =
     (let rs = jn_records next;
          m = retentionActions cr now retention next;
          expired = transitioned cr m rs in
      andThen (sweepRecords cr now m rs) (\<lambda>kept.
      let hasRecord = (\<lambda>d. \<exists>r \<in> set kept. ri_lane (Identity cr r) = d);
          expiredIn = (\<lambda>d. \<exists>r \<in> set kept. ri_lane (Identity cr r) = d \<and> expired (Identity cr r))
      in andThen (sweepLanes cr now expired expiredIn hasRecord (jn_lanes next)) (\<lambda>lanes.
      Inr (next\<lparr>jn_records := map (stampLaneGeneration cr expired
            (updatedLaneGeneration cr expired hasRecord (jn_lanes next))) kept,
          jn_lanes := lanes\<rparr>,
        (\<exists>r \<in> set rs. m (Identity cr r) \<noteq> RetentionKeep) \<or>
        (\<exists>l \<in> set (jn_lanes next). \<not> hasRecord (laneDigestOf cr l) \<or>
           expired (codexLaneTupleIdentity cr l True))))))"

definition compactCodexLeaseV2Locked ::
  "crypto \<Rightarrow> journal \<Rightarrow> gotime \<Rightarrow> int \<Rightarrow> lease_error + journal \<times> bool" where
  "compactCodexLeaseV2Locked cr v2 now retention =
     andThen (failIf (jn_generation v2 = MaxUint64)
       (ErrInvalidMutation ''journal generation overflow'')) (\<lambda>_.
     compactCodexLeaseV2Envelope cr v2 now retention)"

section \<open>What the actions are\<close>

lemma foldl_fun_upd_distinct:
  assumes "distinct (map k rs)"
  shows "foldl (\<lambda>m r. m(k r := f r)) m0 rs i =
    (case find (\<lambda>r. k r = i) rs of None \<Rightarrow> m0 i | Some r \<Rightarrow> f r)"
  using assms
proof (induction rs arbitrary: m0)
  case (Cons r rs)
  then have "find (\<lambda>x. k x = k r) rs = None" by (auto simp: find_None_iff image_iff)
  with Cons show ?case by auto
qed simp

lemma find_distinct_key:
  assumes "distinct (map k rs)" and "r \<in> set rs"
  shows "find (\<lambda>x. k x = k r) rs = Some r"
  using assms by (induction rs) (auto simp: image_iff)

lemma initialActions_at:
  assumes "distinct (map (Identity cr) rs)" and "r \<in> set rs"
  shows "initialActions cr now retention rs (Identity cr r) = codexLeaseRetentionActionFor r now retention"
  unfolding initialActions_def
  by (subst foldl_fun_upd_distinct [OF assms(1)]) (simp add: find_distinct_key [OF assms])

text \<open>The later passes only turn an action into keeping.\<close>

definition weakened :: "retention_actions \<Rightarrow> retention_actions \<Rightarrow> bool" where
  "weakened m m' \<longleftrightarrow> (\<forall>i. m' i = m i \<or> m' i = RetentionKeep)"

lemma weakened_trans: "weakened m m' \<Longrightarrow> weakened m' m'' \<Longrightarrow> weakened m m''"
  unfolding weakened_def by metis

lemma weakened_foldl:
  assumes "\<And>m x. weakened m (f m x)"
  shows "weakened m (foldl f m xs)"
proof (induction xs arbitrary: m)
  case Nil
  then show ?case by (simp add: weakened_def)
next
  case (Cons x xs)
  show ?case using weakened_trans [OF assms Cons.IH] by simp
qed

lemma weakened_passes:
  "weakened m (keepPredecessor cr m r)" "weakened m (keepAnchor cr survives m lane)"
  by (simp_all add: weakened_def keepPredecessor_def keepAnchor_def Let_def)

lemma retentionActions_weakened:
  "weakened (initialActions cr now retention (jn_records j)) (retentionActions cr now retention j)"
proof -
  let ?m = "foldl (keepPredecessor cr) (initialActions cr now retention (jn_records j)) (jn_records j)"
  have "weakened (initialActions cr now retention (jn_records j)) ?m"
    by (rule weakened_foldl) (rule weakened_passes)
  moreover have "weakened ?m (retentionActions cr now retention j)"
    unfolding retentionActions_def Let_def by (rule weakened_foldl) (rule weakened_passes)
  ultimately show ?thesis by (rule weakened_trans)
qed

lemma retentionActions_at:
  assumes "distinct (map (Identity cr) (jn_records j))" and "r \<in> set (jn_records j)"
  shows "retentionActions cr now retention j (Identity cr r) = RetentionKeep \<or>
    retentionActions cr now retention j (Identity cr r) = codexLeaseRetentionActionFor r now retention"
  using retentionActions_weakened [of cr now retention j]
    initialActions_at [OF assms, of now retention]
  unfolding weakened_def by metis

section \<open>What the sweep keeps\<close>

lemma sweepRecords_keeps:
  assumes "sweepRecords cr now m rs = Inr kept" and "r \<in> set rs" and "m (Identity cr r) = RetentionKeep"
  shows "r \<in> set kept"
  using assms by (induction rs arbitrary: kept) (auto simp: andThen_Inr_iff split: retention_action.splits)

lemma sweepRecords_origin:
  assumes "sweepRecords cr now m rs = Inr kept" and "r' \<in> set kept"
  shows "\<exists>r \<in> set rs. m (Identity cr r) = RetentionKeep \<and> r' = r \<or>
    m (Identity cr r) = RetentionExpire \<and> expireCodexLeaseRecord r now = Inr r'"
  using assms
  by (induction rs arbitrary: kept) (fastforce simp: andThen_Inr_iff split: retention_action.splits)+

lemma sweepRecords_survivor:
  assumes "sweepRecords cr now m rs = Inr kept" and "r \<in> set rs" and "m (Identity cr r) \<noteq> RetentionDelete"
  shows "\<exists>r' \<in> set kept. r' = r \<or> expireCodexLeaseRecord r now = Inr r'"
  using assms
  by (induction rs arbitrary: kept) (fastforce simp: andThen_Inr_iff split: retention_action.splits)+

lemma expire_image:
  assumes "expireCodexLeaseRecord r now = Inr r'"
  shows "jr_session r' = jr_session r" "jr_thread r' = jr_thread r" "jr_namespace r' = jr_namespace r"
    "jr_turn r' = jr_turn r" "jr_epoch r' = jr_epoch r" "jr_auth r' = jr_auth r"
    "jr_account r' = jr_account r" "admissionEvidence r' = admissionEvidence r"
    "jr_state r' = (if jr_state r = LeaseReserving then LeaseFailedUnadmitted else LeaseExpired)"
    "drained (jr_request r')" "jr_extinct r'"
    "jr_generation r' = jr_generation r + 1" "jr_generation r < jr_generation r'"
    "jr_observed r' = monotonicCodexLeaseTime now (jr_observed r)"
    "jr_non_migratable r' \<longleftrightarrow> jr_non_migratable r \<or>
       (\<exists>a \<in> set (cq_attempts (jr_request r)). attemptInFlight a)"
    "expireAttempts now (cq_attempts (jr_request r)) = Inr (cq_attempts (jr_request r'))"
  using assms by (auto simp: expireCodexLeaseRecord_def andThen_Inr_iff drained_def admissionEvidence_def
    intro: u64_less_Suc)

lemma expire_identity: "expireCodexLeaseRecord r now = Inr r' \<Longrightarrow> Identity cr r' = Identity cr r"
  by (simp add: Identity_def expire_image)

lemma stamp_identity [simp]: "Identity cr (stampLaneGeneration cr e u r) = Identity cr r"
  by (simp add: stampLaneGeneration_def Identity_def split: option.split)

definition attempt_expired :: "journal_attempt \<Rightarrow> journal_attempt \<Rightarrow> bool" where
  "attempt_expired a b \<longleftrightarrow> (if attemptInFlight a
     then at_state b = AttemptIndeterminate \<and> at_generation b = at_generation a \<and>
       at_revision b = at_revision a + 1 \<and> at_revision a < at_revision b \<and> at_slot b = at_slot a
     else b = a)"

lemma expireAttempts_image:
  "expireAttempts now as = Inr bs \<Longrightarrow> list_all2 attempt_expired as bs"
  by (induction as arbitrary: bs)
    (auto simp: andThen_Inr_iff attempt_expired_def intro: u64_less_Suc split: if_splits)

lemma compact_cases:
  assumes "compactCodexLeaseV2Envelope cr next now retention = Inr (next', changed)"
  obtains kept expired updated hasRecord expiredIn where
    "sweepRecords cr now (retentionActions cr now retention next) (jn_records next) = Inr kept"
    "expired = transitioned cr (retentionActions cr now retention next) (jn_records next)"
    "jn_records next' = map (stampLaneGeneration cr expired updated) kept"
    "sweepLanes cr now expired expiredIn hasRecord (jn_lanes next) = Inr (jn_lanes next')"
    "hasRecord = (\<lambda>d. \<exists>r \<in> set kept. ri_lane (Identity cr r) = d)"
proof -
  let ?m = "retentionActions cr now retention next"
  from assms obtain kept where kept: "sweepRecords cr now ?m (jn_records next) = Inr kept"
    by (auto simp: compactCodexLeaseV2Envelope_def Let_def andThen_Inr_iff)
  show thesis
    by (rule that [OF kept refl _ _ refl])
      (use assms kept in \<open>auto simp: compactCodexLeaseV2Envelope_def Let_def andThen_Inr_iff\<close>)
qed

lemma expired_action:
  "transitioned cr m rs i \<Longrightarrow> m i = RetentionExpire"
  by (simp add: transitioned_def)

definition recordLive :: "journal_record \<Rightarrow> gotime \<Rightarrow> int \<Rightarrow> bool" where
  "recordLive r now retention \<longleftrightarrow> cq_routing_refs (jr_request r) > 0 \<or> cq_attempt_refs (jr_request r) > 0 \<or>
     cq_observer_refs (jr_request r) > 0 \<or> \<not> jr_extinct r \<or> after (jr_observed r) now \<or>
     timeSub now (jr_observed r) \<le> retention"

lemma action_iff:
  "codexLeaseRetentionActionFor r now retention = RetentionKeep \<longleftrightarrow> recordLive r now retention"
  "codexLeaseRetentionActionFor r now retention = RetentionDelete \<longleftrightarrow>
     \<not> recordLive r now retention \<and> jr_state r \<in> {LeaseBoundQuiescent, LeaseOrphaned,
       LeaseSuperseded, LeaseExpired, LeaseFailedUnadmitted}"
  by (auto simp: codexLeaseRetentionActionFor_def recordLive_def Let_def)

text \<open>
  C25. The sweep never touches work in progress: a record with an outstanding reference, a
  living socket lineage or an observation within the retention stays in the journal exactly
  as it was; a record disappears only when it is idle and its lease has ended.
\<close>

theorem retention_keeps_live:
  assumes sweep: "compactCodexLeaseV2Envelope cr next now retention = Inr (next', changed)"
    and dist: "distinct (map (Identity cr) (jn_records next))" and r: "r \<in> set (jn_records next)"
  shows "(recordLive r now retention \<longrightarrow> r \<in> set (jn_records next')) \<and>
    (Identity cr r \<notin> Identity cr ` set (jn_records next') \<longrightarrow>
       \<not> recordLive r now retention \<and> jr_state r \<in> {LeaseBoundQuiescent, LeaseOrphaned,
         LeaseSuperseded, LeaseExpired, LeaseFailedUnadmitted})"
proof -
  let ?m = "retentionActions cr now retention next"
  from compact_cases [OF sweep] obtain kept expired updated where
    kept: "sweepRecords cr now ?m (jn_records next) = Inr kept"
    and expired: "expired = transitioned cr ?m (jn_records next)"
    and records: "jn_records next' = map (stampLaneGeneration cr expired updated) kept" by metis
  note at = retentionActions_at [OF dist r, of now retention]
  have "r \<in> set (jn_records next')" if "recordLive r now retention"
  proof -
    have keep: "?m (Identity cr r) = RetentionKeep" using at that by (auto simp: action_iff)
    then have "stampLaneGeneration cr expired updated r = r"
      by (auto simp: stampLaneGeneration_def expired dest: expired_action split: option.split)
    with sweepRecords_keeps [OF kept r keep] show ?thesis unfolding records by force
  qed
  moreover have "codexLeaseRetentionActionFor r now retention = RetentionDelete"
    if gone: "Identity cr r \<notin> Identity cr ` set (jn_records next')"
  proof (rule ccontr)
    assume "codexLeaseRetentionActionFor r now retention \<noteq> RetentionDelete"
    with at have "?m (Identity cr r) \<noteq> RetentionDelete" by auto
    from sweepRecords_survivor [OF kept r this] obtain r' where "r' \<in> set kept" "Identity cr r' = Identity cr r"
      by (auto dest: expire_identity)
    with gone show False unfolding records by (force simp: image_iff)
  qed
  ultimately show ?thesis by (auto simp: action_iff)
qed

text \<open>
  The sweep invents nothing: every record after it is a record from before, unchanged or
  expired once. Expiry happens only to an idle record whose lease has not ended, ends it,
  drains it, turns every attempt in flight into an indeterminate one with one revision more,
  pins the record if there was such an attempt, and keeps account and admission evidence.
\<close>

theorem retention_expires_idle:
  assumes sweep: "compactCodexLeaseV2Envelope cr next now retention = Inr (next', changed)"
    and dist: "distinct (map (Identity cr) (jn_records next))" and r': "r' \<in> set (jn_records next')"
  shows "\<exists>r \<in> set (jn_records next). Identity cr r' = Identity cr r \<and> (r' = r \<or>
    \<not> recordLive r now retention \<and>
    jr_state r \<notin> {LeaseBoundQuiescent, LeaseOrphaned, LeaseSuperseded, LeaseExpired, LeaseFailedUnadmitted} \<and>
    jr_state r' = (if jr_state r = LeaseReserving then LeaseFailedUnadmitted else LeaseExpired) \<and>
    drained (jr_request r') \<and> jr_extinct r' \<and> jr_generation r' = jr_generation r + 1 \<and>
    jr_generation r < jr_generation r' \<and> jr_account r' = jr_account r \<and>
    admissionEvidence r' = admissionEvidence r \<and>
    list_all2 attempt_expired (cq_attempts (jr_request r)) (cq_attempts (jr_request r')) \<and>
    (jr_non_migratable r' \<longleftrightarrow> jr_non_migratable r \<or>
       (\<exists>a \<in> set (cq_attempts (jr_request r)). attemptInFlight a)))"
proof -
  let ?m = "retentionActions cr now retention next"
  from compact_cases [OF sweep] obtain kept expired updated where
    kept: "sweepRecords cr now ?m (jn_records next) = Inr kept"
    and expired: "expired = transitioned cr ?m (jn_records next)"
    and records: "jn_records next' = map (stampLaneGeneration cr expired updated) kept" by metis
  from r' obtain k where k: "k \<in> set kept" and stamp: "r' = stampLaneGeneration cr expired updated k"
    unfolding records by auto
  from sweepRecords_origin [OF kept k] obtain r where r: "r \<in> set (jn_records next)"
    and cases: "?m (Identity cr r) = RetentionKeep \<and> k = r \<or>
      ?m (Identity cr r) = RetentionExpire \<and> expireCodexLeaseRecord r now = Inr k" by auto
  have id: "Identity cr r' = Identity cr r" using cases by (auto simp: stamp dest: expire_identity)
  show ?thesis
  proof (cases "?m (Identity cr r) = RetentionKeep")
    case True
    with cases have "k = r" by auto
    with True have "r' = r"
      by (auto simp: stamp stampLaneGeneration_def expired dest: expired_action split: option.split)
    with r show ?thesis by blast
  next
    case False
    with cases have e: "expireCodexLeaseRecord r now = Inr k" and m: "?m (Identity cr r) = RetentionExpire"
      by auto
    from retentionActions_at [OF dist r, of now retention] m
    have act: "codexLeaseRetentionActionFor r now retention = RetentionExpire" by simp
    have old: "\<not> recordLive r now retention"
      "jr_state r \<notin> {LeaseBoundQuiescent, LeaseOrphaned, LeaseSuperseded, LeaseExpired, LeaseFailedUnadmitted}"
      using act action_iff [of r now retention] by auto
    have same: "jr_state r' = jr_state k" "jr_request r' = jr_request k" "jr_extinct r' = jr_extinct k"
      "jr_generation r' = jr_generation k" "jr_account r' = jr_account k"
      "jr_non_migratable r' = jr_non_migratable k" "admissionEvidence r' = admissionEvidence k"
      by (simp_all add: stamp stampLaneGeneration_def admissionEvidence_def split: option.split)
    note image = expire_image [OF e]
    show ?thesis
      by (rule bexI [OF _ r], rule conjI [OF id], rule disjI2)
        (unfold same, intro conjI old image(7-13,15) expireAttempts_image [OF image(16)])
  qed
qed

lemma sweepLanes_origin:
  assumes "sweepLanes cr now expired expiredIn hasRecord lanes = Inr lanes'" and "l' \<in> set lanes'"
  shows "\<exists>l \<in> set lanes. hasRecord (laneDigestOf cr l) \<and> sweepLane cr now expired expiredIn l = Inr l'"
  using assms by (induction lanes arbitrary: lanes') (fastforce simp: andThen_Inr_iff split: if_splits)+

lemma sweepLane_image:
  assumes "sweepLane cr now expired expiredIn l = Inr l'"
  shows "laneDigestOf cr l' = laneDigestOf cr l"
    "codexLaneTupleIdentity cr l' False = codexLaneTupleIdentity cr l False"
    "codexLaneTupleIdentity cr l' True = (if expired (codexLaneTupleIdentity cr l True)
       then zeroIdentity else codexLaneTupleIdentity cr l True)"
  using assms by (auto simp: sweepLane_def andThen_failIf_iff laneDigestOf_def codexLaneTupleIdentity_def
    Let_def split: if_splits)

text \<open>The last pass over the lanes: what it makes of a lane that survived the second.\<close>

lemma keepAnchors_spec:
  assumes "lane \<in> set lanes" and "survives (laneDigestOf cr lane)"
  shows "foldl (keepAnchor cr survives) m lanes (codexLaneTupleIdentity cr lane False) \<noteq> RetentionDelete"
  using assms
proof (induction lanes arbitrary: m)
  case (Cons l lanes)
  have weak: "weakened m' (foldl (keepAnchor cr survives) m' lanes)" for m'
    by (rule weakened_foldl) (rule weakened_passes)
  show ?case
  proof (cases "lane = l")
    case True
    then have "keepAnchor cr survives m l (codexLaneTupleIdentity cr lane False) \<noteq> RetentionDelete"
      using Cons.prems(2) by (simp add: keepAnchor_def Let_def)
    with weak [of "keepAnchor cr survives m l"] show ?thesis
      unfolding weakened_def by (metis foldl_Cons retention_action.distinct(1))
  next
    case False
    with Cons show ?thesis by simp
  qed
qed simp

lemma keepAnchors_changes:
  "foldl (keepAnchor cr survives) m lanes i \<noteq> m i \<Longrightarrow>
   \<exists>l \<in> set lanes. survives (laneDigestOf cr l) \<and> i = codexLaneTupleIdentity cr l False"
proof (induction lanes arbitrary: m)
  case (Cons l lanes)
  let ?m = "keepAnchor cr survives m l"
  have one: "?m i = m i \<or> survives (laneDigestOf cr l) \<and> i = codexLaneTupleIdentity cr l False"
    by (simp add: keepAnchor_def Let_def)
  show ?case
  proof (cases "foldl (keepAnchor cr survives) ?m lanes i = ?m i")
    case True
    with Cons.prems one show ?thesis by simp
  next
    case False
    from Cons.IH [OF this] show ?thesis by simp
  qed
qed simp

lemma tupleIdentity_lane:
  "codexLaneTupleIdentity cr l b \<noteq> zeroIdentity \<Longrightarrow> ri_lane (codexLaneTupleIdentity cr l b) = laneDigestOf cr l"
  by (simp add: codexLaneTupleIdentity_def Let_def split: if_splits)

lemma Identity_nonzero: "jr_turn r \<noteq> [] \<Longrightarrow> Identity cr r \<noteq> zeroIdentity"
  by (simp add: Identity_def zeroIdentity_def)

text \<open>
  Every lane after the sweep is a lane from before that still holds a record; its last
  pointer is unchanged and, if it named a stored record, still does; its current pointer is
  unchanged or cleared, and cleared when its record expired.
\<close>

theorem retention_keeps_anchor:
  assumes sweep: "compactCodexLeaseV2Envelope cr next now retention = Inr (next', changed)"
    and turns: "\<forall>r \<in> set (jn_records next). jr_turn r \<noteq> []" and l': "l' \<in> set (jn_lanes next')"
  shows "(\<exists>r' \<in> set (jn_records next'). ri_lane (Identity cr r') = laneDigestOf cr l') \<and>
    (\<exists>l \<in> set (jn_lanes next). laneDigestOf cr l = laneDigestOf cr l' \<and>
      codexLaneTupleIdentity cr l' False = codexLaneTupleIdentity cr l False \<and>
      (codexLaneTupleIdentity cr l False \<in> Identity cr ` set (jn_records next) \<longrightarrow>
         codexLaneTupleIdentity cr l' False \<in> Identity cr ` set (jn_records next')) \<and>
      codexLaneTupleIdentity cr l' True \<in> {zeroIdentity, codexLaneTupleIdentity cr l True})"
proof -
  let ?rs = "jn_records next"
  define m where "m = foldl (keepPredecessor cr) (initialActions cr now retention ?rs) ?rs"
  let ?s = "laneSurvives cr m ?rs"
  have final: "retentionActions cr now retention next = foldl (keepAnchor cr ?s) m (jn_lanes next)"
    by (simp add: retentionActions_def m_def Let_def)
  let ?m = "retentionActions cr now retention next"
  obtain kept expired updated hasRecord expiredIn where
    kept: "sweepRecords cr now ?m ?rs = Inr kept"
    and "expired = transitioned cr ?m ?rs"
    and records: "jn_records next' = map (stampLaneGeneration cr expired updated) kept"
    and lanes: "sweepLanes cr now expired expiredIn hasRecord (jn_lanes next) = Inr (jn_lanes next')"
    and has: "hasRecord = (\<lambda>d. \<exists>r \<in> set kept. ri_lane (Identity cr r) = d)"
    by (rule compact_cases [OF sweep])
  from sweepLanes_origin [OF lanes l'] obtain l where l: "l \<in> set (jn_lanes next)"
    "hasRecord (laneDigestOf cr l)" "sweepLane cr now expired expiredIn l = Inr l'" by auto
  note image = sweepLane_image [OF l(3)]
  have ids: "Identity cr ` set (jn_records next') = Identity cr ` set kept"
    by (auto simp: records image_image)
  from l(2) obtain k where k: "k \<in> set kept" "ri_lane (Identity cr k) = laneDigestOf cr l"
    by (auto simp: has)
  from sweepRecords_origin [OF kept k(1)] obtain r where r: "r \<in> set ?rs" "Identity cr r = Identity cr k"
    "?m (Identity cr r) \<noteq> RetentionDelete"
    using expire_identity by (metis retention_action.distinct(1,5))
  have survives: "?s (laneDigestOf cr l)"
  proof (cases "m (Identity cr r) = RetentionDelete")
    case False
    with r k(2) show ?thesis unfolding laneSurvives_def by metis
  next
    case True
    with r(3) final have "foldl (keepAnchor cr ?s) m (jn_lanes next) (Identity cr r) \<noteq> m (Identity cr r)" by simp
    from keepAnchors_changes [OF this] obtain l2 where l2: "?s (laneDigestOf cr l2)"
      "Identity cr r = codexLaneTupleIdentity cr l2 False" by auto
    have "Identity cr r \<noteq> zeroIdentity" using turns r(1) by (simp add: Identity_nonzero)
    with l2(2) have "ri_lane (Identity cr r) = laneDigestOf cr l2" by (simp add: tupleIdentity_lane)
    with l2(1) r(2) k(2) show ?thesis by simp
  qed
  have "codexLaneTupleIdentity cr l False \<in> Identity cr ` set (jn_records next')"
    if "codexLaneTupleIdentity cr l False \<in> Identity cr ` set ?rs"
  proof -
    from that obtain a where a: "a \<in> set ?rs" "Identity cr a = codexLaneTupleIdentity cr l False" by auto
    with keepAnchors_spec [OF l(1), of ?s cr m] survives final
    have "?m (Identity cr a) \<noteq> RetentionDelete" by simp
    from sweepRecords_survivor [OF kept a(1) this] obtain a' where "a' \<in> set kept" "Identity cr a' = Identity cr a"
      by (auto dest: expire_identity)
    with a(2) show ?thesis unfolding ids by (metis imageI)
  qed
  moreover have "\<exists>r' \<in> set (jn_records next'). ri_lane (Identity cr r') = laneDigestOf cr l'"
    using k image(1) by (auto simp: records)
  ultimately show ?thesis
    by (intro conjI bexI [OF _ l(1)]) (simp_all add: image)
qed

section \<open>A lane swept twice\<close>

text \<open>
  A sample of the primitives for evaluation: SHA-256 is replaced by the length of its input,
  which keeps the lanes of the samples apart.
\<close>

definition sampleCrypto :: crypto where
  "sampleCrypto = \<lparr>cr_sha256 = (\<lambda>s. [of_nat (length s)]), cr_hmac = (\<lambda>_. [])\<rparr>"

definition sampleLane :: journal_lane where
  "sampleLane = zeroLane\<lparr>ln_session := ''s'', ln_thread := ''t'', ln_namespace := ''n'', ln_generation := 1,
     ln_current_turn := ''u'', ln_current_epoch := 1, ln_current_auth := True, ln_last_turn := ''u'',
     ln_last_epoch := 1, ln_last_auth := True\<rparr>"

definition sampleEnded :: journal_record where
  "sampleEnded = sampleReserving\<lparr>jr_turn := ''o'', jr_state := LeaseSuperseded, jr_extinct := True\<rparr>"

definition sampleIdle :: journal_record where
  "sampleIdle = sampleReserving\<lparr>jr_state := LeaseContinuationPending, jr_extinct := True,
     jr_request := zeroRequest\<lparr>cq_attempts := [zeroAttempt\<lparr>at_generation := 1, at_state := AttemptStreaming\<rparr>]\<rparr>\<rparr>"

definition sampleLive :: journal_record where
  "sampleLive = sampleReserving\<lparr>jr_turn := ''v''\<rparr>"

definition sampleCutover :: lease_cutover where
  "sampleCutover = \<lparr>cu_source_version = 1, cu_compatibility_epoch = 4, cu_state = ''complete'',
     cu_at = zeroTime, cu_journal_generation = 1, cu_authoritative_epochs = [1], cu_shadow_epochs = [],
     cu_quarantine_until = zeroTime, cu_legacy_sha256 = [], cu_completed_at = zeroTime,
     cu_completion_generation = 1, cu_no_legacy_authority = True\<rparr>"

definition sampleJournal :: journal where
  "sampleJournal = \<lparr>jn_events = [], jn_version = 3, jn_hash_version = 1, jn_generation = 7,
     jn_invalidation = 0, jn_cutover = sampleCutover, jn_lanes = [sampleLane],
     jn_records = [sampleEnded, sampleIdle, sampleLive], jn_mac = []\<rparr>"

definition sampleSweep :: "lease_error + journal \<times> bool" where
  "sampleSweep = compactCodexLeaseV2Envelope sampleCrypto sampleJournal (GoTime 100 True) 10"

lemma sampleSweep_ok: "sampleSweep = Inr (fst (projr sampleSweep), True)"
  by code_simp

lemma sampleSweep_facts:
  "distinct (map (Identity sampleCrypto) (jn_records sampleJournal))"
  "list_all (\<lambda>r. jr_turn r \<noteq> []) (jn_records sampleJournal)"
  "jr_turn (jn_records (fst (projr sampleSweep)) ! 0) = ''u''"
  "length (jn_records (fst (projr sampleSweep))) = 2"
  "jn_lanes (fst (projr sampleSweep)) \<noteq> []"
  by code_simp+

theorem retention_keeps_live_witness:
  "sampleLive \<in> set (jn_records (fst (projr sampleSweep)))"
proof -
  have "recordLive sampleLive (GoTime 100 True) 10" by code_simp
  moreover have "sampleLive \<in> set (jn_records sampleJournal)" by (simp add: sampleJournal_def)
  ultimately show ?thesis
    using retention_keeps_live [OF sampleSweep_ok [unfolded sampleSweep_def] sampleSweep_facts(1)]
    by (simp add: sampleSweep_def)
qed

theorem retention_expires_idle_witness:
  "Identity sampleCrypto (hd (jn_records (fst (projr sampleSweep)))) \<in>
     Identity sampleCrypto ` set (jn_records sampleJournal)"
proof -
  have "hd (jn_records (fst (projr sampleSweep))) \<in> set (jn_records (fst (projr sampleSweep)))"
    using sampleSweep_facts(4) by (intro hd_in_set) auto
  from retention_expires_idle [OF sampleSweep_ok [unfolded sampleSweep_def] sampleSweep_facts(1)
      this [unfolded sampleSweep_def]]
  show ?thesis by (auto simp: sampleSweep_def)
qed

theorem retention_keeps_anchor_witness:
  "\<exists>r \<in> set (jn_records (fst (projr sampleSweep))). ri_lane (Identity sampleCrypto r) =
     laneDigestOf sampleCrypto (hd (jn_lanes (fst (projr sampleSweep))))"
proof -
  have "hd (jn_lanes (fst (projr sampleSweep))) \<in> set (jn_lanes (fst (projr sampleSweep)))"
    by (intro hd_in_set sampleSweep_facts)
  moreover have "\<forall>r \<in> set (jn_records sampleJournal). jr_turn r \<noteq> []"
    using sampleSweep_facts(2) by (simp add: list_all_iff)
  ultimately show ?thesis
    using retention_keeps_anchor [OF sampleSweep_ok [unfolded sampleSweep_def]]
    by (simp add: sampleSweep_def)
qed

end
