(* ===== verification/LeaseMutation.thy ===== *)
theory LeaseMutation
  imports LeaseRetention
begin

text \<open>
  The first half of \<open>applyCodexLaneMutationLocked\<close> (\<open>internal/proxy/codex_lease_v2_cas.go\<close>):
  what a lane mutation may say, the optimistic fences it must carry, and the after-images of
  the records it upserts. The Go maps from identities to indices are lookups in the lists
  they index; a map the code only fills is the list of what it inserted.
\<close>

section \<open>Lookups\<close>

definition lookupRecord :: "crypto \<Rightarrow> journal_record list \<Rightarrow> record_identity \<Rightarrow> journal_record option" where
  "lookupRecord cr rs i = find (\<lambda>r. Identity cr r = i) rs"

text \<open>\<open>records[recordIndex[id]]\<close>, where a missing key reads as index zero.\<close>

definition recordAt :: "crypto \<Rightarrow> journal_record list \<Rightarrow> record_identity \<Rightarrow> journal_record" where
  "recordAt cr rs i = (case lookupRecord cr rs i of Some r \<Rightarrow> r
     | None \<Rightarrow> (case rs of [] \<Rightarrow> zeroRecord | r # _ \<Rightarrow> r))"

definition lookupLane :: "crypto \<Rightarrow> journal_lane list \<Rightarrow> string \<Rightarrow> journal_lane option" where
  "lookupLane cr ls d = find (\<lambda>l. laneDigestOf cr l = d) ls"

definition replaceRecord ::
  "crypto \<Rightarrow> record_identity \<Rightarrow> journal_record \<Rightarrow> journal_record list \<Rightarrow> journal_record list" where
  "replaceRecord cr i result rs = map (\<lambda>r. if Identity cr r = i then result else r) rs"

definition named :: "record_identity option \<Rightarrow> record_identity" where
  "named x = (case x of None \<Rightarrow> zeroIdentity | Some i \<Rightarrow> i)"

section \<open>What a mutation may say\<close>

fun indexRecords :: "crypto \<Rightarrow> record_identity list \<Rightarrow> journal_record list \<Rightarrow> lease_error + unit" where
  "indexRecords cr seen [] = Inr ()"
| "indexRecords cr seen (r # rs) =
     andThen (failIf (Identity cr r = zeroIdentity) (ErrTrustLost ''zero stored record identity'')) (\<lambda>_.
     andThen (failIf (Identity cr r \<in> set seen) (ErrTrustLost ''duplicate stored record identity'')) (\<lambda>_.
     indexRecords cr (Identity cr r # seen) rs))"

fun indexLanes :: "crypto \<Rightarrow> string list \<Rightarrow> journal_lane list \<Rightarrow> lease_error + unit" where
  "indexLanes cr seen [] = Inr ()"
| "indexLanes cr seen (l # ls) =
     andThen (failIf (laneDigestOf cr l = codexJournalLaneDigest cr [] [] [] \<or>
         ln_session l = [] \<or> ln_thread l = [] \<or> ln_namespace l = [])
       (ErrTrustLost ''invalid stored lane identity'')) (\<lambda>_.
     andThen (failIf (laneDigestOf cr l \<in> set seen) (ErrTrustLost ''duplicate stored lane identity'')) (\<lambda>_.
     indexLanes cr (laneDigestOf cr l # seen) ls))"

definition ownedRecord :: "journal_record \<Rightarrow> bool" where
  "ownedRecord r \<longleftrightarrow> jr_generation r \<noteq> 0 \<or> jr_lane_generation r \<noteq> 0 \<or> jr_pred_generation r \<noteq> 0 \<or>
     jr_lease_generation r \<noteq> 0 \<or> \<not> isZeroTime (jr_created r) \<or> \<not> isZeroTime (jr_observed r) \<or>
     jr_admitted r \<or> jr_admission_generation r \<noteq> 0 \<or> jr_admission_request r \<noteq> 0 \<or>
     jr_admission_kind r \<noteq> [] \<or> jr_admission_phase r \<noteq> [] \<or> \<not> isZeroTime (jr_admitted_at r)"

definition ownedAttempt :: "journal_attempt \<Rightarrow> bool" where
  "ownedAttempt a \<longleftrightarrow> at_revision a \<noteq> 0 \<or> \<not> isZeroTime (at_created a) \<or> \<not> isZeroTime (at_observed a)"

definition validateCodexLaneMutationOwnedFields :: "lane_mutation \<Rightarrow> lease_error + unit" where
  "validateCodexLaneMutationOwnedFields m =
     andThen (failIf (case lm_lane m of None \<Rightarrow> False | Some l \<Rightarrow> ln_generation l \<noteq> 0 \<or>
         \<not> isZeroTime (ln_observed_at l) \<or> \<not> codexLaneAffinityIsZero l \<or>
         ln_unavailable l \<noteq> [] \<or> ln_exhausted l \<noteq> [])
       (ErrInvalidMutation ''caller supplied lane generation/timestamp'')) (\<lambda>_.
     forE (\<lambda>r.
       andThen (failIf (ownedRecord r) (ErrInvalidMutation ''caller supplied record generation/timestamp'')) (\<lambda>_.
       forE (\<lambda>a. failIf (ownedAttempt a) (ErrInvalidMutation ''caller supplied attempt revision/timestamp''))
         (cq_attempts (jr_request r)))) (lm_upserts m))"

definition acceptTarget :: "string \<Rightarrow> string \<Rightarrow> lease_error + string" where
  "acceptTarget target digest =
     (if digest = [] then Inl (ErrInvalidMutation ''empty target lane'')
      else if target = [] then Inr digest
      else if target \<noteq> digest then Inl (ErrInvalidMutation ''one mutation spans multiple lanes'')
      else Inr target)"

definition codexLaneMutationTarget :: "crypto \<Rightarrow> lane_mutation \<Rightarrow> lease_error + string" where
  "codexLaneMutationTarget cr m =
     andThen (failIf (case lm_lane m of None \<Rightarrow> False
         | Some l \<Rightarrow> ln_session l = [] \<or> ln_thread l = [] \<or> ln_namespace l = [])
       (ErrInvalidMutation ''incomplete lane identity'')) (\<lambda>_.
     andThen (foldE acceptTarget []
       ((case lm_lane m of None \<Rightarrow> [] | Some l \<Rightarrow> [laneDigestOf cr l]) @
        (case lm_cycle m of None \<Rightarrow> [] | Some i \<Rightarrow> [ri_lane i]) @
        map (\<lambda>r. ri_lane (Identity cr r)) (lm_upserts m) @ map ri_lane (lm_deletes m))) (\<lambda>target.
     andThen (failIf (target = []) (ErrInvalidMutation ''mutation has no target lane'')) (\<lambda>_.
     Inr target)))"

text \<open>The sole upsert a named operation may carry.\<close>

definition soleUpsert :: "crypto \<Rightarrow> lane_mutation \<Rightarrow> record_identity \<Rightarrow> bool" where
  "soleUpsert cr m i \<longleftrightarrow> (case lm_upserts m of [r] \<Rightarrow> Identity cr r = i | _ \<Rightarrow> False) \<and>
     lm_deletes m = [] \<and> lm_lane m = None"

definition checkNamedOperations :: "crypto \<Rightarrow> lane_mutation \<Rightarrow> string \<Rightarrow> lease_error + unit" where
  "checkNamedOperations cr m target =
     andThen (case lm_begin m of None \<Rightarrow> Inr () | Some i \<Rightarrow>
       failIf (i = zeroIdentity \<or> ri_lane i \<noteq> target \<or> \<not> soleUpsert cr m i)
         (ErrInvalidMutation ''BeginRequest must name its sole existing record upsert'')) (\<lambda>_.
     andThen (case lm_latch m of None \<Rightarrow> Inr () | Some i \<Rightarrow>
       failIf (i = zeroIdentity \<or> i \<noteq> named (lm_begin m))
         (ErrInvalidMutation ''turn-state latch migration must name BeginRequest record'')) (\<lambda>_.
     andThen (case lm_unavailable m of None \<Rightarrow> Inr () | Some i \<Rightarrow>
       failIf (i = zeroIdentity \<or> ri_lane i \<noteq> target \<or> \<not> soleUpsert cr m i \<or> lm_begin m \<noteq> None)
         (ErrInvalidMutation ''account unavailability must name its sole existing record upsert'')) (\<lambda>_.
     andThen (case lm_exhausted m of None \<Rightarrow> Inr () | Some i \<Rightarrow>
       failIf (i = zeroIdentity \<or> i \<noteq> named (lm_unavailable m))
         (ErrInvalidMutation ''quota exhaustion must name its sole existing record upsert'')) (\<lambda>_.
     (case lm_cycle m of None \<Rightarrow> Inr () | Some i \<Rightarrow>
       failIf (i = zeroIdentity \<or> ri_lane i \<noteq> target \<or> lm_upserts m \<noteq> [] \<or> lm_deletes m \<noteq> [] \<or>
           lm_lane m \<noteq> None \<or> lm_begin m \<noteq> None \<or> lm_unavailable m \<noteq> None \<or> lm_exhausted m \<noteq> None)
         (ErrInvalidMutation ''unavailable cycle completion must name one current record''))))))"

section \<open>Fences\<close>

definition codexLaneCurrentIdentity ::
  "crypto \<Rightarrow> journal_lane \<Rightarrow> journal_record list \<Rightarrow> lease_error + record_identity" where
  "codexLaneCurrentIdentity cr lane rs =
     (let i = codexLaneTupleIdentity cr lane True in
      if i \<noteq> zeroIdentity \<and> lookupRecord cr rs i = None
      then Inl (ErrTrustLost ''lane current record missing'') else Inr i)"

definition codexLaneLastIdentity ::
  "crypto \<Rightarrow> journal_lane \<Rightarrow> journal_record list \<Rightarrow> lease_error + record_identity" where
  "codexLaneLastIdentity cr lane rs =
     (let i = codexLaneTupleIdentity cr lane False in
      if i \<noteq> zeroIdentity \<and> lookupRecord cr rs i = None
      then Inl (ErrTrustLost ''lane last record missing'') else Inr i)"

definition laneFence :: "generation_fence \<Rightarrow> journal_lane option \<Rightarrow> record_identity \<Rightarrow> record_identity \<Rightarrow>
    lease_error + unit" where
  "laneFence expected lane currentId lastId =
     (case lane of
        None \<Rightarrow> failIf (gf_lane expected \<noteq> 0 \<or> gf_current expected \<noteq> zeroIdentity \<or>
            gf_last expected \<noteq> zeroIdentity) (ErrStaleMutation ''lane_absence'')
      | Some l \<Rightarrow>
          if gf_lane expected \<noteq> ln_generation l then Inl (ErrStaleMutation ''lane_generation'')
          else if gf_current expected \<noteq> currentId then Inl (ErrStaleMutation ''lane_current'')
          else if gf_last expected \<noteq> lastId then Inl (ErrStaleMutation ''lane_last'')
          else Inr ())"

definition checkRecordFence :: "record_fence \<Rightarrow> journal_record option \<Rightarrow> lease_error + unit" where
  "checkRecordFence f stored =
     (case stored of
        None \<Rightarrow>
          if rf_revision f \<noteq> 0 \<or> rf_lease f \<noteq> 0 \<or> rf_request f \<noteq> 0 \<or> rf_current f \<noteq> 0
          then Inl (ErrStaleMutation ''record_absence'')
          else failIf (\<exists>a \<in> set (rf_attempts f). af_generation a \<noteq> 0 \<or> af_revision a \<noteq> 0)
            (ErrStaleMutation ''attempt_absence'')
      | Some r \<Rightarrow>
          if jr_generation r \<noteq> rf_revision f then Inl (ErrStaleMutation ''record_revision'')
          else if jr_lease_generation r \<noteq> rf_lease f then Inl (ErrStaleMutation ''lease_generation'')
          else if cq_generation (jr_request r) \<noteq> rf_request f
          then Inl (ErrStaleMutation ''request_generation'')
          else if cq_current (jr_request r) \<noteq> rf_current f then Inl (ErrStaleMutation ''current_attempt'')
          else Inr ())"

fun checkRecordFences ::
  "crypto \<Rightarrow> journal_record list \<Rightarrow> record_identity list \<Rightarrow> record_fence list \<Rightarrow> lease_error + unit" where
  "checkRecordFences cr rs seen [] = Inr ()"
| "checkRecordFences cr rs seen (f # fs) =
     andThen (failIf (rf_record f = zeroIdentity) (ErrInvalidMutation ''zero record fence identity'')) (\<lambda>_.
     andThen (failIf (rf_record f \<in> set seen) (ErrInvalidMutation ''duplicate record fence'')) (\<lambda>_.
     andThen (checkRecordFence f (lookupRecord cr rs (rf_record f))) (\<lambda>_.
     checkRecordFences cr rs (rf_record f # seen) fs)))"

text \<open>The map it returns is read by \<open>fenceFor\<close>: its keys are those of the list, without duplicates.\<close>

definition validateCodexLeaseRecordFences ::
  "crypto \<Rightarrow> record_fence list \<Rightarrow> journal_record list \<Rightarrow> lease_error + unit" where
  "validateCodexLeaseRecordFences cr fences rs = checkRecordFences cr rs [] fences"

definition fenceFor :: "record_fence list \<Rightarrow> record_identity \<Rightarrow> record_fence" where
  "fenceFor fences i = (case find (\<lambda>f. rf_record f = i) fences of None \<Rightarrow> zeroFence | Some f \<Rightarrow> f)"

definition predecessorInLane :: "string \<Rightarrow> journal_record \<Rightarrow> record_identity" where
  "predecessorInLane target r = RecordIdentity target (jr_pred_turn r) (jr_pred_epoch r) (jr_pred_auth r)"

definition fencedIdentities :: "string \<Rightarrow> record_identity \<Rightarrow> journal_record \<Rightarrow> record_identity list" where
  "fencedIdentities target i r = i # (if jr_pred_turn r \<noteq> [] then [predecessorInLane target r] else [])"

fun checkUpserts :: "crypto \<Rightarrow> string \<Rightarrow> record_identity list \<Rightarrow> journal_record list \<Rightarrow> lease_error + unit" where
  "checkUpserts cr target seen [] = Inr ()"
| "checkUpserts cr target seen (r # rs) =
     (let i = Identity cr r in
      andThen (failIf (i = zeroIdentity \<or> ri_lane i \<noteq> target)
        (ErrInvalidMutation ''upsert record is outside target lane'')) (\<lambda>_.
      andThen (failIf (i \<in> set seen) (ErrInvalidMutation ''duplicate record upsert'')) (\<lambda>_.
      checkUpserts cr target (i # seen) rs)))"

fun checkDeletes :: "string \<Rightarrow> record_identity list \<Rightarrow> record_identity list \<Rightarrow> record_identity list \<Rightarrow>
    lease_error + unit" where
  "checkDeletes target upserts seen [] = Inr ()"
| "checkDeletes target upserts seen (i # is) =
     andThen (failIf (i = zeroIdentity \<or> ri_lane i \<noteq> target)
       (ErrInvalidMutation ''deletion is outside target lane'')) (\<lambda>_.
     andThen (failIf (i \<in> set seen) (ErrInvalidMutation ''duplicate record deletion'')) (\<lambda>_.
     andThen (failIf (i \<in> set upserts) (ErrInvalidMutation ''record cannot be upserted and deleted'')) (\<lambda>_.
     checkDeletes target upserts (i # seen) is)))"

abbreviation upsertIds :: "crypto \<Rightarrow> lane_mutation \<Rightarrow> record_identity list" where
  "upsertIds cr m \<equiv> map (Identity cr) (lm_upserts m)"

definition requiredFences :: "crypto \<Rightarrow> lane_mutation \<Rightarrow> string \<Rightarrow> journal_record list \<Rightarrow> record_identity list"
  where
  "requiredFences cr m target rs =
     (case lm_cycle m of None \<Rightarrow> [] | Some i \<Rightarrow> fencedIdentities target i (recordAt cr rs i)) @
     concat (map (\<lambda>r. fencedIdentities target (Identity cr r) r) (lm_upserts m)) @ lm_deletes m"

definition narrowTransition :: "journal_record \<Rightarrow> journal_record \<Rightarrow> bool" where
  "narrowTransition old input \<longleftrightarrow> (jr_state old = LeaseProvisional \<and> jr_state input = LeaseOrphaned) \<or>
     (case (requestCurrentAttempt (jr_request old),
         codexLeaseAttemptByGeneration (cq_attempts (jr_request input)) (cq_current (jr_request old))) of
        (Some a, Some b) \<Rightarrow> at_state a = AttemptPrepared \<and> at_state b = AttemptAbandonedBeforeDispatch
      | _ \<Rightarrow> False)"

definition checkNarrow :: "crypto \<Rightarrow> lane_mutation \<Rightarrow> journal_record list \<Rightarrow> lease_error + unit" where
  "checkNarrow cr m rs = forE (\<lambda>input.
     case lookupRecord cr rs (Identity cr input) of None \<Rightarrow> Inr () | Some old \<Rightarrow>
       failIf (narrowTransition old input \<and>
           (length (lm_upserts m) \<noteq> 1 \<or> lm_deletes m \<noteq> [] \<or> lm_lane m \<noteq> None))
         (ErrInvalidMutation ''narrow terminal transition must be the sole record mutation''))
     (lm_upserts m)"

definition checkCycle :: "crypto \<Rightarrow> lane_mutation \<Rightarrow> journal_lane \<Rightarrow> record_fence list \<Rightarrow>
    journal_record list \<Rightarrow> lease_error + unit" where
  "checkCycle cr m lane fences rs =
     (case lm_cycle m of None \<Rightarrow> Inr () | Some i \<Rightarrow>
        let r = recordAt cr rs i in
        failIf (\<not> jr_admitted r \<or> jr_state r \<noteq> LeaseBoundQuiescent \<or>
            codexLeaseCurrentAttemptState r \<noteq> AttemptAccountUnavailable \<or> \<not> drained (jr_request r) \<or>
            \<not> jr_extinct r \<or> ln_unavailable lane = [] \<or>
            \<not> codexLeaseExactCurrentAttemptFence (fenceFor fences i) r)
          (ErrInvalidMutation ''unavailable cycle is not terminal and surfaced''))"

definition checkTouched :: "crypto \<Rightarrow> generation_fence \<Rightarrow> lane_mutation \<Rightarrow> string \<Rightarrow> journal_record list \<Rightarrow>
    lease_error + unit" where
  "checkTouched cr expected m target rs =
     (let fences = gf_records expected; required = requiredFences cr m target rs in
      andThen (validateCodexLeaseRecordFences cr fences rs) (\<lambda>_.
      andThen (checkUpserts cr target [] (lm_upserts m)) (\<lambda>_.
      andThen (checkDeletes target (upsertIds cr m) [] (lm_deletes m)) (\<lambda>_.
      andThen (checkNarrow cr m rs) (\<lambda>_.
      andThen (failIf (\<not> set required \<subseteq> rf_record ` set fences)
        (ErrInvalidMutation ''missing fence for touched record'')) (\<lambda>_.
      failIf (\<not> rf_record ` set fences \<subseteq> set required)
        (ErrInvalidMutation ''unrelated record fence'')))))))"

definition checkDeletions :: "crypto \<Rightarrow> lane_mutation \<Rightarrow> journal_record list \<Rightarrow> gotime \<Rightarrow> int \<Rightarrow>
    lease_error + unit" where
  "checkDeletions cr m rs now retention = forE (\<lambda>i.
     failIf (case lookupRecord cr rs i of None \<Rightarrow> True
         | Some r \<Rightarrow> codexLeaseRetentionActionFor r now retention \<noteq> RetentionDelete)
       (ErrInvalidMutation ''record deletion is not retention-eligible'')) (lm_deletes m)"

section \<open>What an upsert does to the lane\<close>

definition codexLeaseCurrentRequestCacheRefreshEligible :: "journal_record \<Rightarrow> journal_record \<Rightarrow> bool" where
  "codexLeaseCurrentRequestCacheRefreshEligible old result \<longleftrightarrow>
     codexLeaseCurrentRequestCacheEligible result \<or>
     (jr_admitted old \<and> jr_admitted result \<and> cq_kind (jr_request result) = CodexRequestCompaction \<and>
      cq_phase (jr_request result) = CodexCompactionMidTurn \<and>
      constantTimeCodexLeaseDigestEqual (jr_account old) (jr_account result))"

text \<open>The states of the current attempt before and after, where both requests have it.\<close>

definition currentMove :: "journal_record \<Rightarrow> journal_record \<Rightarrow> (journal_attempt \<times> journal_attempt) option" where
  "currentMove old result =
     (if cq_generation (jr_request old) \<noteq> cq_generation (jr_request result) \<or>
        cq_current (jr_request old) = 0 \<or> cq_current (jr_request old) \<noteq> cq_current (jr_request result)
      then None
      else case (requestCurrentAttempt (jr_request old), requestCurrentAttempt (jr_request result)) of
        (Some a, Some b) \<Rightarrow> Some (a, b) | _ \<Rightarrow> None)"

definition codexLeaseCacheAdmission :: "journal_record option \<Rightarrow> journal_record \<Rightarrow> bool" where
  "codexLeaseCacheAdmission old result \<longleftrightarrow>
     (case old of None \<Rightarrow> False | Some prior \<Rightarrow>
        codexLeaseCurrentRequestCacheRefreshEligible prior result \<and>
        (case currentMove prior result of None \<Rightarrow> False
         | Some (a, b) \<Rightarrow> at_state a = AttemptDispatched \<and> at_state b = AttemptStreaming))"

definition codexLeaseAccountUnavailableTransitionHash ::
  "journal_record option \<Rightarrow> journal_record \<Rightarrow> lease_error + string" where
  "codexLeaseAccountUnavailableTransitionHash old result =
     (case old of
        None \<Rightarrow> Inl (ErrInvalidMutation ''account unavailability lacks current request authority'')
      | Some prior \<Rightarrow>
          let q = jr_request prior in
          if cq_generation q = 0 \<or> cq_generation q \<noteq> cq_generation (jr_request result) \<or> cq_current q = 0
          then Inl (ErrInvalidMutation ''account unavailability lacks current request authority'')
          else case (requestCurrentAttempt q,
              codexLeaseAttemptByGeneration (cq_attempts (jr_request result)) (cq_current q)) of
            (Some a, Some b) \<Rightarrow>
              (case slotAccount (cq_envelope q) (at_slot a) of
                 Some account \<Rightarrow>
                   if at_state a = AttemptAccountUnavailable \<or> at_state b \<noteq> AttemptAccountUnavailable
                   then Inl (ErrInvalidMutation ''account unavailability is not an exact current-attempt transition'')
                   else Inr account
               | None \<Rightarrow> Inl (ErrInvalidMutation ''account unavailability is not an exact current-attempt transition''))
          | _ \<Rightarrow> Inl (ErrInvalidMutation ''account unavailability is not an exact current-attempt transition''))"

definition codexLeaseRequestCompleted :: "journal_record option \<Rightarrow> journal_record \<Rightarrow> bool" where
  "codexLeaseRequestCompleted old result \<longleftrightarrow>
     (case old of None \<Rightarrow> False | Some prior \<Rightarrow> cq_generation (jr_request prior) \<noteq> 0 \<and>
        (case currentMove prior result of None \<Rightarrow> False
         | Some (a, b) \<Rightarrow> at_state a = AttemptStreaming \<and> at_state b = AttemptProviderCompleted))"

definition codexLeaseQuotaProbeRecoveryHash :: "journal_record option \<Rightarrow> journal_record \<Rightarrow> string option" where
  "codexLeaseQuotaProbeRecoveryHash old result =
     (case old of None \<Rightarrow> None | Some prior \<Rightarrow>
        if \<not> cq_quota_probe (jr_request prior) \<or> cq_generation (jr_request prior) = 0 then None
        else case currentMove prior result of None \<Rightarrow> None
          | Some (a, b) \<Rightarrow>
              if at_state a = AttemptStreaming \<and> at_state b = AttemptProviderCompleted
              then slotAccount (cq_envelope (jr_request prior)) (at_slot a) else None)"

section \<open>The loop over the upserts\<close>

record commit_scan =
  cs_records :: "journal_record list"
  cs_appended :: "(record_identity \<times> u64) list"
  cs_first :: "(record_identity \<times> journal_record) list"
  cs_refresh :: "record_identity list"
  cs_cache :: "(record_identity \<times> journal_record) list"
  cs_unavailable :: string
  cs_exhausted :: string
  cs_recovery :: string
  cs_completed :: bool
  cs_predecessor_changed :: bool

definition startScan :: "journal_record list \<Rightarrow> commit_scan" where
  "startScan rs = \<lparr>cs_records = rs, cs_appended = [], cs_first = [], cs_refresh = [], cs_cache = [],
     cs_unavailable = [], cs_exhausted = [], cs_recovery = [], cs_completed = False,
     cs_predecessor_changed = False\<rparr>"

definition affinityResetFor ::
  "lane_mutation \<Rightarrow> journal_lane \<Rightarrow> u64 \<Rightarrow> record_identity \<Rightarrow> journal_record \<Rightarrow> journal_record \<Rightarrow> bool" where
  "affinityResetFor m lane invalidation i old input \<longleftrightarrow> i = named (lm_begin m) \<and>
     (codexLeaseAffinityInvalidationBeginRequest old input lane invalidation \<or>
      codexLeaseRedistributionBeginRequest old input lane)"

definition upsertInput :: "crypto \<Rightarrow> lane_mutation \<Rightarrow> journal_lane \<Rightarrow> u64 \<Rightarrow> record_fence list \<Rightarrow>
    journal_record option \<Rightarrow> journal_record \<Rightarrow> record_input" where
  "upsertInput cr m lane invalidation fences stored input =
     (let i = Identity cr input; old = (case stored of None \<Rightarrow> zeroRecord | Some prior \<Rightarrow> prior) in
      \<lparr>ri_old = old, ri_exists = (stored \<noteq> None), ri_input = input,
        ri_begin = (i = named (lm_begin m)), ri_latch = (i = named (lm_latch m)),
        ri_affinity_reset = affinityResetFor m lane invalidation i old input,
        ri_fence = fenceFor fences i\<rparr>)"

text \<open>What one upsert adds to the findings of the loop, once its after-image is built.\<close>

definition noteUpsert :: "lane_mutation \<Rightarrow> journal_lane \<Rightarrow> u64 \<Rightarrow> record_identity \<Rightarrow> journal_record option \<Rightarrow>
    journal_record \<Rightarrow> journal_record \<Rightarrow> u64 \<Rightarrow> bool \<Rightarrow> commit_scan \<Rightarrow> commit_scan" where
  "noteUpsert m lane invalidation i stored input result appended firstAdmission s =
     s\<lparr>cs_predecessor_changed := (cs_predecessor_changed s \<or>
         (case stored of None \<Rightarrow> jr_pred_turn input \<noteq> []
          | Some old \<Rightarrow> jr_pred_turn old \<noteq> jr_pred_turn input \<or> jr_pred_epoch old \<noteq> jr_pred_epoch input \<or>
              jr_pred_auth old \<noteq> jr_pred_auth input)),
       cs_appended := (if appended \<noteq> 0 then (i, appended) # cs_appended s else cs_appended s),
       cs_first := (if firstAdmission then cs_first s @ [(i, result)] else cs_first s),
       cs_refresh := (if firstAdmission \<and>
           (case stored of None \<Rightarrow> False | Some old \<Rightarrow> codexLeaseAccountUnavailableAdmission old input) \<and>
           ln_admission_generation lane \<noteq> 0 \<and> codexLaneAffinityJournalGeneration lane \<le> invalidation
         then i # cs_refresh s else cs_refresh s),
       cs_cache := (if codexLeaseCacheAdmission stored result then cs_cache s @ [(i, result)] else cs_cache s),
       cs_completed := (cs_completed s \<or> codexLeaseRequestCompleted stored result)\<rparr>"

definition upsertStep :: "crypto \<Rightarrow> u64 \<Rightarrow> u64 \<Rightarrow> lane_mutation \<Rightarrow> journal_lane \<Rightarrow> record_fence list \<Rightarrow> gotime \<Rightarrow>
    commit_scan \<Rightarrow> journal_record \<Rightarrow> lease_error + commit_scan" where
  "upsertStep cr generation invalidation m lane fences now s input =
     (let i = Identity cr input;
          stored = lookupRecord cr (cs_records s) i;
          c = upsertInput cr m lane invalidation fences stored input
      in
      andThen (failIf (i = named (lm_begin m) \<and> cq_redistribution (jr_request input) \<noteq> 0 \<and>
          \<not> codexLeaseRedistributionBeginRequest (ri_old c) input lane)
        (ErrInvalidMutation ''invalid redistribution request provenance'')) (\<lambda>_.
      andThen (buildCodexLeaseRecordAfterImage generation c now) (\<lambda>(result, appended, firstAdmission).
      andThen (if i = named (lm_unavailable m) then codexLeaseAccountUnavailableTransitionHash stored result
        else Inr (cs_unavailable s)) (\<lambda>unavailable.
      andThen (case codexLeaseQuotaProbeRecoveryHash stored result of
          None \<Rightarrow> Inr (cs_recovery s)
        | Some h \<Rightarrow> andThen (failIf (cs_recovery s \<noteq> [] \<and>
              \<not> constantTimeCodexLeaseDigestEqual (cs_recovery s) h)
            (ErrInvalidMutation ''one mutation completed multiple quota probes'')) (\<lambda>_. Inr h)) (\<lambda>recovery.
      Inr ((noteUpsert m lane invalidation i stored input result appended firstAdmission s)
        \<lparr>cs_unavailable := unavailable,
         cs_exhausted := (if i = named (lm_unavailable m) \<and> i = named (lm_exhausted m) then unavailable
           else cs_exhausted s),
         cs_recovery := recovery,
         cs_records := (if stored = None then cs_records s @ [result]
           else replaceRecord cr i result (cs_records s))\<rparr>))))))"

end
