(* ===== verification/LeaseCommit.thy ===== *)
theory LeaseCommit
  imports LeaseMutation
begin

text \<open>
  The second half of \<open>applyCodexLaneMutationLocked\<close> (\<open>internal/proxy/codex_lease_v2_cas.go\<close>):
  the lane after-image, the head transition, the links between records, and the fence the
  caller gets back. \<open>applyCodexLaneMutationLocked\<close> composes both halves in the source's order.
\<close>

section \<open>The lane after-image\<close>

definition startLane :: "crypto \<Rightarrow> lane_mutation \<Rightarrow> journal_lane option \<Rightarrow> lease_error + journal_lane" where
  "startLane cr m stored =
     (case (lm_lane m, stored) of
        (None, None) \<Rightarrow> Inl (ErrInvalidMutation ''new lane requires an explicit after-image'')
      | (None, Some s) \<Rightarrow> Inr s
      | (Some l, None) \<Rightarrow> Inr l
      | (Some l, Some s) \<Rightarrow>
          let d = copyCodexLaneAffinity l s in
          Inr (d\<lparr>ln_unavailable := (if sameCodexLaneRequestScope cr s d then ln_unavailable s
              else ln_unavailable d),
            ln_exhausted := ln_exhausted s\<rparr>))"

definition restartHead :: "record_identity \<Rightarrow> journal_lane \<Rightarrow> journal_lane" where
  "restartHead i lane = lane\<lparr>ln_current_turn := ri_turn i, ln_current_epoch := ri_epoch i,
     ln_current_auth := ri_auth i, ln_unavailable := []\<rparr>"

definition addSorted :: "string \<Rightarrow> string list \<Rightarrow> string list" where
  "addSorted h hs = (if h = [] \<or> h \<in> set hs then hs else sortBy (<) (hs @ [h]))"

text \<open>The first digest equal to the recovered account is dropped.\<close>

fun dropRecovered :: "string \<Rightarrow> string list \<Rightarrow> string list" where
  "dropRecovered h [] = []"
| "dropRecovered h (x # xs) =
     (if constantTimeCodexLeaseDigestEqual x h then xs else x # dropRecovered h xs)"

definition accountLists :: "lane_mutation \<Rightarrow> commit_scan \<Rightarrow> journal_lane \<Rightarrow> journal_lane" where
  "accountLists m s lane =
     (let exhausted = addSorted (cs_exhausted s) (ln_exhausted lane) in
      lane\<lparr>ln_unavailable := (if cs_completed s \<or> lm_cycle m \<noteq> None then []
          else addSorted (cs_unavailable s) (ln_unavailable lane)),
        ln_exhausted := (if cs_recovery s \<noteq> [] then dropRecovered (cs_recovery s) exhausted
          else exhausted)\<rparr>)"

definition containsHash :: "string list \<Rightarrow> string \<Rightarrow> bool" where
  "containsHash hashes account \<longleftrightarrow> (\<exists>h \<in> set hashes. constantTimeCodexLeaseDigestEqual h account)"

definition validateCodexLeaseBeginRequestAvailability ::
  "crypto \<Rightarrow> journal_lane \<Rightarrow> journal_record \<Rightarrow> lease_error + unit" where
  "validateCodexLeaseBeginRequestAvailability cr lane result =
     (let q = jr_request result; slots = ae_slots (cq_envelope q) in
      case (case requestCurrentAttempt q of None \<Rightarrow> None
          | Some a \<Rightarrow> slotAccount (cq_envelope q) (at_slot a)) of
        None \<Rightarrow> Inl (ErrInvalidMutation ''BeginRequest current attempt is unavailable'')
      | Some selected \<Rightarrow>
          if cq_quota_probe q then
            (if \<not> containsHash (ln_exhausted lane) selected
             then Inl (ErrInvalidMutation ''quota probe does not name one exhausted account'')
             else failIf (\<exists>slot \<in> set slots. \<not> constantTimeCodexLeaseDigestEqual (sl_account slot) selected)
               (ErrInvalidMutation ''quota probe spans multiple accounts''))
          else
            let unavailable = (if Identity cr result = codexLaneRequestScopeIdentity cr lane
                then ln_unavailable lane else []) in
            failIf (\<exists>slot \<in> set slots. containsHash (ln_exhausted lane) (sl_account slot) \<or>
                containsHash unavailable (sl_account slot))
              (ErrInvalidMutation ''BeginRequest reuses an unavailable account''))"

definition clearFailedHead :: "crypto \<Rightarrow> record_identity \<Rightarrow> journal_record list \<Rightarrow> journal_lane \<Rightarrow>
    journal_record \<Rightarrow> journal_lane" where
  "clearFailedHead cr storedCurrent rs lane input =
     (let i = Identity cr input; stored = recordAt cr rs i in
      if jr_state stored = LeaseFailedUnadmitted \<and>
        (storedCurrent = i \<or> codexLaneTupleIdentity cr lane True = i)
      then lane\<lparr>ln_current_turn := [], ln_current_epoch := 0, ln_current_auth := False,
        ln_last_turn := ri_turn i, ln_last_epoch := ri_epoch i, ln_last_auth := ri_auth i\<rparr>
      else lane)"

section \<open>The head of the lane\<close>

definition newLaneHead :: "crypto \<Rightarrow> record_identity list \<Rightarrow> record_identity \<Rightarrow> record_identity \<Rightarrow>
    journal_record list \<Rightarrow> lease_error + unit" where
  "newLaneHead cr created desiredCurrent desiredLast rs =
     (case created of
        [i] \<Rightarrow>
          if desiredCurrent \<noteq> i \<or> desiredLast \<noteq> i
          then Inl (ErrInvalidMutation ''new lane must point current and last at its sole reserving record'')
          else failIf (jr_pred_turn (recordAt cr rs i) \<noteq> [])
            (ErrInvalidMutation ''first lane record cannot name a predecessor'')
      | _ \<Rightarrow> Inl (ErrInvalidMutation ''new lane must point current and last at its sole reserving record''))"

text \<open>No new record: the head stays, restarts its failed last, or is cleared by its failure.\<close>

definition sameHead :: "crypto \<Rightarrow> record_identity \<Rightarrow> record_identity \<Rightarrow> record_identity \<Rightarrow> record_identity \<Rightarrow>
    journal_record list \<Rightarrow> journal_record list \<Rightarrow> record_identity list \<Rightarrow> bool" where
  "sameHead cr storedCurrent storedLast desiredCurrent desiredLast originals rs upserts \<longleftrightarrow>
     (desiredCurrent = storedCurrent \<and> desiredLast = storedLast) \<or>
     (storedCurrent = zeroIdentity \<and> desiredCurrent = storedLast \<and> desiredLast = storedLast \<and>
      storedLast \<in> set upserts \<and>
      (case lookupRecord cr originals storedLast of None \<Rightarrow> False
       | Some prior \<Rightarrow> codexLeaseRestartableFailedHead prior)) \<or>
     (desiredCurrent = zeroIdentity \<and> desiredLast = storedLast \<and> storedCurrent \<noteq> zeroIdentity \<and>
      (case lookupRecord cr rs storedCurrent of None \<Rightarrow> False
       | Some r \<Rightarrow> jr_state r = LeaseFailedUnadmitted))"

definition successorHead :: "crypto \<Rightarrow> record_identity \<Rightarrow> record_identity \<Rightarrow> record_identity \<Rightarrow>
    journal_record list \<Rightarrow> journal_record list \<Rightarrow> record_identity list \<Rightarrow> lease_error + unit" where
  "successorHead cr storedCurrent storedLast created originals rs upserts =
     (let successor = recordAt cr rs created in
      andThen (failIf (storedLast = zeroIdentity)
        (ErrInvalidMutation ''successor requires the prior lane last record'')) (\<lambda>_.
      andThen (failIf (jr_pred_turn successor \<noteq> ri_turn storedLast \<or>
          jr_pred_epoch successor \<noteq> ri_epoch storedLast \<or> jr_pred_auth successor \<noteq> ri_auth storedLast)
        (ErrInvalidMutation ''successor does not name the prior lane last record'')) (\<lambda>_.
      case lookupRecord cr rs storedLast of
        None \<Rightarrow> Inl (ErrInvalidMutation ''successor predecessor is absent'')
      | Some predecessor \<Rightarrow>
          if storedCurrent = zeroIdentity
          then failIf (jr_state predecessor \<notin> {LeaseFailedUnadmitted, LeaseSuperseded, LeaseExpired})
            (ErrInvalidMutation ''successor follows a non-terminal last record'')
          else
            andThen (failIf (storedCurrent \<noteq> storedLast)
              (ErrTrustLost ''lane current and last authority diverged'')) (\<lambda>_.
            let prior = recordAt cr originals storedLast in
            andThen (failIf (jr_state prior \<notin> {LeaseContinuationPending, LeaseBoundQuiescent, LeaseOrphaned} \<and>
                \<not> codexLeaseAbandonedUnadmittedHead prior)
              (ErrInvalidMutation ''predecessor work is not replaceable'')) (\<lambda>_.
            failIf (storedLast \<notin> set upserts \<or> jr_state predecessor \<noteq> LeaseSuperseded \<or>
                \<not> drained (jr_request predecessor))
              (ErrInvalidMutation
                ''predecessor must be fenced, drained, and superseded with its successor''))))))"

definition validateCodexLeaseHeadTransition :: "crypto \<Rightarrow> bool \<Rightarrow> record_identity \<Rightarrow> record_identity \<Rightarrow>
    journal_lane \<Rightarrow> journal_record list \<Rightarrow> journal_record list \<Rightarrow> record_identity list \<Rightarrow> lease_error + unit"
  where
  "validateCodexLeaseHeadTransition cr laneExists storedCurrent storedLast desired originals rs upserts =
     (let desiredCurrent = codexLaneTupleIdentity cr desired True;
          desiredLast = codexLaneTupleIdentity cr desired False;
          created = filter (\<lambda>i. lookupRecord cr originals i = None) upserts
      in
      if \<not> laneExists then newLaneHead cr created desiredCurrent desiredLast rs
      else if created = [] then
        failIf (\<not> sameHead cr storedCurrent storedLast desiredCurrent desiredLast originals rs upserts)
          (ErrInvalidMutation ''existing lane head cannot be cleared, replaced, or resurrected'')
      else if length created \<noteq> 1
      then Inl (ErrInvalidMutation ''lane mutation may create only one successor'')
      else if desiredCurrent \<noteq> hd created \<or> desiredLast \<noteq> hd created
      then Inl (ErrInvalidMutation ''new record must become both current and last'')
      else successorHead cr storedCurrent storedLast (hd created) originals rs upserts)"

section \<open>Admissions recorded in the lane\<close>

definition completeRedistribution :: "journal_record \<Rightarrow> journal_lane \<Rightarrow> journal_lane" where
  "completeRedistribution admitted lane =
     (if cq_redistribution (jr_request admitted) > ln_redistribution_completed lane
      then lane\<lparr>ln_redistribution_completed := cq_redistribution (jr_request admitted)\<rparr> else lane)"

definition recordAdmission :: "crypto \<Rightarrow> u64 \<Rightarrow> record_identity list \<Rightarrow> journal_lane \<Rightarrow>
    record_identity \<times> journal_record \<Rightarrow> lease_error + journal_lane" where
  "recordAdmission cr generation refreshes lane p =
     (let admitted = snd p in
      if \<not> codexLeaseAffinityEligible admitted then Inr lane
      else if fst p \<noteq> codexLaneTupleIdentity cr lane True
      then Inl (ErrInvalidMutation ''first turn admission is not lane current'')
      else Inr ((completeRedistribution admitted lane)\<lparr>
        ln_admitted_account := jr_account admitted, ln_admitted_turn := jr_turn admitted,
        ln_admitted_epoch := jr_epoch admitted, ln_admitted_auth := jr_auth admitted,
        ln_admission_generation := jr_admission_generation admitted,
        ln_admitted_at := jr_admitted_at admitted,
        ln_refresh_generation := (if fst p \<in> set refreshes then generation + 1
          else if jr_admission_generation admitted = generation + 1 then 0
          else ln_refresh_generation lane)\<rparr>))"

definition recordCacheAdmission :: "crypto \<Rightarrow> gotime \<Rightarrow> journal_lane \<Rightarrow>
    record_identity \<times> journal_record \<Rightarrow> lease_error + journal_lane" where
  "recordCacheAdmission cr now lane p =
     (let admitted = snd p in
      if \<not> codexLeaseAffinityEligible admitted then Inr lane
      else if fst p \<noteq> codexLaneTupleIdentity cr lane True
      then Inl (ErrInvalidMutation ''cache admission is not lane current'')
      else Inr ((completeRedistribution admitted lane)\<lparr>
        ln_cache_admitted_at := now, ln_cache_model := cq_effective_model (jr_request admitted)\<rparr>))"

definition laneVersion :: "bool \<Rightarrow> journal_lane option \<Rightarrow> lease_error + u64" where
  "laneVersion changed stored =
     (case stored of None \<Rightarrow> Inr 1
      | Some l \<Rightarrow> if changed
          then andThen (failIf (ln_generation l = MaxUint64) (ErrInvalidMutation ''lane generation overflow''))
            (\<lambda>_. Inr (ln_generation l + 1))
          else Inr (ln_generation l))"

section \<open>Links between records\<close>

definition samePredecessor :: "journal_record \<Rightarrow> journal_record \<Rightarrow> bool" where
  "samePredecessor a b \<longleftrightarrow> jr_pred_turn a = jr_pred_turn b \<and> jr_pred_epoch a = jr_pred_epoch b \<and>
     jr_pred_auth a = jr_pred_auth b"

definition predecessorGeneration :: "crypto \<Rightarrow> string \<Rightarrow> journal_record list \<Rightarrow> journal_record list \<Rightarrow>
    journal_record \<Rightarrow> lease_error + u64" where
  "predecessorGeneration cr target originals rs r =
     (if jr_pred_turn r = [] then Inr 0
      else let p = predecessorInLane target r in
        case lookupRecord cr rs p of
          Some predecessor \<Rightarrow> Inr (jr_generation predecessor)
        | None \<Rightarrow>
            (case lookupRecord cr originals (Identity cr r) of
               None \<Rightarrow> Inl (ErrInvalidMutation ''cannot manufacture an absent predecessor link'')
             | Some old \<Rightarrow>
                 if \<not> samePredecessor old r \<or> jr_pred_generation old = 0
                 then Inl (ErrInvalidMutation ''cannot manufacture an absent predecessor link'')
                 else if (case lookupRecord cr originals p of None \<Rightarrow> False
                     | Some prior \<Rightarrow> jr_generation prior \<noteq> jr_pred_generation old)
                 then Inl (ErrTrustLost ''stored predecessor fence changed'')
                 else Inr (jr_pred_generation old)))"

text \<open>The upserted records get the lane's generation and their predecessor's.\<close>

fun linkRecords :: "crypto \<Rightarrow> string \<Rightarrow> journal_record list \<Rightarrow> journal_record list \<Rightarrow> u64 \<Rightarrow>
    record_identity list \<Rightarrow> journal_record list \<Rightarrow> lease_error + journal_record list" where
  "linkRecords cr target originals rs generation upserts [] = Inr []"
| "linkRecords cr target originals rs generation upserts (x # xs) =
     andThen (if Identity cr x \<in> set upserts
       then andThen (predecessorGeneration cr target originals rs x) (\<lambda>g.
         Inr (x\<lparr>jr_lane_generation := generation, jr_pred_generation := g\<rparr>))
       else Inr x) (\<lambda>y.
     andThen (linkRecords cr target originals rs generation upserts xs) (\<lambda>ys. Inr (y # ys)))"

section \<open>The fence after the commit\<close>

definition postAttemptFence :: "journal_record \<Rightarrow> u64 \<Rightarrow> attempt_fence \<Rightarrow> attempt_fence" where
  "postAttemptFence r appended f =
     (let g = (if af_generation f = 0 then appended else af_generation f) in
      \<lparr>af_request = cq_generation (jr_request r), af_generation = g,
       af_revision = (case attemptByGeneration (cq_attempts (jr_request r)) g of
         None \<Rightarrow> 0 | Some a \<Rightarrow> at_revision a)\<rparr>)"

definition postRecordFence :: "crypto \<Rightarrow> journal_record list \<Rightarrow> (record_identity \<times> u64) list \<Rightarrow>
    record_fence \<Rightarrow> record_fence" where
  "postRecordFence cr rs appended f =
     (case lookupRecord cr (rev rs) (rf_record f) of
        None \<Rightarrow> zeroFence\<lparr>rf_record := rf_record f\<rparr>
      | Some r \<Rightarrow>
          \<lparr>rf_record = rf_record f, rf_revision = jr_generation r, rf_lease = jr_lease_generation r,
           rf_request = cq_generation (jr_request r), rf_current = cq_current (jr_request r),
           rf_attempts = map (postAttemptFence r
             (case map_of appended (rf_record f) of None \<Rightarrow> 0 | Some g \<Rightarrow> g)) (rf_attempts f)\<rparr>)"

definition buildCodexLeasePostFence :: "crypto \<Rightarrow> journal \<Rightarrow> string \<Rightarrow> record_fence list \<Rightarrow>
    (record_identity \<times> u64) list \<Rightarrow> lease_error + generation_fence" where
  "buildCodexLeasePostFence cr j target previous appended =
     (case lookupLane cr (jn_lanes j) target of
        None \<Rightarrow> Inl (ErrTrustLost ''committed lane missing'')
      | Some lane \<Rightarrow> Inr \<lparr>gf_journal = jn_generation j, gf_lane = ln_generation lane,
          gf_current = codexLaneTupleIdentity cr lane True,
          gf_last = codexLaneTupleIdentity cr lane False,
          gf_records = sortBy (\<lambda>a b. codexRecordIdentityLess (rf_record a) (rf_record b))
            (map (postRecordFence cr (jn_records j) appended) previous)\<rparr>)"

section \<open>The whole mutation\<close>

text \<open>Where the mutation aims: its lane and what that lane points at, once all names are checked.\<close>

record commit_target =
  ct_digest :: string
  ct_lane :: "journal_lane option"
  ct_current :: record_identity
  ct_last :: record_identity
  ct_restarting :: bool

definition storedLane :: "commit_target \<Rightarrow> journal_lane" where
  "storedLane t = (case ct_lane t of None \<Rightarrow> zeroLane | Some l \<Rightarrow> l)"

definition restartingFailedLast :: "crypto \<Rightarrow> journal \<Rightarrow> lane_mutation \<Rightarrow> record_identity \<Rightarrow>
    record_identity \<Rightarrow> bool" where
  "restartingFailedLast cr j m currentId lastId \<longleftrightarrow> lm_begin m \<noteq> None \<and> currentId = zeroIdentity \<and>
     named (lm_begin m) = lastId \<and>
     (case lookupRecord cr (jn_records j) (named (lm_begin m)) of None \<Rightarrow> False
      | Some r \<Rightarrow> codexLeaseRestartableFailedHead r)"

definition resolveTarget :: "crypto \<Rightarrow> journal \<Rightarrow> generation_fence \<Rightarrow> lane_mutation \<Rightarrow>
    lease_error + commit_target" where
  "resolveTarget cr j expected m =
     andThen (failIf (gf_journal expected \<noteq> jn_generation j) (ErrStaleMutation ''journal_generation'')) (\<lambda>_.
     andThen (failIf (jn_generation j = MaxUint64) (ErrInvalidMutation ''journal generation overflow'')) (\<lambda>_.
     andThen (failIf (lm_lane m = None \<and> lm_cycle m = None \<and> lm_upserts m = [] \<and> lm_deletes m = [])
       (ErrInvalidMutation ''empty mutation'')) (\<lambda>_.
     andThen (validateCodexLaneMutationOwnedFields m) (\<lambda>_.
     andThen (indexRecords cr [] (jn_records j)) (\<lambda>_.
     andThen (indexLanes cr [] (jn_lanes j)) (\<lambda>_.
     andThen (codexLaneMutationTarget cr m) (\<lambda>target.
     andThen (checkNamedOperations cr m target) (\<lambda>_.
     let stored = lookupLane cr (jn_lanes j) target;
         lane = (case stored of None \<Rightarrow> zeroLane | Some l \<Rightarrow> l) in
     andThen (codexLaneCurrentIdentity cr lane (jn_records j)) (\<lambda>currentId.
     andThen (codexLaneLastIdentity cr lane (jn_records j)) (\<lambda>lastId.
     let restarting = restartingFailedLast cr j m currentId lastId in
     andThen (failIf (lm_begin m \<noteq> None \<and> named (lm_begin m) \<noteq> currentId \<and> \<not> restarting)
       (ErrInvalidMutation ''BeginRequest must target the current lane head'')) (\<lambda>_.
     andThen (failIf (lm_cycle m \<noteq> None \<and> named (lm_cycle m) \<noteq> currentId)
       (ErrInvalidMutation ''unavailable cycle completion must target the current lane head'')) (\<lambda>_.
     andThen (laneFence expected stored currentId lastId) (\<lambda>_.
     Inr \<lparr>ct_digest = target, ct_lane = stored, ct_current = currentId, ct_last = lastId,
       ct_restarting = restarting\<rparr>)))))))))))))"

definition applyDeletes :: "crypto \<Rightarrow> record_identity list \<Rightarrow> journal_record list \<Rightarrow> journal_record list" where
  "applyDeletes cr ids rs = filter (\<lambda>r. Identity cr r \<notin> set ids) rs"

text \<open>The lane's pointers and lists before admissions are recorded in it.\<close>

definition laneImage :: "crypto \<Rightarrow> lane_mutation \<Rightarrow> commit_target \<Rightarrow> commit_scan \<Rightarrow> journal_record list \<Rightarrow>
    journal_record list \<Rightarrow> lease_error + journal_lane" where
  "laneImage cr m t s originals rs =
     andThen (startLane cr m (ct_lane t)) (\<lambda>start.
     let listed = accountLists m s (if ct_restarting t then restartHead (named (lm_begin m)) start else start) in
     andThen (if lm_begin m = None then Inr ()
       else validateCodexLeaseBeginRequestAvailability cr listed (recordAt cr rs (named (lm_begin m)))) (\<lambda>_.
     let lane = foldl (clearFailedHead cr (ct_current t) rs) listed (lm_upserts m) in
     andThen (failIf (laneDigestOf cr lane \<noteq> ct_digest t)
       (ErrInvalidMutation ''lane after-image changed lane identity'')) (\<lambda>_.
     andThen (validateCodexLeaseHeadTransition cr (ct_lane t \<noteq> None) (ct_current t) (ct_last t) lane
       originals rs (upsertIds cr m)) (\<lambda>_.
     Inr lane))))"

definition finishLane :: "crypto \<Rightarrow> u64 \<Rightarrow> lane_mutation \<Rightarrow> commit_target \<Rightarrow> commit_scan \<Rightarrow> gotime \<Rightarrow>
    journal_lane \<Rightarrow> lease_error + journal_lane" where
  "finishLane cr generation m t s now lane =
     andThen (foldE (recordAdmission cr generation (cs_refresh s)) lane (cs_first s)) (\<lambda>l1.
     andThen (foldE (recordCacheAdmission cr now) l1 (cs_cache s)) (\<lambda>l2.
     let pointerChanged = (\<not> sameCodexLanePointers (storedLane t) l2) in
     andThen (laneVersion (pointerChanged \<or> cs_predecessor_changed s) (ct_lane t)) (\<lambda>g.
     Inr (l2\<lparr>ln_generation := g,
       ln_observed_at := (if lm_lane m \<noteq> None \<or> pointerChanged \<or> cs_predecessor_changed s \<or>
           lm_upserts m \<noteq> [] \<or> lm_deletes m \<noteq> [] then now else ln_observed_at l2)\<rparr>))))"

definition installLane :: "crypto \<Rightarrow> commit_target \<Rightarrow> journal_lane \<Rightarrow> journal_lane list \<Rightarrow> journal_lane list" where
  "installLane cr t lane ls =
     (if ct_lane t = None then ls @ [lane]
      else map (\<lambda>l. if laneDigestOf cr l = ct_digest t then lane else l) ls)"

text \<open>\<open>wallNow\<close> is the reading of the policy's clock, \<open>retention\<close> the policy's retention.\<close>

definition applyCodexLaneMutationLocked :: "crypto \<Rightarrow> journal \<Rightarrow> gotime \<Rightarrow> int \<Rightarrow> generation_fence \<Rightarrow>
    lane_mutation \<Rightarrow> lease_error + journal \<times> generation_fence" where
  "applyCodexLaneMutationLocked cr j wallNow retention expected m =
     andThen (resolveTarget cr j expected m) (\<lambda>t.
     andThen (checkTouched cr expected m (ct_digest t) (jn_records j)) (\<lambda>_.
     andThen (checkCycle cr m (storedLane t) (gf_records expected) (jn_records j)) (\<lambda>_.
     let now = monotonicCodexLeaseTime wallNow (ln_observed_at (storedLane t)) in
     andThen (checkDeletions cr m (jn_records j) wallNow retention) (\<lambda>_.
     andThen (foldE (upsertStep cr (jn_generation j) (jn_invalidation j) m (storedLane t)
         (gf_records expected) now) (startScan (jn_records j)) (lm_upserts m)) (\<lambda>s.
     let rs = applyDeletes cr (lm_deletes m) (cs_records s) in
     andThen (laneImage cr m t s (jn_records j) rs) (\<lambda>lane.
     andThen (finishLane cr (jn_generation j) m t s now lane) (\<lambda>lane'.
     andThen (linkRecords cr (ct_digest t) (jn_records j) rs (ln_generation lane') (upsertIds cr m) rs)
       (\<lambda>linked.
     let next = canonicaliseCodexLeaseV2 (j\<lparr>jn_records := linked,
           jn_lanes := installLane cr t lane' (jn_lanes j), jn_generation := jn_generation j + 1\<rparr>) in
     andThen (buildCodexLeasePostFence cr next (ct_digest t) (gf_records expected) (cs_appended s)) (\<lambda>post.
     Inr (next, post))))))))))"

section \<open>Lookups through the commit\<close>

abbreviation distinctIds :: "crypto \<Rightarrow> journal_record list \<Rightarrow> bool" where
  "distinctIds cr rs \<equiv> distinct (map (Identity cr) rs)"

lemma lookup_iff:
  "distinctIds cr rs \<Longrightarrow> lookupRecord cr rs i = Some r \<longleftrightarrow> r \<in> set rs \<and> Identity cr r = i"
  unfolding lookupRecord_def using find_distinct_key [of "Identity cr" rs r] find_Some_mem by fastforce

lemma lookup_same_set:
  assumes "distinctIds cr rs" "distinctIds cr rs'" "set rs = set rs'"
  shows "lookupRecord cr rs i = lookupRecord cr rs' i"
  using lookup_iff [OF assms(1)] lookup_iff [OF assms(2)] assms(3)
  by (metis not_None_eq)

lemma lookup_None: "lookupRecord cr rs i = None \<longleftrightarrow> i \<notin> Identity cr ` set rs"
  by (auto simp: lookupRecord_def find_None_iff)

lemma lookup_Cons:
  "lookupRecord cr (x # xs) k = (if Identity cr x = k then Some x else lookupRecord cr xs k)"
  by (simp add: lookupRecord_def)

lemma lookup_map:
  assumes "\<And>r. Identity cr (f r) = Identity cr r"
  shows "lookupRecord cr (map f rs) i = map_option f (lookupRecord cr rs i)"
  using assms by (induction rs) (simp_all add: lookupRecord_def)

lemma lookup_replace:
  assumes "Identity cr result = i"
  shows "lookupRecord cr (replaceRecord cr i result rs) k =
    (if k = i then map_option (\<lambda>_. result) (lookupRecord cr rs i) else lookupRecord cr rs k)"
  using assms by (induction rs) (auto simp: lookupRecord_def replaceRecord_def)

lemma ids_replace:
  "Identity cr result = i \<Longrightarrow> map (Identity cr) (replaceRecord cr i result rs) = map (Identity cr) rs"
  by (induction rs) (auto simp: replaceRecord_def)

lemma lookup_snoc:
  "lookupRecord cr rs (Identity cr x) = None \<Longrightarrow> lookupRecord cr (rs @ [x]) k =
    (if k = Identity cr x then Some x else lookupRecord cr rs k)"
  by (induction rs) (auto simp: lookupRecord_def split: if_splits)

lemma lookup_deletes:
  "lookupRecord cr (applyDeletes cr ids rs) k = (if k \<in> set ids then None else lookupRecord cr rs k)"
  by (induction rs) (auto simp: lookupRecord_def applyDeletes_def)

lemma indexRecords_iff:
  "indexRecords cr seen rs = Inr () \<longleftrightarrow> distinctIds cr rs \<and> (\<forall>r \<in> set rs. Identity cr r \<noteq> zeroIdentity) \<and>
     set (map (Identity cr) rs) \<inter> set seen = {}"
  by (induction rs arbitrary: seen) (auto simp: andThen_Inr_iff)

lemma indexLanes_iff:
  "indexLanes cr seen ls = Inr () \<longleftrightarrow> distinct (map (laneDigestOf cr) ls) \<and>
     (\<forall>l \<in> set ls. laneDigestOf cr l \<noteq> codexJournalLaneDigest cr [] [] [] \<and> ln_session l \<noteq> [] \<and>
        ln_thread l \<noteq> [] \<and> ln_namespace l \<noteq> []) \<and>
     set (map (laneDigestOf cr) ls) \<inter> set seen = {}"
  by (induction ls arbitrary: seen) (auto simp: andThen_Inr_iff)

lemma checkUpserts_iff:
  "checkUpserts cr target seen rs = Inr () \<longleftrightarrow> distinctIds cr rs \<and>
     (\<forall>r \<in> set rs. Identity cr r \<noteq> zeroIdentity \<and> ri_lane (Identity cr r) = target) \<and>
     set (map (Identity cr) rs) \<inter> set seen = {}"
  by (induction rs arbitrary: seen) (auto simp: andThen_Inr_iff Let_def)

lemma checkDeletes_disjoint:
  "checkDeletes target upserts seen ids = Inr () \<Longrightarrow>
   (\<forall>i \<in> set ids. i \<noteq> zeroIdentity \<and> ri_lane i = target \<and> i \<notin> set upserts)"
  by (induction ids arbitrary: seen) (auto simp: andThen_Inr_iff)

lemma checkRecordFences_iff:
  "checkRecordFences cr rs seen fs = Inr () \<longleftrightarrow> distinct (map rf_record fs) \<and>
     (\<forall>f \<in> set fs. rf_record f \<noteq> zeroIdentity \<and> checkRecordFence f (lookupRecord cr rs (rf_record f)) = Inr ()) \<and>
     set (map rf_record fs) \<inter> set seen = {}"
  by (induction fs arbitrary: seen) (auto simp: andThen_Inr_iff)

text \<open>The identity of an after-image is that of its input.\<close>

lemma build_identity:
  assumes "buildCodexLeaseRecordAfterImage generation c now = Inr (r, appended, cache)"
  shows "Identity cr r = Identity cr (ri_input c)"
proof -
  from assms obtain base r1 r2 where
    base: "(if ri_exists c then existingRecordImage c else newRecordImage c now) = Inr base"
    and req: "requestAfterImage c (base\<lparr>jr_observed := now\<rparr>) now = Inr (r1, appended)"
    and pin: "pinIndeterminate c r1 = Inr r2" and r: "r = admitRecord generation r2 now"
    by (rule record_image_cases)
  have "Identity cr base = Identity cr (ri_input c)"
    using base by (auto simp: newRecordImage_def Let_def andThen_failIf_iff Identity_def
      dest!: existingRecordImage_cases(5) split: if_splits)
  moreover have "Identity cr r1 = Identity cr base"
    by (subst requestAfterImage_frame [OF req]) (simp add: Identity_def)
  moreover have "Identity cr r2 = Identity cr r1"
    by (subst pinIndeterminate_frame(1) [OF pin]) (simp add: Identity_def)
  moreover have "Identity cr r = Identity cr r2"
    by (simp add: r Identity_def)
  ultimately show ?thesis by simp
qed

lemma upsertStep_cases:
  assumes "upsertStep cr generation invalidation m lane fences now s input = Inr s'"
  obtains result appended first where
    "buildCodexLeaseRecordAfterImage generation
       (upsertInput cr m lane invalidation fences (lookupRecord cr (cs_records s) (Identity cr input)) input) now =
     Inr (result, appended, first)"
    "cs_records s' = (if lookupRecord cr (cs_records s) (Identity cr input) = None then cs_records s @ [result]
       else replaceRecord cr (Identity cr input) result (cs_records s))"
    "cs_appended s' = (if appended \<noteq> 0 then (Identity cr input, appended) # cs_appended s else cs_appended s)"
proof -
  let ?stored = "lookupRecord cr (cs_records s) (Identity cr input)"
  from assms obtain p where
    build: "buildCodexLeaseRecordAfterImage generation
      (upsertInput cr m lane invalidation fences ?stored input) now = Inr p"
    unfolding upsertStep_def Let_def andThen_failIf_iff andThen_Inr_iff by blast
  obtain result appended first where p: "p = (result, appended, first)" by (cases p) auto
  show thesis
    by (rule that [OF build [unfolded p]])
      (use assms build p in \<open>auto simp: upsertStep_def Let_def andThen_Inr_iff noteUpsert_def\<close>)
qed

lemma upserts_lookup:
  assumes "foldE (upsertStep cr generation invalidation m lane fences now) s xs = Inr s'"
    and "distinctIds cr xs" and "distinctIds cr (cs_records s)"
  shows "distinctIds cr (cs_records s') \<and>
    (\<forall>k. k \<notin> Identity cr ` set xs \<longrightarrow> lookupRecord cr (cs_records s') k = lookupRecord cr (cs_records s) k) \<and>
    (\<forall>x \<in> set xs. \<exists>r appended first. buildCodexLeaseRecordAfterImage generation (upsertInput cr m lane
        invalidation fences (lookupRecord cr (cs_records s) (Identity cr x)) x) now = Inr (r, appended, first) \<and>
      lookupRecord cr (cs_records s') (Identity cr x) = Some r)"
  using assms
proof (induction xs arbitrary: s)
  case Nil
  then show ?case by simp
next
  case (Cons x xs)
  let ?i = "Identity cr x"
  from Cons.prems(1) obtain s1 where step: "upsertStep cr generation invalidation m lane fences now s x = Inr s1"
    and rest: "foldE (upsertStep cr generation invalidation m lane fences now) s1 xs = Inr s'" by auto
  from step obtain result appended first where
    build: "buildCodexLeaseRecordAfterImage generation (upsertInput cr m lane invalidation fences
      (lookupRecord cr (cs_records s) ?i) x) now = Inr (result, appended, first)"
    and recs: "cs_records s1 = (if lookupRecord cr (cs_records s) ?i = None then cs_records s @ [result]
      else replaceRecord cr ?i result (cs_records s))"
    by (rule upsertStep_cases)
  have id: "Identity cr result = ?i"
    using build_identity [OF build] by (simp add: upsertInput_def Let_def)
  have dist1: "distinctIds cr (cs_records s1)"
    using Cons.prems(3) lookup_None [of cr "cs_records s" ?i]
    by (simp add: recs id ids_replace [OF id])
  have look1: "lookupRecord cr (cs_records s1) k = (if k = ?i then Some result else lookupRecord cr (cs_records s) k)" for k
    using lookup_replace [OF id, of "cs_records s" k] lookup_snoc [of cr "cs_records s" result k]
    by (auto simp: recs id)
  have new: "?i \<notin> Identity cr ` set xs" and "distinctIds cr xs" using Cons.prems(2) by auto
  note IH = Cons.IH [OF rest this(2) dist1]
  have same: "lookupRecord cr (cs_records s1) (Identity cr y) = lookupRecord cr (cs_records s) (Identity cr y)"
    if "y \<in> set xs" for y using that new look1 by (metis imageI)
  have "lookupRecord cr (cs_records s') ?i = Some result" using IH new look1 by simp
  with IH same look1 build show ?case by auto
qed

lemma linkRecords_lookup:
  assumes "linkRecords cr target originals rs g upserts xs = Inr ys"
  shows "map (Identity cr) ys = map (Identity cr) xs \<and>
    (\<forall>k. k \<notin> set upserts \<longrightarrow> lookupRecord cr ys k = lookupRecord cr xs k) \<and>
    (\<forall>k x. k \<in> set upserts \<and> lookupRecord cr xs k = Some x \<longrightarrow>
       (\<exists>p. predecessorGeneration cr target originals rs x = Inr p \<and>
         lookupRecord cr ys k = Some (x\<lparr>jr_lane_generation := g, jr_pred_generation := p\<rparr>)))"
  using assms
proof (induction xs arbitrary: ys)
  case Nil
  then show ?case by (simp add: lookupRecord_def)
next
  case (Cons x xs)
  from Cons.prems obtain y zs where ys: "ys = y # zs"
    and rest: "linkRecords cr target originals rs g upserts xs = Inr zs"
    and y: "if Identity cr x \<in> set upserts
      then \<exists>p. predecessorGeneration cr target originals rs x = Inr p \<and>
        y = x\<lparr>jr_lane_generation := g, jr_pred_generation := p\<rparr>
      else y = x"
    by (auto simp: andThen_Inr_iff split: if_splits)
  have id: "Identity cr y = Identity cr x" using y by (auto simp: Identity_def split: if_splits)
  from Cons.IH [OF rest] y show ?case
    by (auto simp: ys id lookup_Cons split: if_splits)
qed

lemma canonical_identity [simp]:
  "Identity cr (r\<lparr>jr_request := q\<rparr>) = Identity cr r"
  by (simp add: Identity_def)

definition canonicalRecord :: "journal_record \<Rightarrow> journal_record" where
  "canonicalRecord r = r\<lparr>jr_request := canonicalRequest (jr_request r)\<rparr>"

lemma canonical_lookup:
  assumes "distinctIds cr (jn_records j)"
  shows "lookupRecord cr (jn_records (canonicaliseCodexLeaseV2 j)) k =
    map_option canonicalRecord (lookupRecord cr (jn_records j) k)"
    "distinctIds cr (jn_records (canonicaliseCodexLeaseV2 j))"
proof -
  let ?s = "sortBy codexJournalRecordLess (jn_records j)"
  have d: "distinctIds cr ?s"
  proof -
    have "mset (map (Identity cr) ?s) = mset (map (Identity cr) (jn_records j))" by simp
    from mset_eq_imp_distinct_iff [OF this] assms show ?thesis by simp
  qed
  have "jn_records (canonicaliseCodexLeaseV2 j) = map canonicalRecord ?s"
    by (simp add: canonicaliseCodexLeaseV2_def canonicalRecord_def)
  then show "lookupRecord cr (jn_records (canonicaliseCodexLeaseV2 j)) k =
      map_option canonicalRecord (lookupRecord cr (jn_records j) k)"
    "distinctIds cr (jn_records (canonicaliseCodexLeaseV2 j))"
    using lookup_same_set [OF d assms] d
    by (simp_all add: lookup_map canonicalRecord_def comp_def)
qed

section \<open>A commit taken apart\<close>

definition commitTime :: "gotime \<Rightarrow> commit_target \<Rightarrow> gotime" where
  "commitTime wallNow t = monotonicCodexLeaseTime wallNow (ln_observed_at (storedLane t))"

definition commitScan :: "crypto \<Rightarrow> journal \<Rightarrow> gotime \<Rightarrow> generation_fence \<Rightarrow> lane_mutation \<Rightarrow>
    commit_target \<Rightarrow> lease_error + commit_scan" where
  "commitScan cr j wallNow expected m t =
     foldE (upsertStep cr (jn_generation j) (jn_invalidation j) m (storedLane t) (gf_records expected)
       (commitTime wallNow t)) (startScan (jn_records j)) (lm_upserts m)"

lemma ex_unit: "(\<exists>x :: unit. P x) \<longleftrightarrow> P ()"
  by (metis old.unit.exhaust)

lemma apply_cases:
  assumes "applyCodexLaneMutationLocked cr j wallNow retention expected m = Inr (next, post)"
  obtains t s lane lane' linked where
    "resolveTarget cr j expected m = Inr t"
    "checkTouched cr expected m (ct_digest t) (jn_records j) = Inr ()"
    "checkDeletions cr m (jn_records j) wallNow retention = Inr ()"
    "commitScan cr j wallNow expected m t = Inr s"
    "laneImage cr m t s (jn_records j) (applyDeletes cr (lm_deletes m) (cs_records s)) = Inr lane"
    "finishLane cr (jn_generation j) m t s (commitTime wallNow t) lane = Inr lane'"
    "linkRecords cr (ct_digest t) (jn_records j) (applyDeletes cr (lm_deletes m) (cs_records s))
       (ln_generation lane') (upsertIds cr m) (applyDeletes cr (lm_deletes m) (cs_records s)) = Inr linked"
    "next = canonicaliseCodexLeaseV2 (j\<lparr>jn_records := linked,
       jn_lanes := installLane cr t lane' (jn_lanes j), jn_generation := jn_generation j + 1\<rparr>)"
    "buildCodexLeasePostFence cr next (ct_digest t) (gf_records expected) (cs_appended s) = Inr post"
  using assms
  unfolding applyCodexLaneMutationLocked_def Let_def andThen_Inr_iff commitScan_def commitTime_def
    prod.inject sum.inject ex_unit
  by blast

lemma resolveTarget_facts:
  assumes "resolveTarget cr j expected m = Inr t"
  shows "gf_journal expected = jn_generation j" "jn_generation j \<noteq> MaxUint64"
    "distinctIds cr (jn_records j)" "\<forall>r \<in> set (jn_records j). Identity cr r \<noteq> zeroIdentity"
    "distinct (map (laneDigestOf cr) (jn_lanes j))"
    "codexLaneMutationTarget cr m = Inr (ct_digest t)"
    "checkNamedOperations cr m (ct_digest t) = Inr ()"
    "ct_lane t = lookupLane cr (jn_lanes j) (ct_digest t)"
    "ct_current t = codexLaneTupleIdentity cr (storedLane t) True"
    "ct_last t = codexLaneTupleIdentity cr (storedLane t) False"
    "laneFence expected (ct_lane t) (ct_current t) (ct_last t) = Inr ()"
    "validateCodexLaneMutationOwnedFields m = Inr ()"
    "lm_begin m \<noteq> None \<Longrightarrow> named (lm_begin m) = ct_current t \<or> ct_restarting t"
proof -
  from assms obtain target currentId lastId where
    *: "gf_journal expected = jn_generation j" "jn_generation j \<noteq> MaxUint64"
      "validateCodexLaneMutationOwnedFields m = Inr ()" "indexRecords cr [] (jn_records j) = Inr ()"
      "indexLanes cr [] (jn_lanes j) = Inr ()" "codexLaneMutationTarget cr m = Inr target"
      "checkNamedOperations cr m target = Inr ()"
    and current: "codexLaneCurrentIdentity cr (case lookupLane cr (jn_lanes j) target of None \<Rightarrow> zeroLane
        | Some l \<Rightarrow> l) (jn_records j) = Inr currentId"
    and last: "codexLaneLastIdentity cr (case lookupLane cr (jn_lanes j) target of None \<Rightarrow> zeroLane
        | Some l \<Rightarrow> l) (jn_records j) = Inr lastId"
    and head: "\<not> (lm_begin m \<noteq> None \<and> named (lm_begin m) \<noteq> currentId \<and>
        \<not> restartingFailedLast cr j m currentId lastId)"
    and fence: "laneFence expected (lookupLane cr (jn_lanes j) target) currentId lastId = Inr ()"
    and t: "t = \<lparr>ct_digest = target, ct_lane = lookupLane cr (jn_lanes j) target, ct_current = currentId,
        ct_last = lastId, ct_restarting = restartingFailedLast cr j m currentId lastId\<rparr>"
    unfolding resolveTarget_def andThen_failIf_iff andThen_Inr_iff Let_def failIf_Inr_iff ex_unit sum.inject
    by blast
  have sel: "ct_digest t = target" "ct_lane t = lookupLane cr (jn_lanes j) target" "ct_current t = currentId"
    "ct_last t = lastId" "ct_restarting t = restartingFailedLast cr j m currentId lastId"
    "storedLane t = (case lookupLane cr (jn_lanes j) target of None \<Rightarrow> zeroLane | Some l \<Rightarrow> l)"
    by (simp_all add: t storedLane_def)
  show "gf_journal expected = jn_generation j" "jn_generation j \<noteq> MaxUint64"
    "validateCodexLaneMutationOwnedFields m = Inr ()" by (rule *)+
  show "distinctIds cr (jn_records j)" "\<forall>r \<in> set (jn_records j). Identity cr r \<noteq> zeroIdentity"
    "distinct (map (laneDigestOf cr) (jn_lanes j))"
    using *(4,5) by (simp_all add: indexRecords_iff indexLanes_iff)
  show "codexLaneMutationTarget cr m = Inr (ct_digest t)" "checkNamedOperations cr m (ct_digest t) = Inr ()"
    "laneFence expected (ct_lane t) (ct_current t) (ct_last t) = Inr ()"
    "ct_lane t = lookupLane cr (jn_lanes j) (ct_digest t)"
    unfolding sel by (rule * fence refl)+
  show "ct_current t = codexLaneTupleIdentity cr (storedLane t) True"
    "ct_last t = codexLaneTupleIdentity cr (storedLane t) False"
    using current last unfolding sel
    by (auto simp: codexLaneCurrentIdentity_def codexLaneLastIdentity_def Let_def split: if_splits)
  show "lm_begin m \<noteq> None \<Longrightarrow> named (lm_begin m) = ct_current t \<or> ct_restarting t"
    using head unfolding sel by blast
qed

text \<open>The fields of the caller's input that reach an after-image untouched stay in the lane.\<close>

lemma commit_records:
  assumes "applyCodexLaneMutationLocked cr j wallNow retention expected m = Inr (next, post)"
    and t: "resolveTarget cr j expected m = Inr t"
  shows "distinctIds cr (jn_records next) \<and>
    (\<forall>k. k \<notin> set (upsertIds cr m) \<and> k \<notin> set (lm_deletes m) \<longrightarrow>
       lookupRecord cr (jn_records next) k = map_option canonicalRecord (lookupRecord cr (jn_records j) k)) \<and>
    (\<forall>k \<in> set (lm_deletes m). lookupRecord cr (jn_records next) k = None) \<and>
    (\<forall>x \<in> set (lm_upserts m). \<exists>r appended first g p.
       buildCodexLeaseRecordAfterImage (jn_generation j) (upsertInput cr m (storedLane t) (jn_invalidation j)
         (gf_records expected) (lookupRecord cr (jn_records j) (Identity cr x)) x) (commitTime wallNow t) =
         Inr (r, appended, first) \<and>
       lookupRecord cr (jn_records next) (Identity cr x) =
         Some (canonicalRecord (r\<lparr>jr_lane_generation := g, jr_pred_generation := p\<rparr>)))"
proof -
  from assms(1) obtain s lane lane' linked where
    touched: "checkTouched cr expected m (ct_digest t) (jn_records j) = Inr ()"
    and scan: "commitScan cr j wallNow expected m t = Inr s"
    and link: "linkRecords cr (ct_digest t) (jn_records j) (applyDeletes cr (lm_deletes m) (cs_records s))
       (ln_generation lane') (upsertIds cr m) (applyDeletes cr (lm_deletes m) (cs_records s)) = Inr linked"
    and "next": "next = canonicaliseCodexLeaseV2 (j\<lparr>jn_records := linked,
       jn_lanes := installLane cr t lane' (jn_lanes j), jn_generation := jn_generation j + 1\<rparr>)"
    by (rule apply_cases) (use t in simp)
  let ?rs = "applyDeletes cr (lm_deletes m) (cs_records s)"
  from touched have ups: "distinctIds cr (lm_upserts m)"
    and dels: "\<forall>i \<in> set (lm_deletes m). i \<notin> set (upsertIds cr m)"
    by (auto simp: checkTouched_def Let_def andThen_Inr_iff checkUpserts_iff dest!: checkDeletes_disjoint)
  note scanned = upserts_lookup [OF scan [unfolded commitScan_def] ups,
    unfolded startScan_def commit_scan.simps, OF resolveTarget_facts(3) [OF t]]
  have drs: "distinctIds cr ?rs"
    using scanned by (auto simp: applyDeletes_def distinct_map intro: inj_on_subset)
  note linked = linkRecords_lookup [OF link]
  have dl: "distinctIds cr linked" using linked drs by simp
  have look: "lookupRecord cr (jn_records next) k = map_option canonicalRecord (lookupRecord cr linked k)"
    and dn: "distinctIds cr (jn_records next)" for k
    using canonical_lookup [of cr "j\<lparr>jn_records := linked,
       jn_lanes := installLane cr t lane' (jn_lanes j), jn_generation := jn_generation j + 1\<rparr>"] dl
    by (simp_all add: "next")
  show ?thesis
  proof (intro conjI allI ballI impI)
    show "distinctIds cr (jn_records next)" by (rule dn)
  next
    fix k assume k: "k \<notin> set (upsertIds cr m) \<and> k \<notin> set (lm_deletes m)"
    with linked scanned have "lookupRecord cr linked k = lookupRecord cr (jn_records j) k"
      by (simp add: lookup_deletes)
    with look show "lookupRecord cr (jn_records next) k =
        map_option canonicalRecord (lookupRecord cr (jn_records j) k)" by simp
  next
    fix k assume "k \<in> set (lm_deletes m)"
    with dels linked have "lookupRecord cr linked k = lookupRecord cr ?rs k" by simp
    with \<open>k \<in> _\<close> look show "lookupRecord cr (jn_records next) k = None"
      by (simp add: lookup_deletes)
  next
    fix x assume x: "x \<in> set (lm_upserts m)"
    with scanned obtain r appended first where
      build: "buildCodexLeaseRecordAfterImage (jn_generation j) (upsertInput cr m (storedLane t) (jn_invalidation j)
         (gf_records expected) (lookupRecord cr (jn_records j) (Identity cr x)) x) (commitTime wallNow t) =
         Inr (r, appended, first)"
      and final: "lookupRecord cr (cs_records s) (Identity cr x) = Some r" by blast
    have "Identity cr x \<notin> set (lm_deletes m)" "Identity cr x \<in> set (upsertIds cr m)" using dels x by auto
    with final linked obtain p where
      "lookupRecord cr linked (Identity cr x) = Some (r\<lparr>jr_lane_generation := ln_generation lane', jr_pred_generation := p\<rparr>)"
      by (metis lookup_deletes)
    with look build show "\<exists>r appended first g p.
       buildCodexLeaseRecordAfterImage (jn_generation j) (upsertInput cr m (storedLane t) (jn_invalidation j)
         (gf_records expected) (lookupRecord cr (jn_records j) (Identity cr x)) x) (commitTime wallNow t) =
         Inr (r, appended, first) \<and>
       lookupRecord cr (jn_records next) (Identity cr x) =
         Some (canonicalRecord (r\<lparr>jr_lane_generation := g, jr_pred_generation := p\<rparr>))" by auto
  qed
qed

section \<open>What a commit leaves alone, and what it fences\<close>

text \<open>The identity of a lane and what it points at: nothing an admission writes.\<close>

definition lanePointers :: "journal_lane \<Rightarrow> (string \<times> string \<times> string) \<times> (string \<times> u64 \<times> bool) \<times>
    (string \<times> u64 \<times> bool) \<times> string list \<times> string list" where
  "lanePointers l = ((ln_session l, ln_thread l, ln_namespace l),
     (ln_current_turn l, ln_current_epoch l, ln_current_auth l),
     (ln_last_turn l, ln_last_epoch l, ln_last_auth l), ln_unavailable l, ln_exhausted l)"

lemma lanePointers_readers:
  assumes "lanePointers a = lanePointers b"
  shows "laneDigestOf cr a = laneDigestOf cr b" "codexLaneTupleIdentity cr a c = codexLaneTupleIdentity cr b c"
  using assms by (auto simp: lanePointers_def laneDigestOf_def codexLaneTupleIdentity_def Let_def)

lemma recordAdmission_pointers:
  "recordAdmission cr g refreshes lane p = Inr lane' \<Longrightarrow> lanePointers lane' = lanePointers lane"
  "recordCacheAdmission cr now lane p = Inr lane' \<Longrightarrow> lanePointers lane' = lanePointers lane"
  by (auto simp: recordAdmission_def recordCacheAdmission_def completeRedistribution_def lanePointers_def
    Let_def split: if_splits)

lemma finishLane_pointers:
  assumes "finishLane cr generation m t s now lane = Inr lane'"
  shows "lanePointers lane' = lanePointers lane"
proof -
  from assms obtain l1 l2 g where
    l1: "foldE (recordAdmission cr generation (cs_refresh s)) lane (cs_first s) = Inr l1"
    and l2: "foldE (recordCacheAdmission cr now) l1 (cs_cache s) = Inr l2"
    and lane': "lanePointers lane' = lanePointers l2"
    by (auto simp: finishLane_def andThen_Inr_iff Let_def lanePointers_def)
  have "lanePointers l1 = lanePointers lane"
    by (rule foldE_invariant [OF l1]) (auto dest: recordAdmission_pointers)
  moreover have "lanePointers l2 = lanePointers l1"
    by (rule foldE_invariant [OF l2]) (auto dest: recordAdmission_pointers)
  ultimately show ?thesis by (simp add: lane')
qed

lemma laneImage_facts:
  assumes "laneImage cr m t s originals rs = Inr lane"
  shows "laneDigestOf cr lane = ct_digest t"
    "validateCodexLeaseHeadTransition cr (ct_lane t \<noteq> None) (ct_current t) (ct_last t) lane
       originals rs (upsertIds cr m) = Inr ()"
  using assms by (auto simp: laneImage_def andThen_Inr_iff Let_def)

lemma lookupLane_iff:
  "distinct (map (laneDigestOf cr) ls) \<Longrightarrow>
   lookupLane cr ls d = Some l \<longleftrightarrow> l \<in> set ls \<and> laneDigestOf cr l = d"
  unfolding lookupLane_def using find_distinct_key [of "laneDigestOf cr" ls l] find_Some_mem by fastforce

lemma canonical_lane_readers [simp]:
  "laneDigestOf cr (canonicalLane l) = laneDigestOf cr l"
  "codexLaneTupleIdentity cr (canonicalLane l) b = codexLaneTupleIdentity cr l b"
  "ln_generation (canonicalLane l) = ln_generation l"
  by (simp_all add: canonicalLane_def laneDigestOf_def codexLaneTupleIdentity_def Let_def)

lemma lookupLane_map:
  assumes "\<And>l. laneDigestOf cr (f l) = laneDigestOf cr l"
  shows "lookupLane cr (map f ls) d = map_option f (lookupLane cr ls d)"
  using assms by (induction ls) (simp_all add: lookupLane_def)

lemma canonical_lookupLane:
  assumes "distinct (map (laneDigestOf cr) (jn_lanes j))"
  shows "lookupLane cr (jn_lanes (canonicaliseCodexLeaseV2 j)) d =
    map_option canonicalLane (lookupLane cr (jn_lanes j) d)"
proof -
  let ?s = "sortBy codexJournalLaneLess (jn_lanes j)"
  have "mset (map (laneDigestOf cr) ?s) = mset (map (laneDigestOf cr) (jn_lanes j))" by simp
  from mset_eq_imp_distinct_iff [OF this] assms have d: "distinct (map (laneDigestOf cr) ?s)" by simp
  have "lookupLane cr ?s d = lookupLane cr (jn_lanes j) d"
    using lookupLane_iff [OF d] lookupLane_iff [OF assms] by (metis not_None_eq set_sortBy)
  moreover have "jn_lanes (canonicaliseCodexLeaseV2 j) = map canonicalLane ?s"
    by (simp add: canonicaliseCodexLeaseV2_def)
  ultimately show ?thesis by (simp add: lookupLane_map)
qed

lemma installLane_lookup:
  assumes "distinct (map (laneDigestOf cr) ls)" and "laneDigestOf cr lane = ct_digest t"
    and "ct_lane t = lookupLane cr ls (ct_digest t)"
  shows "lookupLane cr (installLane cr t lane ls) d = (if d = ct_digest t then Some lane else lookupLane cr ls d)"
    "distinct (map (laneDigestOf cr) (installLane cr t lane ls))"
proof -
  have digests: "map (laneDigestOf cr) (map (\<lambda>l. if laneDigestOf cr l = ct_digest t then lane else l) ls) =
      map (laneDigestOf cr) ls" using assms(2) by (induction ls) auto
  have none: "ct_lane t = None \<longleftrightarrow> ct_digest t \<notin> laneDigestOf cr ` set ls"
    using assms(3) by (auto simp: lookupLane_def find_None_iff image_iff)
  show d: "distinct (map (laneDigestOf cr) (installLane cr t lane ls))"
    using assms(1,2) none digests by (auto simp: installLane_def simp del: map_map)
  show "lookupLane cr (installLane cr t lane ls) d = (if d = ct_digest t then Some lane else lookupLane cr ls d)"
  proof (cases "d = ct_digest t")
    case True
    have "lane \<in> set (installLane cr t lane ls)" using none by (auto simp: installLane_def)
    with True assms(2) lookupLane_iff [OF d] show ?thesis by auto
  next
    case False
    have "l \<in> set (installLane cr t lane ls) \<longleftrightarrow> l \<in> set ls" if "laneDigestOf cr l = d" for l
      using that False assms(2) by (auto simp: installLane_def)
    with False lookupLane_iff [OF d] lookupLane_iff [OF assms(1)]
    have "lookupLane cr (installLane cr t lane ls) d = Some l \<longleftrightarrow> lookupLane cr ls d = Some l" for l by auto
    with False show ?thesis by (metis not_None_eq)
  qed
qed


text \<open>How the records at the end of the mutation stand in the journal it returns.\<close>

lemma commit_link:
  assumes link: "linkRecords cr target originals rs g upserts rs = Inr linked" and "distinctIds cr rs"
    and "next": "next = canonicaliseCodexLeaseV2 (j\<lparr>jn_records := linked, jn_lanes := ls, jn_generation := v\<rparr>)"
  shows "lookupRecord cr rs k = None \<Longrightarrow> lookupRecord cr (jn_records next) k = None"
    "lookupRecord cr rs k = Some r \<Longrightarrow> \<exists>g p. lookupRecord cr (jn_records next) k =
       Some (canonicalRecord (r\<lparr>jr_lane_generation := g, jr_pred_generation := p\<rparr>))"
proof -
  note linked = linkRecords_lookup [OF link]
  have "distinctIds cr linked" using linked assms(2) by simp
  then have look: "lookupRecord cr (jn_records next) k = map_option canonicalRecord (lookupRecord cr linked k)"
    using canonical_lookup(1) [of cr "j\<lparr>jn_records := linked, jn_lanes := ls, jn_generation := v\<rparr>" k]
    by (simp add: "next")
  have "Identity cr ` set linked = Identity cr ` set rs" using linked by (metis set_map)
  then have none: "lookupRecord cr linked k = None \<longleftrightarrow> lookupRecord cr rs k = None"
    by (simp add: lookup_None)
  then show "lookupRecord cr rs k = None \<Longrightarrow> lookupRecord cr (jn_records next) k = None"
    by (simp add: look)
  assume some: "lookupRecord cr rs k = Some r"
  show "\<exists>g p. lookupRecord cr (jn_records next) k =
       Some (canonicalRecord (r\<lparr>jr_lane_generation := g, jr_pred_generation := p\<rparr>))"
  proof (cases "k \<in> set upserts")
    case True
    with linked some look show ?thesis by fastforce
  next
    case False
    with linked some look have "lookupRecord cr (jn_records next) k =
       Some (canonicalRecord (r\<lparr>jr_lane_generation := jr_lane_generation r, jr_pred_generation := jr_pred_generation r\<rparr>))"
      by simp
    then show ?thesis by blast
  qed
qed

lemma commit_scan_distinct:
  assumes touched: "checkTouched cr expected m target rs = Inr ()" and "distinctIds cr rs"
    and scan: "foldE (upsertStep cr generation invalidation m lane fences now) (startScan rs) (lm_upserts m) = Inr s"
  shows "distinctIds cr (applyDeletes cr (lm_deletes m) (cs_records s))"
proof -
  from touched have "distinctIds cr (lm_upserts m)"
    by (simp add: checkTouched_def Let_def andThen_Inr_iff checkUpserts_iff)
  from upserts_lookup [OF scan this] assms(2) show ?thesis
    by (auto simp: applyDeletes_def distinct_map startScan_def intro: inj_on_subset)
qed

text \<open>
  C26. Optimistic concurrency: a mutation is applied only against the journal generation and
  the lane tuple it was made for, advances the generation by exactly one without wrapping,
  and returns the fence of the journal it produced, against which every record fence it
  carries is still exact.
\<close>

theorem commit_fences_exact:
  assumes commit: "applyCodexLaneMutationLocked cr j wallNow retention expected m = Inr (next, post)"
    and target: "codexLaneMutationTarget cr m = Inr target"
  shows "gf_journal expected = jn_generation j \<and> jn_generation next = jn_generation j + 1 \<and>
    jn_generation j < jn_generation next \<and> gf_journal post = jn_generation next \<and>
    (case lookupLane cr (jn_lanes j) target of
       None \<Rightarrow> gf_lane expected = 0 \<and> gf_current expected = zeroIdentity \<and> gf_last expected = zeroIdentity
     | Some l \<Rightarrow> gf_lane expected = ln_generation l \<and>
         gf_current expected = codexLaneTupleIdentity cr l True \<and>
         gf_last expected = codexLaneTupleIdentity cr l False) \<and>
    (\<exists>l. lookupLane cr (jn_lanes next) target = Some l \<and> gf_lane post = ln_generation l \<and>
         gf_current post = codexLaneTupleIdentity cr l True \<and>
         gf_last post = codexLaneTupleIdentity cr l False) \<and>
    validateCodexLeaseRecordFences cr (gf_records post) (jn_records next) = Inr ()"
proof -
  from commit obtain t s lane lane' linked where t: "resolveTarget cr j expected m = Inr t"
    and touched: "checkTouched cr expected m (ct_digest t) (jn_records j) = Inr ()"
    and scan: "commitScan cr j wallNow expected m t = Inr s"
    and link: "linkRecords cr (ct_digest t) (jn_records j) (applyDeletes cr (lm_deletes m) (cs_records s))
       (ln_generation lane') (upsertIds cr m) (applyDeletes cr (lm_deletes m) (cs_records s)) = Inr linked"
    and "next": "next = canonicaliseCodexLeaseV2 (j\<lparr>jn_records := linked,
       jn_lanes := installLane cr t lane' (jn_lanes j), jn_generation := jn_generation j + 1\<rparr>)"
    and post: "buildCodexLeasePostFence cr next (ct_digest t) (gf_records expected) (cs_appended s) = Inr post"
    by (rule apply_cases)
  note facts = resolveTarget_facts [OF t]
  have td: "ct_digest t = target" using facts(6) target by simp
  from post obtain l where l: "lookupLane cr (jn_lanes next) target = Some l"
    and post: "post = \<lparr>gf_journal = jn_generation next, gf_lane = ln_generation l,
       gf_current = codexLaneTupleIdentity cr l True, gf_last = codexLaneTupleIdentity cr l False,
       gf_records = sortBy (\<lambda>a b. codexRecordIdentityLess (rf_record a) (rf_record b))
         (map (postRecordFence cr (jn_records next) (cs_appended s)) (gf_records expected))\<rparr>"
    by (auto simp: buildCodexLeasePostFence_def td split: option.splits)
  have gen: "jn_generation next = jn_generation j + 1" by (simp add: "next" canonicaliseCodexLeaseV2_def)
  have dn: "distinctIds cr (jn_records next)" using commit_records [OF commit t] by simp
  have rec: "rf_record (postRecordFence cr rs ap f) = rf_record f" for rs ap f
    by (simp add: postRecordFence_def split: option.split)
  from touched have old: "distinct (map rf_record (gf_records expected))"
      "\<forall>f \<in> set (gf_records expected). rf_record f \<noteq> zeroIdentity"
    by (simp_all add: checkTouched_def Let_def andThen_Inr_iff validateCodexLeaseRecordFences_def
      checkRecordFences_iff)
  have "mset (map rf_record (gf_records post)) = mset (map rf_record (gf_records expected))"
    by (simp add: post image_mset.compositionality comp_def rec)
  from mset_eq_imp_distinct_iff [OF this] old(1) have d: "distinct (map rf_record (gf_records post))" by simp
  have rev: "lookupRecord cr (rev (jn_records next)) k = lookupRecord cr (jn_records next) k" for k
    by (rule lookup_same_set) (use dn in \<open>simp_all add: rev_map [symmetric]\<close>)
  have exact: "checkRecordFence (postRecordFence cr (jn_records next) ap f)
      (lookupRecord cr (jn_records next) (rf_record f)) = Inr ()" for ap f
    by (simp add: postRecordFence_def rev checkRecordFence_def zeroFence_def split: option.split)
  have fences: "validateCodexLeaseRecordFences cr (gf_records post) (jn_records next) = Inr ()"
    unfolding validateCodexLeaseRecordFences_def checkRecordFences_iff
    using d old(2) exact by (auto simp: post rec)
  have before: "case lookupLane cr (jn_lanes j) target of
       None \<Rightarrow> gf_lane expected = 0 \<and> gf_current expected = zeroIdentity \<and> gf_last expected = zeroIdentity
     | Some l \<Rightarrow> gf_lane expected = ln_generation l \<and>
         gf_current expected = codexLaneTupleIdentity cr l True \<and>
         gf_last expected = codexLaneTupleIdentity cr l False"
    using facts(8-11) by (auto simp: laneFence_def storedLane_def td split: option.splits if_splits)
  have after: "gf_journal post = jn_generation next" "gf_lane post = ln_generation l"
    "gf_current post = codexLaneTupleIdentity cr l True" "gf_last post = codexLaneTupleIdentity cr l False"
    by (simp_all add: post)
  show ?thesis
    using facts(1) gen u64_less_Suc [OF facts(2)] before after l fences by simp
qed

lemma build_generation:
  assumes "buildCodexLeaseRecordAfterImage generation c now = Inr (r, appended, cache)"
  shows "jr_generation r = (if ri_exists c then jr_generation (ri_old c) + 1 else 1)"
proof -
  from assms obtain base r1 r2 where
    base: "(if ri_exists c then existingRecordImage c else newRecordImage c now) = Inr base"
    and req: "requestAfterImage c (base\<lparr>jr_observed := now\<rparr>) now = Inr (r1, appended)"
    and pin: "pinIndeterminate c r1 = Inr r2" and r: "r = admitRecord generation r2 now"
    by (rule record_image_cases)
  have "jr_generation base = (if ri_exists c then jr_generation (ri_old c) + 1 else 1)"
    using base by (auto simp: newRecordImage_def Let_def andThen_failIf_iff
      dest!: existingRecordImage_cases(5) split: if_splits)
  moreover have "jr_generation r1 = jr_generation base"
    by (subst requestAfterImage_frame [OF req]) simp
  moreover have "jr_generation r2 = jr_generation r1"
    by (subst pinIndeterminate_frame(1) [OF pin]) simp
  ultimately show ?thesis by (simp add: r)
qed

text \<open>
  C27. The reach of a mutation: omission deletes nothing. Records the mutation does not name
  keep their value, lanes other than its target keep theirs; a deleted record was idle and
  ended; an upserted one moves its generation from the stored one to the next, or starts at
  one.
\<close>

theorem commit_frame:
  assumes commit: "applyCodexLaneMutationLocked cr j wallNow retention expected m = Inr (next, post)"
    and target: "codexLaneMutationTarget cr m = Inr target"
  shows "(\<forall>k. k \<notin> set (upsertIds cr m) \<and> k \<notin> set (lm_deletes m) \<longrightarrow>
       lookupRecord cr (jn_records next) k = map_option canonicalRecord (lookupRecord cr (jn_records j) k)) \<and>
    (\<forall>d. d \<noteq> target \<longrightarrow>
       lookupLane cr (jn_lanes next) d = map_option canonicalLane (lookupLane cr (jn_lanes j) d)) \<and>
    (\<forall>k \<in> set (lm_deletes m). lookupRecord cr (jn_records next) k = None \<and>
       (\<exists>r. lookupRecord cr (jn_records j) k = Some r \<and> \<not> recordLive r wallNow retention \<and>
          codexLeaseRetentionActionFor r wallNow retention = RetentionDelete)) \<and>
    (\<forall>x \<in> set (lm_upserts m). \<exists>r. lookupRecord cr (jn_records next) (Identity cr x) = Some r \<and>
       jr_generation r = (case lookupRecord cr (jn_records j) (Identity cr x) of
         None \<Rightarrow> 1 | Some old \<Rightarrow> jr_generation old + 1))"
proof -
  from commit obtain t s lane lane' linked where t: "resolveTarget cr j expected m = Inr t"
    and dels: "checkDeletions cr m (jn_records j) wallNow retention = Inr ()"
    and image: "laneImage cr m t s (jn_records j) (applyDeletes cr (lm_deletes m) (cs_records s)) = Inr lane"
    and finish: "finishLane cr (jn_generation j) m t s (commitTime wallNow t) lane = Inr lane'"
    and "next": "next = canonicaliseCodexLeaseV2 (j\<lparr>jn_records := linked,
       jn_lanes := installLane cr t lane' (jn_lanes j), jn_generation := jn_generation j + 1\<rparr>)"
    by (rule apply_cases)
  note facts = resolveTarget_facts [OF t]
  have td: "ct_digest t = target" using facts(6) target by simp
  note records = commit_records [OF commit t]
  have digest: "laneDigestOf cr lane' = ct_digest t"
    using laneImage_facts(1) [OF image] lanePointers_readers(1) [OF finishLane_pointers [OF finish]] by simp
  note installed = installLane_lookup [OF facts(5) digest facts(8)]
  have lanes: "lookupLane cr (jn_lanes next) d = map_option canonicalLane (lookupLane cr (jn_lanes j) d)"
    if "d \<noteq> target" for d
    using canonical_lookupLane [of cr "j\<lparr>jn_records := linked,
       jn_lanes := installLane cr t lane' (jn_lanes j), jn_generation := jn_generation j + 1\<rparr>" d]
      installed that by (simp add: "next" td)
  have deleted: "\<exists>r. lookupRecord cr (jn_records j) k = Some r \<and> \<not> recordLive r wallNow retention \<and>
      codexLeaseRetentionActionFor r wallNow retention = RetentionDelete" if "k \<in> set (lm_deletes m)" for k
    using dels that action_iff(2)
    by (auto simp: checkDeletions_def forE_Inr_iff split: option.splits)
  have upserted: "\<exists>r. lookupRecord cr (jn_records next) (Identity cr x) = Some r \<and>
      jr_generation r = (case lookupRecord cr (jn_records j) (Identity cr x) of
         None \<Rightarrow> 1 | Some old \<Rightarrow> jr_generation old + 1)" if x: "x \<in> set (lm_upserts m)" for x
  proof -
    let ?stored = "lookupRecord cr (jn_records j) (Identity cr x)"
    let ?c = "upsertInput cr m (storedLane t) (jn_invalidation j) (gf_records expected) ?stored x"
    from records x obtain r appended first g p where
      build: "buildCodexLeaseRecordAfterImage (jn_generation j) ?c (commitTime wallNow t) = Inr (r, appended, first)"
      and final: "lookupRecord cr (jn_records next) (Identity cr x) =
         Some (canonicalRecord (r\<lparr>jr_lane_generation := g, jr_pred_generation := p\<rparr>))" by blast
    have c: "ri_exists ?c = (?stored \<noteq> None)" "?stored = Some old \<Longrightarrow> ri_old ?c = old" for old
      by (simp_all add: upsertInput_def Let_def)
    have "jr_generation r = (case ?stored of None \<Rightarrow> 1 | Some old \<Rightarrow> jr_generation old + 1)"
      using build_generation [OF build] c by (cases ?stored) simp_all
    with final show ?thesis by (simp add: canonicalRecord_def)
  qed
  show ?thesis using records lanes deleted upserted by blast
qed

text \<open>
  C3. No lost update: every record the mutation upserts or deletes was presented with its
  stored revision, lease generation, request generation and current attempt, or as absent.
\<close>

theorem commit_no_lost_update:
  assumes commit: "applyCodexLaneMutationLocked cr j wallNow retention expected m = Inr (next, post)"
    and touched: "k \<in> set (upsertIds cr m) \<union> set (lm_deletes m)"
  shows "\<exists>f \<in> set (gf_records expected). rf_record f = k \<and>
    (case lookupRecord cr (jn_records j) k of
       None \<Rightarrow> rf_revision f = 0 \<and> rf_lease f = 0 \<and> rf_request f = 0 \<and> rf_current f = 0
     | Some r \<Rightarrow> rf_revision f = jr_generation r \<and> rf_lease f = jr_lease_generation r \<and>
         rf_request f = cq_generation (jr_request r) \<and> rf_current f = cq_current (jr_request r))"
proof -
  from commit obtain t where t: "resolveTarget cr j expected m = Inr t"
    and check: "checkTouched cr expected m (ct_digest t) (jn_records j) = Inr ()"
    by (rule apply_cases)
  have "k \<in> set (requiredFences cr m (ct_digest t) (jn_records j))"
    using touched by (auto simp: requiredFences_def fencedIdentities_def)
  with check obtain f where f: "f \<in> set (gf_records expected)" "rf_record f = k"
    by (auto simp: checkTouched_def Let_def andThen_Inr_iff)
  from check f(1) have "checkRecordFence f (lookupRecord cr (jn_records j) (rf_record f)) = Inr ()"
    by (simp add: checkTouched_def Let_def andThen_Inr_iff validateCodexLeaseRecordFences_def
      checkRecordFences_iff)
  with f show ?thesis
    by (intro bexI [OF _ f(1)]) (auto simp: checkRecordFence_def split: option.splits if_splits)
qed

text \<open>The transition of a lane's head, as the journals before and after show it.\<close>

definition headStep :: "crypto \<Rightarrow> lane_mutation \<Rightarrow> journal \<Rightarrow> journal \<Rightarrow> journal_lane \<Rightarrow> journal_lane \<Rightarrow> bool" where
  "headStep cr m j next l l' \<longleftrightarrow>
     (let oldCurrent = codexLaneTupleIdentity cr l True; oldLast = codexLaneTupleIdentity cr l False;
          newCurrent = codexLaneTupleIdentity cr l' True; newLast = codexLaneTupleIdentity cr l' False;
          before = lookupRecord cr (jn_records j); after = lookupRecord cr (jn_records next)
      in (newCurrent = oldCurrent \<and> newLast = oldLast) \<or>
         (oldCurrent = zeroIdentity \<and> newCurrent = oldLast \<and> newLast = oldLast \<and>
          (\<exists>r. before oldLast = Some r \<and> codexLeaseRestartableFailedHead r)) \<or>
         (newCurrent = zeroIdentity \<and> newLast = oldLast \<and>
          (\<exists>r. after oldCurrent = Some r \<and> jr_state r = LeaseFailedUnadmitted)) \<or>
         (newCurrent = newLast \<and> newLast \<in> set (upsertIds cr m) \<and> before newLast = None \<and>
          (\<exists>r p. after newLast = Some r \<and> after oldLast = Some p \<and>
             jr_pred_turn r = ri_turn oldLast \<and> jr_pred_epoch r = ri_epoch oldLast \<and>
             jr_pred_auth r = ri_auth oldLast \<and>
             (if oldCurrent = zeroIdentity
              then jr_state p \<in> {LeaseFailedUnadmitted, LeaseSuperseded, LeaseExpired}
              else oldCurrent = oldLast \<and> jr_state p = LeaseSuperseded \<and> drained (jr_request p)))))"

text \<open>What \<open>next\<close> shows of a record the mutation ended with.\<close>

definition shownIn :: "crypto \<Rightarrow> journal \<Rightarrow> record_identity \<Rightarrow> journal_record \<Rightarrow> bool" where
  "shownIn cr next k r \<longleftrightarrow> (\<exists>r'. lookupRecord cr (jn_records next) k = Some r' \<and> jr_state r' = jr_state r \<and>
     jr_pred_turn r' = jr_pred_turn r \<and> jr_pred_epoch r' = jr_pred_epoch r \<and> jr_pred_auth r' = jr_pred_auth r \<and>
     drained (jr_request r') = drained (jr_request r))"

lemma successorHead_step:
  assumes check: "successorHead cr oldCurrent oldLast created originals rs upserts = Inr ()"
    and shown: "\<And>k r. lookupRecord cr rs k = Some r \<Longrightarrow> shownIn cr next k r"
    and created: "lookupRecord cr rs created = Some c"
  shows "\<exists>r p. lookupRecord cr (jn_records next) created = Some r \<and>
    lookupRecord cr (jn_records next) oldLast = Some p \<and>
    jr_pred_turn r = ri_turn oldLast \<and> jr_pred_epoch r = ri_epoch oldLast \<and> jr_pred_auth r = ri_auth oldLast \<and>
    (if oldCurrent = zeroIdentity then jr_state p \<in> {LeaseFailedUnadmitted, LeaseSuperseded, LeaseExpired}
     else oldCurrent = oldLast \<and> jr_state p = LeaseSuperseded \<and> drained (jr_request p))"
proof -
  from check obtain p where p: "lookupRecord cr rs oldLast = Some p"
    and state: "if oldCurrent = zeroIdentity
      then jr_state p \<in> {LeaseFailedUnadmitted, LeaseSuperseded, LeaseExpired}
      else oldCurrent = oldLast \<and> jr_state p = LeaseSuperseded \<and> drained (jr_request p)"
    by (auto simp: successorHead_def Let_def andThen_Inr_iff split: option.splits if_splits)
  from check created have "jr_pred_turn c = ri_turn oldLast" "jr_pred_epoch c = ri_epoch oldLast"
    "jr_pred_auth c = ri_auth oldLast"
    by (auto simp: successorHead_def Let_def andThen_Inr_iff recordAt_def)
  with shown [OF created] shown [OF p] state show ?thesis
    unfolding shownIn_def by (metis (full_types))
qed

lemma head_step_of_check:
  assumes check: "validateCodexLeaseHeadTransition cr True (codexLaneTupleIdentity cr l True)
      (codexLaneTupleIdentity cr l False) lane (jn_records j) rs (upsertIds cr m) = Inr ()"
    and same: "\<And>b. codexLaneTupleIdentity cr l' b = codexLaneTupleIdentity cr lane b"
    and shown: "\<And>k r. lookupRecord cr rs k = Some r \<Longrightarrow> shownIn cr next k r"
    and present: "\<And>i. i \<in> set (upsertIds cr m) \<Longrightarrow> \<exists>r. lookupRecord cr rs i = Some r"
  shows "headStep cr m j next l l'"
proof -
  let ?created = "filter (\<lambda>i. lookupRecord cr (jn_records j) i = None) (upsertIds cr m)"
  let ?oc = "codexLaneTupleIdentity cr l True" and ?ol = "codexLaneTupleIdentity cr l False"
  let ?nc = "codexLaneTupleIdentity cr lane True" and ?nl = "codexLaneTupleIdentity cr lane False"
  show ?thesis
  proof (cases "?created = []")
    case True
    with check have "sameHead cr ?oc ?ol ?nc ?nl (jn_records j) rs (upsertIds cr m)"
      unfolding validateCodexLeaseHeadTransition_def Let_def by simp
    then consider "?nc = ?oc \<and> ?nl = ?ol"
      | r where "?oc = zeroIdentity" "?nc = ?ol" "?nl = ?ol" "lookupRecord cr (jn_records j) ?ol = Some r"
          "codexLeaseRestartableFailedHead r"
      | r where "?nc = zeroIdentity" "?nl = ?ol" "lookupRecord cr rs ?oc = Some r"
          "jr_state r = LeaseFailedUnadmitted"
      unfolding sameHead_def by (auto split: option.splits)
    then show ?thesis
    proof cases
      case 1
      then show ?thesis by (simp add: headStep_def Let_def same)
    next
      case 2
      then show ?thesis by (simp add: headStep_def Let_def same)
    next
      case 3
      with shown [OF 3(3)] show ?thesis by (auto simp: headStep_def Let_def same shownIn_def)
    qed
  next
    case False
    with check have one: "length ?created = 1" and new: "?nc = hd ?created" "?nl = hd ?created"
      and succ: "successorHead cr ?oc ?ol (hd ?created) (jn_records j) rs (upsertIds cr m) = Inr ()"
      unfolding validateCodexLeaseHeadTransition_def Let_def by (simp_all split: if_splits)
    from False have "hd ?created \<in> set ?created" by (rule hd_in_set)
    then have created: "hd ?created \<in> set (upsertIds cr m)" "lookupRecord cr (jn_records j) (hd ?created) = None"
      by (simp_all only: set_filter mem_Collect_eq)
    from present [OF created(1)] obtain c where c: "lookupRecord cr rs (hd ?created) = Some c" by blast
    note step = successorHead_step [OF succ shown c]
    have "?nc = ?nl \<and> ?nl \<in> set (upsertIds cr m) \<and> lookupRecord cr (jn_records j) ?nl = None"
      using new created by metis
    with step show ?thesis unfolding headStep_def Let_def same new by blast
  qed
qed

text \<open>
  C28. One head per lane: a mutation keeps the lane's current and last turn, restarts its
  failed last turn, clears a current turn that failed unadmitted, or installs one new turn
  that names the last one as its predecessor, which by then is superseded and drained or had
  already ended. A new lane starts with one turn that is both current and last.
\<close>

theorem commit_head_transition:
  assumes commit: "applyCodexLaneMutationLocked cr j wallNow retention expected m = Inr (next, post)"
    and target: "codexLaneMutationTarget cr m = Inr target"
  shows "\<exists>l'. lookupLane cr (jn_lanes next) target = Some l' \<and>
    (case lookupLane cr (jn_lanes j) target of
       Some l \<Rightarrow> headStep cr m j next l l'
     | None \<Rightarrow> codexLaneTupleIdentity cr l' True = codexLaneTupleIdentity cr l' False \<and>
         (\<exists>r. lookupRecord cr (jn_records next) (codexLaneTupleIdentity cr l' True) = Some r \<and>
            lookupRecord cr (jn_records j) (codexLaneTupleIdentity cr l' True) = None \<and>
            jr_pred_turn r = []))"
proof -
  from commit obtain t s lane lane' linked where t: "resolveTarget cr j expected m = Inr t"
    and touched: "checkTouched cr expected m (ct_digest t) (jn_records j) = Inr ()"
    and scan: "commitScan cr j wallNow expected m t = Inr s"
    and image: "laneImage cr m t s (jn_records j) (applyDeletes cr (lm_deletes m) (cs_records s)) = Inr lane"
    and finish: "finishLane cr (jn_generation j) m t s (commitTime wallNow t) lane = Inr lane'"
    and link: "linkRecords cr (ct_digest t) (jn_records j) (applyDeletes cr (lm_deletes m) (cs_records s))
       (ln_generation lane') (upsertIds cr m) (applyDeletes cr (lm_deletes m) (cs_records s)) = Inr linked"
    and "next": "next = canonicaliseCodexLeaseV2 (j\<lparr>jn_records := linked,
       jn_lanes := installLane cr t lane' (jn_lanes j), jn_generation := jn_generation j + 1\<rparr>)"
    by (rule apply_cases)
  let ?rs = "applyDeletes cr (lm_deletes m) (cs_records s)"
  note facts = resolveTarget_facts [OF t]
  have td: "ct_digest t = target" using facts(6) target by simp
  note pointers = lanePointers_readers [OF finishLane_pointers [OF finish]]
  have digest: "laneDigestOf cr lane' = ct_digest t"
    using laneImage_facts(1) [OF image] pointers(1) by simp
  note installed = installLane_lookup [OF facts(5) digest facts(8)]
  have l': "lookupLane cr (jn_lanes next) target = Some (canonicalLane lane')"
    using canonical_lookupLane [of cr "j\<lparr>jn_records := linked,
       jn_lanes := installLane cr t lane' (jn_lanes j), jn_generation := jn_generation j + 1\<rparr>" target]
      installed by (simp add: "next" td)
  have drs: "distinctIds cr ?rs"
    by (rule commit_scan_distinct [OF touched facts(3) scan [unfolded commitScan_def]])
  note link2 = commit_link [OF link drs "next"]
  note head = laneImage_facts(2) [OF image]
  have shown: "shownIn cr next k r" if "lookupRecord cr ?rs k = Some r" for k r
    using link2(2) [OF that]
    by (auto simp: shownIn_def canonicalRecord_def canonicalRequest_def drained_def)
  have present: "\<exists>r. lookupRecord cr ?rs i = Some r" if "i \<in> set (upsertIds cr m)" for i
  proof (rule ccontr)
    assume "\<not> ?thesis"
    then have "lookupRecord cr (jn_records next) i = None" using link2(1) by auto
    with commit_records [OF commit t] that show False by auto
  qed
  show ?thesis
  proof (cases "lookupLane cr (jn_lanes j) target")
    case None
    with head td facts(8) obtain i where
      i: "filter (\<lambda>i. lookupRecord cr (jn_records j) i = None) (upsertIds cr m) = [i]"
      "codexLaneTupleIdentity cr lane True = i" "codexLaneTupleIdentity cr lane False = i"
      "jr_pred_turn (recordAt cr ?rs i) = []"
      by (auto simp: validateCodexLeaseHeadTransition_def Let_def newLaneHead_def
        split: list.splits if_splits)
    have "i \<in> set (filter (\<lambda>i. lookupRecord cr (jn_records j) i = None) (upsertIds cr m))"
      by (simp only: i(1) list.set_intros(1))
    then have created: "i \<in> set (upsertIds cr m)" "lookupRecord cr (jn_records j) i = None"
      by (simp_all only: set_filter mem_Collect_eq)
    from present [OF created(1)] obtain r where r: "lookupRecord cr ?rs i = Some r" by blast
    with shown [OF r] i(4) have "\<exists>r'. lookupRecord cr (jn_records next) i = Some r' \<and> jr_pred_turn r' = []"
      by (auto simp: recordAt_def shownIn_def)
    with l' None i created pointers show ?thesis by auto
  next
    case (Some l)
    have stored: "ct_current t = codexLaneTupleIdentity cr l True" "ct_last t = codexLaneTupleIdentity cr l False"
      using facts(8-10) Some td by (simp_all add: storedLane_def)
    have "headStep cr m j next l (canonicalLane lane')"
      by (rule head_step_of_check [OF _ _ shown present])
        (use head Some td facts(8) pointers in \<open>simp_all add: stored\<close>)
    with l' Some show ?thesis by auto
  qed
qed

section \<open>The generation as a compare-and-swap\<close>

lemma apply_version:
  assumes "applyCodexLaneMutationLocked cr j wallNow retention expected m = Inr (next, post)"
  shows "gf_journal expected = jn_generation j" "jn_generation j \<noteq> MaxUint64"
    "jn_generation next = jn_generation j + 1"
proof -
  from assms obtain t where t: "resolveTarget cr j expected m = Inr t" by (rule apply_cases)
  show "gf_journal expected = jn_generation j" "jn_generation j \<noteq> MaxUint64"
    by (rule resolveTarget_facts [OF t])+
  from assms show "jn_generation next = jn_generation j + 1"
    by (rule apply_cases) (simp add: canonicaliseCodexLeaseV2_def)
qed

text \<open>A commit at some reading of the clock takes one journal to the next.\<close>

definition commitStep :: "crypto \<Rightarrow> int \<Rightarrow> journal \<Rightarrow> generation_fence \<Rightarrow> lane_mutation \<times> gotime \<Rightarrow> journal \<Rightarrow> bool"
  where
  "commitStep cr retention j expected mt next \<longleftrightarrow>
     (case applyCodexLaneMutationLocked cr j (snd mt) retention expected (fst mt) of
        Inl _ \<Rightarrow> False | Inr r \<Rightarrow> fst r = next)"

interpretation laneCommit: versioned_store jn_generation gf_journal "commitStep cr retention"
  for cr retention
  by unfold_locales (auto simp: commitStep_def dest: apply_version split: sum.splits)

text \<open>
  A fence commits at most once: after a commit, no later journal accepts any mutation
  that names the generation the commit was made against, whatever its content.
\<close>

theorem commit_fence_once:
  assumes "commitStep cr retention j expected mt next"
    and "(\<lambda>s s'. \<exists>f x. commitStep cr retention s f x s')\<^sup>*\<^sup>* next later"
    and "gf_journal stale = gf_journal expected"
  shows "\<not> commitStep cr retention later stale mt' next'"
  by (rule laneCommit.superseded_fence [OF assms(1) _ assms(3)])
    (unfold laneCommit.committed_def, rule assms(2))

section \<open>Accounts a request may not reuse\<close>

definition planAvoids :: "crypto \<Rightarrow> journal_lane \<Rightarrow> journal_record \<Rightarrow> bool" where
  "planAvoids cr lane r \<longleftrightarrow>
     (let slots = ae_slots (cq_envelope (jr_request r)) in
      if cq_quota_probe (jr_request r)
      then \<exists>account. containsHash (ln_exhausted lane) account \<and>
        (\<forall>slot \<in> set slots. constantTimeCodexLeaseDigestEqual (sl_account slot) account)
      else \<forall>slot \<in> set slots. \<not> containsHash (ln_exhausted lane) (sl_account slot) \<and>
        (Identity cr r = codexLaneRequestScopeIdentity cr lane \<longrightarrow>
           \<not> containsHash (ln_unavailable lane) (sl_account slot)))"

lemma availability_avoids:
  "validateCodexLeaseBeginRequestAvailability cr lane r = Inr () \<Longrightarrow> planAvoids cr lane r"
  by (auto simp: validateCodexLeaseBeginRequestAvailability_def planAvoids_def Let_def
    split: option.splits if_splits)

lemma planAvoids_canonical:
  assumes "planAvoids cr lane r" and "lanePointers lane' = lanePointers lane"
  shows "planAvoids cr (canonicalLane lane') (canonicalRecord (r\<lparr>jr_lane_generation := g, jr_pred_generation := p\<rparr>))"
proof -
  let ?r = "canonicalRecord (r\<lparr>jr_lane_generation := g, jr_pred_generation := p\<rparr>)"
  have lane: "set (ln_exhausted (canonicalLane lane')) = set (ln_exhausted lane)"
    "set (ln_unavailable (canonicalLane lane')) = set (ln_unavailable lane)"
    using assms(2) by (simp_all add: canonicalLane_def lanePointers_def)
  have scope: "codexLaneRequestScopeIdentity cr (canonicalLane lane') = codexLaneRequestScopeIdentity cr lane"
    unfolding codexLaneRequestScopeIdentity_def canonical_lane_readers lanePointers_readers(2) [OF assms(2)]
    by (rule refl)
  have r: "set (ae_slots (cq_envelope (jr_request ?r))) = set (ae_slots (cq_envelope (jr_request r)))"
    "cq_quota_probe (jr_request ?r) = cq_quota_probe (jr_request r)" "Identity cr ?r = Identity cr r"
    by (simp_all add: canonicalRecord_def canonicalRequest_def Identity_def)
  have hashes: "containsHash (ln_exhausted (canonicalLane lane')) h = containsHash (ln_exhausted lane) h"
    "containsHash (ln_unavailable (canonicalLane lane')) h = containsHash (ln_unavailable lane) h" for h
    by (simp_all only: containsHash_def lane)
  show ?thesis using assms(1) unfolding planAvoids_def Let_def r scope hashes .
qed

lemma begin_state:
  assumes "buildCodexLeaseRecordAfterImage generation c now = Inr (r, appended, cache)" and "ri_begin c"
  shows "jr_state r \<in> {LeaseBoundActive, LeaseProvisional}"
proof -
  from assms(1) obtain base r1 r2 where
    req: "requestAfterImage c (base\<lparr>jr_observed := now\<rparr>) now = Inr (r1, appended)"
    and pin: "pinIndeterminate c r1 = Inr r2" and r: "r = admitRecord generation r2 now"
    by (rule record_image_cases)
  have "jr_state (base\<lparr>jr_observed := now\<rparr>) \<in> {LeaseBoundActive, LeaseProvisional}"
    using begin_request_cases(2) [OF req assms(2)]
    by (auto simp: beginRequestBinding_def Let_def andThen_failIf_iff)
  moreover have "jr_state r1 = jr_state (base\<lparr>jr_observed := now\<rparr>)"
    by (subst requestAfterImage_frame [OF req]) simp
  moreover have "jr_state r2 = jr_state r1"
    by (subst pinIndeterminate_frame(1) [OF pin]) simp
  ultimately show ?thesis by (simp add: r)
qed

text \<open>
  No request is planned on an account the lane knows to be spent: once BeginRequest has
  committed, no slot of the record's plan is on an account the lane lists as exhausted, nor,
  where the record is the one the lane's request belongs to, on one it lists as unavailable;
  a quota probe is the exception, and spans exactly one account, an exhausted one.
\<close>

theorem commit_begin_avoids_spent:
  assumes commit: "applyCodexLaneMutationLocked cr j wallNow retention expected m = Inr (next, post)"
    and target: "codexLaneMutationTarget cr m = Inr target" and b: "lm_begin m = Some i"
  shows "\<exists>l r. lookupLane cr (jn_lanes next) target = Some l \<and>
    lookupRecord cr (jn_records next) i = Some r \<and> planAvoids cr l r"
proof -
  from commit obtain t s lane lane' linked where t: "resolveTarget cr j expected m = Inr t"
    and touched: "checkTouched cr expected m (ct_digest t) (jn_records j) = Inr ()"
    and scan: "commitScan cr j wallNow expected m t = Inr s"
    and image: "laneImage cr m t s (jn_records j) (applyDeletes cr (lm_deletes m) (cs_records s)) = Inr lane"
    and finish: "finishLane cr (jn_generation j) m t s (commitTime wallNow t) lane = Inr lane'"
    and link: "linkRecords cr (ct_digest t) (jn_records j) (applyDeletes cr (lm_deletes m) (cs_records s))
       (ln_generation lane') (upsertIds cr m) (applyDeletes cr (lm_deletes m) (cs_records s)) = Inr linked"
    and "next": "next = canonicaliseCodexLeaseV2 (j\<lparr>jn_records := linked,
       jn_lanes := installLane cr t lane' (jn_lanes j), jn_generation := jn_generation j + 1\<rparr>)"
    by (rule apply_cases)
  let ?rs = "applyDeletes cr (lm_deletes m) (cs_records s)"
  note facts = resolveTarget_facts [OF t]
  have td: "ct_digest t = target" using facts(6) target by simp
  note finished = finishLane_pointers [OF finish]
  have digest: "laneDigestOf cr lane' = ct_digest t"
    using laneImage_facts(1) [OF image] lanePointers_readers(1) [OF finished] by simp
  note installed = installLane_lookup [OF facts(5) digest facts(8)]
  have l': "lookupLane cr (jn_lanes next) target = Some (canonicalLane lane')"
    using canonical_lookupLane [of cr "j\<lparr>jn_records := linked,
       jn_lanes := installLane cr t lane' (jn_lanes j), jn_generation := jn_generation j + 1\<rparr>" target]
      installed by (simp add: "next" td)
  have sole: "\<exists>x. lm_upserts m = [x] \<and> Identity cr x = i" and nodel: "lm_deletes m = []"
    using facts(7) by (auto simp: checkNamedOperations_def andThen_Inr_iff b soleUpsert_def split: list.splits)
  then obtain x where x: "lm_upserts m = [x]" "Identity cr x = i" by blast
  have ups: "distinctIds cr (lm_upserts m)" using x by simp
  from upserts_lookup [OF scan [unfolded commitScan_def] ups] facts(3) obtain r appended first where
    build: "buildCodexLeaseRecordAfterImage (jn_generation j) (upsertInput cr m (storedLane t) (jn_invalidation j)
      (gf_records expected) (lookupRecord cr (jn_records j) i) x) (commitTime wallNow t) = Inr (r, appended, first)"
    and r: "lookupRecord cr (cs_records s) i = Some r" by (auto simp: x startScan_def)
  have "jr_state r \<in> {LeaseBoundActive, LeaseProvisional}"
    by (rule begin_state [OF build]) (simp add: upsertInput_def Let_def named_def b x)
  then have alive: "jr_state r \<noteq> LeaseFailedUnadmitted" by auto
  have look: "lookupRecord cr ?rs i = Some r" using r nodel by (simp add: lookup_deletes)
  then have at: "recordAt cr ?rs i = r" by (simp add: recordAt_def)
  have "validateCodexLeaseBeginRequestAvailability cr lane r = Inr ()"
    using image at alive by (auto simp: laneImage_def andThen_Inr_iff Let_def b named_def x clearFailedHead_def)
  then have "planAvoids cr lane r" by (rule availability_avoids)
  moreover have drs: "distinctIds cr ?rs"
    by (rule commit_scan_distinct [OF touched facts(3) scan [unfolded commitScan_def]])
  from commit_link(2) [OF link drs "next" look] obtain g p where
    "lookupRecord cr (jn_records next) i = Some (canonicalRecord (r\<lparr>jr_lane_generation := g, jr_pred_generation := p\<rparr>))"
    by blast
  ultimately show ?thesis using l' planAvoids_canonical [OF _ finished] by blast
qed

section \<open>A lane from reservation to admission\<close>

definition freshJournal :: journal where
  "freshJournal = sampleJournal\<lparr>jn_lanes := [], jn_records := []\<rparr>"

definition bareRecord :: journal_record where
  "bareRecord = zeroRecord\<lparr>jr_session := ''s'', jr_thread := ''t'', jr_namespace := ''n'',
     jr_turn := ''u'', jr_epoch := 1, jr_schema := 3, jr_auth := True, jr_state := LeaseReserving\<rparr>"

definition bareLane :: journal_lane where
  "bareLane = sampleLane\<lparr>ln_generation := 0\<rparr>"

definition emptyMutation :: lane_mutation where
  "emptyMutation = \<lparr>lm_lane = None, lm_begin = None, lm_latch = None, lm_unavailable = None,
     lm_exhausted = None, lm_cycle = None, lm_upserts = [], lm_deletes = []\<rparr>"

abbreviation sampleId :: record_identity where
  "sampleId \<equiv> Identity sampleCrypto bareRecord"

definition reserveMutation :: lane_mutation where
  "reserveMutation = emptyMutation\<lparr>lm_lane := Some bareLane, lm_upserts := [bareRecord]\<rparr>"

definition reserveFence :: generation_fence where
  "reserveFence = \<lparr>gf_journal = 7, gf_lane = 0, gf_current = zeroIdentity, gf_last = zeroIdentity,
     gf_records = [zeroFence\<lparr>rf_record := sampleId\<rparr>]\<rparr>"

definition laneReserved :: "lease_error + journal \<times> generation_fence" where
  "laneReserved = applyCodexLaneMutationLocked sampleCrypto freshJournal (GoTime 50 True) 10
     reserveFence reserveMutation"

definition beginMutation :: lane_mutation where
  "beginMutation = emptyMutation\<lparr>lm_begin := Some sampleId, lm_upserts := [bareRecord\<lparr>
     jr_state := LeaseProvisional, jr_account := sampleAccountA,
     jr_request := zeroRequest\<lparr>cq_kind := CodexRequestTurn, cq_envelope := sampleEnvelope,
       cq_routing_refs := 1,
       cq_attempts := [zeroAttempt\<lparr>at_slot := 1, at_state := AttemptPrepared\<rparr>]\<rparr>\<rparr>]\<rparr>"

definition beginFence :: generation_fence where
  "beginFence = (snd (projr laneReserved))\<lparr>gf_records := map (\<lambda>f. f\<lparr>rf_attempts :=
     [\<lparr>af_request = 0, af_generation = 0, af_revision = 0\<rparr>]\<rparr>) (gf_records (snd (projr laneReserved)))\<rparr>"

definition sampleBegan :: "lease_error + journal \<times> generation_fence" where
  "sampleBegan = applyCodexLaneMutationLocked sampleCrypto (fst (projr laneReserved)) (GoTime 60 True) 10
     beginFence beginMutation"

lemma isr_eq: "(case x of Inl _ \<Rightarrow> False | Inr _ \<Rightarrow> True) \<Longrightarrow> x = Inr (fst (projr x), snd (projr x))"
  by (cases x) auto

lemma laneReserved_ok: "laneReserved = Inr (fst (projr laneReserved), snd (projr laneReserved))"
  by (rule isr_eq) code_simp

lemma sampleBegan_ok: "sampleBegan = Inr (fst (projr sampleBegan), snd (projr sampleBegan))"
  by (rule isr_eq) code_simp

lemmas reserved = laneReserved_ok [unfolded laneReserved_def]
lemmas began = sampleBegan_ok [unfolded sampleBegan_def]

definition sampleTarget :: string where "sampleTarget = laneDigestOf sampleCrypto bareLane"

lemma sample_targets:
  "codexLaneMutationTarget sampleCrypto reserveMutation = Inr sampleTarget"
  "codexLaneMutationTarget sampleCrypto beginMutation = Inr sampleTarget"
  by code_simp+

theorem commit_fences_exact_witness:
  "jn_generation (fst (projr sampleBegan)) = jn_generation (fst (projr laneReserved)) + 1"
  using commit_fences_exact [OF began sample_targets(2)] by (simp add: sampleBegan_def)

theorem commit_frame_witness:
  "lookupLane sampleCrypto (jn_lanes (fst (projr sampleBegan))) [] =
   map_option canonicalLane (lookupLane sampleCrypto (jn_lanes (fst (projr laneReserved))) [])"
proof -
  have "[] \<noteq> sampleTarget" by code_simp
  with commit_frame [OF began sample_targets(2)] show ?thesis by (simp add: sampleBegan_def)
qed

theorem commit_no_lost_update_witness:
  "\<exists>f \<in> set (gf_records beginFence). rf_record f = sampleId"
proof -
  have "sampleId \<in> set (upsertIds sampleCrypto beginMutation) \<union> set (lm_deletes beginMutation)" by code_simp
  from commit_no_lost_update [OF began this] show ?thesis by blast
qed

theorem commit_head_transition_witness:
  "\<exists>l'. lookupLane sampleCrypto (jn_lanes (fst (projr laneReserved))) sampleTarget = Some l' \<and>
     codexLaneTupleIdentity sampleCrypto l' True = codexLaneTupleIdentity sampleCrypto l' False"
proof -
  have none: "lookupLane sampleCrypto (jn_lanes freshJournal) sampleTarget = None" by code_simp
  from commit_head_transition [OF reserved sample_targets(1)]
  show ?thesis unfolding none laneReserved_def [symmetric] by auto
qed

theorem commit_fence_once_witness:
  "\<not> (\<exists>next'. commitStep sampleCrypto 10 (fst (projr laneReserved)) reserveFence
     (reserveMutation, GoTime 60 True) next')"
proof -
  have "\<not> commitStep sampleCrypto 10 (fst (projr laneReserved)) reserveFence
     (reserveMutation, GoTime 60 True) next'" for next'
  proof (rule commit_fence_once)
    show "commitStep sampleCrypto 10 freshJournal reserveFence (reserveMutation, GoTime 50 True)
        (fst (projr laneReserved))"
      unfolding commitStep_def fst_conv snd_conv laneReserved_def [symmetric]
      by (subst laneReserved_ok) simp
  qed simp_all
  then show ?thesis by blast
qed

theorem commit_begin_avoids_spent_witness:
  "\<exists>l r. lookupLane sampleCrypto (jn_lanes (fst (projr sampleBegan))) sampleTarget = Some l \<and>
     lookupRecord sampleCrypto (jn_records (fst (projr sampleBegan))) sampleId = Some r \<and> planAvoids sampleCrypto l r"
proof -
  have "lm_begin beginMutation = Some sampleId" by (simp add: beginMutation_def)
  from commit_begin_avoids_spent [OF began sample_targets(2) this] show ?thesis
    by (simp add: sampleBegan_def)
qed

end
