(* ===== verification/Models.thy ===== *)
theory Models
  imports RoutePolicy
begin

text \<open>
  Names shared by the route projection, the capacity ledger and the lease journal: white space
  and decimal numbers as the standard library has them, and the capacity buckets and plans of
  model names (\<open>codex_capacity.go\<close>, \<open>codex_selector.go\<close> and \<open>codex_transport.go\<close> under
  \<open>internal/proxy\<close>).
\<close>

section \<open>White space and numbers\<close>

definition asciiSpace :: "char \<Rightarrow> bool" where
  "asciiSpace c \<longleftrightarrow> c \<in> {CHR 0x09, CHR 0x0A, CHR 0x0B, CHR 0x0C, CHR 0x0D, CHR 0x20}"

text \<open>The UTF-8 encodings of the other white-space runes of package \<open>unicode\<close>.\<close>

definition wideSpaces :: "string list" where
  "wideSpaces = [[CHR 0xC2, CHR 0x85], [CHR 0xC2, CHR 0xA0], [CHR 0xE1, CHR 0x9A, CHR 0x80]] @
     map (\<lambda>n. [CHR 0xE2, CHR 0x80, char_of (n :: nat)]) ([128..<139] @ [168, 169, 175]) @
     [[CHR 0xE2, CHR 0x81, CHR 0x9F], [CHR 0xE3, CHR 0x80, CHR 0x80]]"

text \<open>\<open>strings.TrimSpace(s) == s\<close>: no white space at either end.\<close>

definition trimmed :: "string \<Rightarrow> bool" where
  "trimmed s \<longleftrightarrow>
     s = [] \<or> (\<not> asciiSpace (hd s) \<and> \<not> asciiSpace (last s) \<and>
       list_all (\<lambda>w. take (length w) s \<noteq> w \<and> drop (length s - length w) s \<noteq> w) wideSpaces)"

text \<open>\<open>strings.TrimSpace\<close>, from the left, with the wide spaces of the direction it looks in.\<close>

function trimLeft :: "string list \<Rightarrow> string \<Rightarrow> string" where
  "trimLeft wide s =
     (case s of [] \<Rightarrow> []
      | c # cs \<Rightarrow>
          if asciiSpace c then trimLeft wide cs
          else (case find (\<lambda>w. w \<noteq> [] \<and> take (length w) s = w) wide of
                  None \<Rightarrow> s
                | Some w \<Rightarrow> trimLeft wide (drop (length w) s)))"
  by pat_completeness auto
termination
  by (relation "measure (\<lambda>(wide, s). length s)") (auto simp: find_Some_iff)

declare trimLeft.simps [simp del]

definition trimSpace :: "string \<Rightarrow> string" where
  "trimSpace s = rev (trimLeft (map rev wideSpaces) (rev (trimLeft wideSpaces s)))"

fun decimal :: "nat \<Rightarrow> string" where
  "decimal n = (if n < 10 then [char_of (48 + n)]
     else decimal (n div 10) @ [char_of (48 + n mod 10)])"

declare decimal.simps [simp del]

section \<open>Capacity buckets\<close>

definition CapacityBucketBase :: capacity_bucket where "CapacityBucketBase = ''base''"
definition capacityBucketModelPrefix :: string where "capacityBucketModelPrefix = ''model:''"
definition codexSparkModel :: string where "codexSparkModel = ''gpt-5.3-codex-spark''"

definition codexModelRequiresPro :: "string \<Rightarrow> bool" where
  "codexModelRequiresPro model \<longleftrightarrow>
     (let normalised = toLower (ParseModel model);
          spark = toLower codexSparkModel
      in normalised = spark \<or>
         take (length spark + 1) normalised = spark @ ''-'')"

definition CapacityBucketForModel :: "string \<Rightarrow> capacity_bucket" where
  "CapacityBucketForModel model =
     (if codexModelRequiresPro (toLower (ParseModel model))
      then capacityBucketModelPrefix @ toLower codexSparkModel else CapacityBucketBase)"

definition codexFallbackModel :: string where "codexFallbackModel = ''gpt-5.3-codex''"

definition codexPlanSupportsModel :: "string \<Rightarrow> string \<Rightarrow> bool" where
  "codexPlanSupportsModel plan model \<longleftrightarrow> \<not> codexModelRequiresPro model \<or> equalFold plan ''pro''"

definition rewriteCodexModelName :: "string \<Rightarrow> string option" where
  "rewriteCodexModelName model =
     (let normalised = ParseModel model; lower = toLower normalised; spark = toLower codexSparkModel
      in if lower = spark then Some codexFallbackModel
         else if take (length spark + 1) lower = spark @ ''-''
         then Some (codexFallbackModel @ drop (length codexSparkModel) normalised)
         else None)"

text \<open>The buckets a route draws on: each model counts as the one the account's plan lets it be.\<close>

definition planModel :: "string \<Rightarrow> string \<Rightarrow> string" where
  "planModel plan model =
     (if codexPlanSupportsModel plan model then model
      else case rewriteCodexModelName model of Some rewritten \<Rightarrow> rewritten | None \<Rightarrow> model)"

definition addNew :: "'a list \<Rightarrow> 'a \<Rightarrow> 'a list" where
  "addNew xs x = (if x \<in> set xs then xs else xs @ [x])"

definition routeBuckets :: "string \<Rightarrow> string list \<Rightarrow> string \<Rightarrow> capacity_bucket list" where
  "routeBuckets effectiveModel requiredModels plan =
     foldl (\<lambda>buckets model. addNew buckets (CapacityBucketForModel (planModel plan model))) []
       (effectiveModel # requiredModels)"

end
