(* ===== verification/LeaseValidate.thy ===== *)
theory LeaseValidate
  imports LeaseCommit Models
begin

text \<open>
  The validators of the durable lease journal: \<open>validateCodexLeaseEnvelope\<close> and the semantic
  state behind it (\<open>internal/proxy/codex_lease_v2.go\<close>), which every journal passes before it
  is written and after it is read, and the state check of schema migrations with the
  admission evidence both share (\<open>codex_lease_v2_cas.go\<close>). A check is a \<open>string + unit\<close>
  whose \<open>Inl\<close> carries the message; the lists play the index maps, since every duplicate key
  is an error of its own.
\<close>

section \<open>Loops over the elements before\<close>

text \<open>
  A checking loop whose body may look at the elements already passed, the latest first:
  \<open>envelope.Lanes[index-1]\<close> is its head, and a map filled by the loop holds all of them.
\<close>

fun scanE :: "('x list \<Rightarrow> 'x \<Rightarrow> 'e + unit) \<Rightarrow> 'x list \<Rightarrow> 'x list \<Rightarrow> 'e + unit" where
  "scanE f prior [] = Inr ()"
| "scanE f prior (x # xs) = andThen (f prior x) (\<lambda>_. scanE f (x # prior) xs)"

lemma scanE_map:
  assumes "scanE f prior xs = Inr ()"
    and "\<And>prior x. x \<in> set xs \<Longrightarrow> f prior x = Inr () \<Longrightarrow> f' (map g prior) (g x) = Inr ()"
  shows "scanE f' (map g prior) (map g xs) = Inr ()"
  using assms
proof (induction xs arbitrary: prior)
  case Nil
  then show ?case by simp
next
  case (Cons x xs)
  have "scanE f (x # prior) xs = Inr ()" "f prior x = Inr ()"
    using Cons.prems(1) by (auto simp: andThen_Inr_iff)
  moreover from this Cons.prems(2) have "f' (map g prior) (g x) = Inr ()" by simp
  ultimately show ?case
    using Cons.IH [of "x # prior"] Cons.prems(2) by simp
qed

lemma scanE_each:
  assumes "scanE f prior xs = Inr ()" "x \<in> set xs"
  obtains prior' where "f prior' x = Inr ()"
  using assms by (induction xs arbitrary: prior) (auto simp: andThen_Inr_iff)

lemma scanE_invariant:
  assumes "scanE f prior xs = Inr ()" "I prior"
    and "\<And>prior x. I prior \<Longrightarrow> f prior x = Inr () \<Longrightarrow> I (x # prior)"
  shows "I (rev xs @ prior)"
  using assms by (induction xs arbitrary: prior) (auto simp: andThen_Inr_iff)

section \<open>Texts, times and epochs\<close>

definition codexLeaseUTCTime :: "gotime \<Rightarrow> bool" where
  "codexLeaseUTCTime value \<longleftrightarrow> \<not> isZeroTime value \<and> value = utc value"

definition validSortedCodexEpochs :: "u64 list \<Rightarrow> bool" where
  "validSortedCodexEpochs epochs \<longleftrightarrow> list_all (\<lambda>e. e \<noteq> 0) epochs \<and> ascending epochs"

definition validDigests :: "string list \<Rightarrow> bool" where
  "validDigests hashes \<longleftrightarrow> list_all validCodexLeaseDigest hashes \<and> ascending hashes"

fun validCodexLeaseState :: "lease_state \<Rightarrow> bool" where
  "validCodexLeaseState (LeaseStateOther n) = False"
| "validCodexLeaseState _ = True"

fun validCodexLeaseAttemptState :: "attempt_state \<Rightarrow> bool" where
  "validCodexLeaseAttemptState AttemptNone = False"
| "validCodexLeaseAttemptState (AttemptStateOther n) = False"
| "validCodexLeaseAttemptState _ = True"

definition compactionPhase :: "compaction_phase \<Rightarrow> bool" where
  "compactionPhase phase \<longleftrightarrow> phase = CodexCompactionStandalone \<or>
     phase = CodexCompactionPreTurn \<or> phase = CodexCompactionMidTurn"

definition validCodexLeaseRequest :: "request_kind \<Rightarrow> compaction_phase \<Rightarrow> bool" where
  "validCodexLeaseRequest kind phase \<longleftrightarrow>
     (if kind = CodexRequestTurn \<or> kind = CodexRequestPrewarm then phase = []
      else if kind = CodexRequestCompaction then compactionPhase phase else False)"

definition validCodexLeaseRequestKind :: "request_kind \<Rightarrow> compaction_phase \<Rightarrow> bool" where
  "validCodexLeaseRequestKind kind phase \<longleftrightarrow>
     (if kind = CodexRequestTurn \<or> kind = CodexRequestPrewarm \<or> kind = CodexRequestMemory
      then phase = []
      else if kind = CodexRequestCompaction then compactionPhase phase else False)"

section \<open>Capacity buckets\<close>

definition canonicalBucket :: "capacity_bucket \<Rightarrow> bool" where
  "canonicalBucket b \<longleftrightarrow> b \<noteq> [] \<and>
     (b = CapacityBucketBase \<or>
       (take (length capacityBucketModelPrefix) b = capacityBucketModelPrefix \<and>
        length b \<noteq> length capacityBucketModelPrefix \<and> b = toLower b))"

definition canonicalCodexCapacityBuckets :: "capacity_bucket list \<Rightarrow> bool" where
  "canonicalCodexCapacityBuckets buckets \<longleftrightarrow> list_all canonicalBucket buckets \<and> ascending buckets"

definition validCodexLeaseBuckets :: "capacity_bucket list \<Rightarrow> string \<Rightarrow> bool" where
  "validCodexLeaseBuckets buckets effectiveModel \<longleftrightarrow>
     buckets \<noteq> [] \<and> canonicalCodexCapacityBuckets buckets \<and>
     CapacityBucketForModel effectiveModel \<in> set buckets"

section \<open>The digest of an attempt plan\<close>

text \<open>
  \<open>json.Marshal\<close> of the slots: an array of objects with their fields in the struct's order.
  A string is escaped as the encoder does: quotes, backslashes, control characters, the
  characters HTML gives a meaning, the two line separators of Unicode, and the replacement
  character for bytes that are no UTF-8.
\<close>

definition hexDigit :: "nat \<Rightarrow> char" where
  "hexDigit n = ''0123456789abcdef'' ! n"

definition continuation :: "nat \<Rightarrow> bool" where
  "continuation b \<longleftrightarrow> 128 \<le> b \<and> b \<le> 191"

text \<open>The length of the encoded rune a byte list starts with, zero where there is none.\<close>

fun runeLength :: "nat list \<Rightarrow> nat" where
  "runeLength (a # rest) =
     (if a < 128 then 1
      else if 194 \<le> a \<and> a \<le> 223 then
        (case rest of b # _ \<Rightarrow> if continuation b then 2 else 0 | _ \<Rightarrow> 0)
      else if 224 \<le> a \<and> a \<le> 239 then
        (case rest of b # c # _ \<Rightarrow>
           if continuation b \<and> continuation c \<and> (a = 224 \<longrightarrow> 160 \<le> b) \<and> (a = 237 \<longrightarrow> b \<le> 159)
           then 3 else 0 | _ \<Rightarrow> 0)
      else if 240 \<le> a \<and> a \<le> 244 then
        (case rest of b # c # d # _ \<Rightarrow>
           if continuation b \<and> continuation c \<and> continuation d \<and>
             (a = 240 \<longrightarrow> 144 \<le> b) \<and> (a = 244 \<longrightarrow> b \<le> 143) then 4 else 0 | _ \<Rightarrow> 0)
      else 0)"
| "runeLength [] = 0"

definition escapeASCII :: "nat \<Rightarrow> string" where
  "escapeASCII n =
     (if n = 34 then [CHR 0x5C, CHR 0x22] else if n = 92 then [CHR 0x5C, CHR 0x5C]
      else if n = 8 then [CHR 0x5C] @ ''b'' else if n = 12 then [CHR 0x5C] @ ''f''
      else if n = 10 then [CHR 0x5C] @ ''n'' else if n = 13 then [CHR 0x5C] @ ''r''
      else if n = 9 then [CHR 0x5C] @ ''t''
      else if n < 32 \<or> n \<in> {60, 62, 38}
      then [CHR 0x5C] @ ''u00'' @ [hexDigit (n div 16), hexDigit (n mod 16)]
      else [char_of n])"

function jsonBytes :: "nat list \<Rightarrow> string" where
  "jsonBytes [] = []"
| "jsonBytes (a # rest) =
     (let n = runeLength (a # rest)
      in if n = 1 then escapeASCII a @ jsonBytes rest
         else if n = 0 then [CHR 0x5C] @ ''ufffd'' @ jsonBytes rest
         else if take 3 (a # rest) = [226, 128, 168] then [CHR 0x5C] @ ''u2028'' @ jsonBytes (drop 2 rest)
         else if take 3 (a # rest) = [226, 128, 169] then [CHR 0x5C] @ ''u2029'' @ jsonBytes (drop 2 rest)
         else map char_of (take n (a # rest)) @ jsonBytes (drop (n - 1) rest))"
  by pat_completeness auto
termination
  by (relation "measure length") auto

definition jsonString :: "string \<Rightarrow> string" where
  "jsonString s = [CHR 0x22] @ jsonBytes (map of_char s) @ [CHR 0x22]"

definition jsonSlot :: "attempt_slot \<Rightarrow> string" where
  "jsonSlot slot = ''{'' @ jsonString ''index'' @ '':'' @ decimal (unat (sl_index slot)) @
     '','' @ jsonString ''account_hash'' @ '':'' @ jsonString (sl_account slot) @
     '','' @ jsonString ''candidate_hash'' @ '':'' @ jsonString (sl_candidate slot) @
     '','' @ jsonString ''kind'' @ '':'' @ jsonString (sl_kind slot) @ ''}''"

fun commaJoin :: "string list \<Rightarrow> string" where
  "commaJoin [] = []"
| "commaJoin [s] = s"
| "commaJoin (s # t # ss) = s @ '','' @ commaJoin (t # ss)"

definition codexLeaseAttemptPlanDigest :: "crypto \<Rightarrow> attempt_slot list \<Rightarrow> string" where
  "codexLeaseAttemptPlanDigest cr slots =
     (let canonical = sortBy (\<lambda>a b. sl_index a < sl_index b) slots
      in storeHash cr ''plan'' (if slots = [] then ''null''
           else ''['' @ commaJoin (map jsonSlot canonical) @ '']''))"

section \<open>The route and the attempts of a record\<close>

definition validSlot :: "attempt_slot list \<Rightarrow> bool \<Rightarrow> nat \<Rightarrow> attempt_slot \<Rightarrow> string + unit" where
  "validSlot slots probe index slot =
     andThen (failIf (sl_index slot \<noteq> of_nat (index + 1) \<or>
       \<not> validCodexLeaseDigest (sl_account slot) \<or> \<not> validCodexLeaseDigest (sl_candidate slot) \<or>
       (sl_kind slot \<noteq> CodexAttemptSlotDirect \<and>
        sl_kind slot \<noteq> CodexAttemptSlotEligibleManagedRefresh)) ''invalid attempt slot'') (\<lambda>_.
     failIf (probe \<and>
       \<not> constantTimeCodexLeaseDigestEqual (sl_account slot) (sl_account (hd slots)))
       ''quota exhaustion probe spans multiple accounts'')"

definition slotOf :: "journal_record \<Rightarrow> journal_attempt \<Rightarrow> string" where
  "slotOf r a = sl_account (ae_slots (cq_envelope (jr_request r)) ! (unat (at_slot a) - 1))"

definition validAttempt ::
  "journal_record \<Rightarrow> journal_attempt list \<Rightarrow> journal_attempt \<Rightarrow> string + unit" where
  "validAttempt r prior a =
     (let q = jr_request r; index = length prior
      in andThen (failIf (at_generation a = 0 \<or> at_generation a \<noteq> of_nat (index + 1) \<or>
           at_revision a = 0 \<or> at_revision a > jr_generation r \<or> at_slot a = 0 \<or>
           at_slot a > ae_limit (cq_envelope q) \<or> \<not> validCodexLeaseAttemptState (at_state a))
           ''invalid attempt generation, revision, slot, or state'') (\<lambda>_.
         andThen (failIf (isZeroTime (at_created a) \<or> isZeroTime (at_observed a) \<or>
           \<not> codexLeaseUTCTime (at_created a) \<or> \<not> codexLeaseUTCTime (at_observed a) \<or>
           before (at_created a) (jr_created r) \<or> before (at_observed a) (at_created a) \<or>
           after (at_observed a) (jr_observed r)) ''invalid attempt lifecycle timestamps'') (\<lambda>_.
         andThen (failIf (at_slot a \<in> at_slot ` set prior) ''attempt slot used more than once'') (\<lambda>_.
         andThen (failIf (index + 1 < length (cq_attempts q) \<and>
           at_state a \<noteq> AttemptProviderFailed \<and> at_state a \<noteq> AttemptAccountUnavailable)
           ''historical attempt is not a failed pre-admission route'') (\<lambda>_.
         failIf (prior \<noteq> [] \<and>
           \<not> constantTimeCodexLeaseDigestEqual (slotOf r a) (slotOf r (hd prior)) \<and>
           at_state (hd prior) \<noteq> AttemptAccountUnavailable \<and>
           ((jr_admitted r \<and> cq_generation q > jr_admission_request r) \<or>
            at_state (hd prior) \<noteq> AttemptProviderFailed))
           ''attempt changed account without account unavailability'')))))"

text \<open>
  The exceptions under which the current attempt may run on another account than the
  record's: a replacement after an unavailable account, such a replacement interrupted by a
  restart, and a rebinding of an admitted record that is not admitted yet itself.
\<close>

definition pendingHardRebind :: "journal_record \<Rightarrow> attempt_state option \<Rightarrow> attempt_state \<Rightarrow> bool" where
  "pendingHardRebind r previous current \<longleftrightarrow>
     previous = Some AttemptAccountUnavailable \<and> \<not> jr_non_migratable r \<and>
     (current = AttemptPrepared \<or> current = AttemptDispatched \<or> current = AttemptAccountUnavailable)"

definition interruptedHardRebind :: "journal_record \<Rightarrow> attempt_state option \<Rightarrow> attempt_state \<Rightarrow> bool" where
  "interruptedHardRebind r previous current \<longleftrightarrow>
     \<not> jr_admitted r \<and> previous = Some AttemptAccountUnavailable \<and>
     ((\<not> jr_non_migratable r \<and> current = AttemptAbandonedBeforeDispatch \<and>
       drained (jr_request r) \<and> jr_extinct r) \<or>
      (jr_non_migratable r \<and> current = AttemptIndeterminate))"

definition pendingFullCreateRebind :: "journal_record \<Rightarrow> attempt_state \<Rightarrow> bool \<Rightarrow> bool" where
  "pendingFullCreateRebind r current same \<longleftrightarrow>
     jr_admitted r \<and> \<not> jr_non_migratable r \<and>
     (current = AttemptPrepared \<or> current = AttemptDispatched \<or>
      current = AttemptAbandonedBeforeDispatch \<or> current = AttemptAccountUnavailable) \<and> \<not> same"

definition pendingIndeterminateFullCreateRebind ::
  "journal_record \<Rightarrow> attempt_state \<Rightarrow> bool \<Rightarrow> bool" where
  "pendingIndeterminateFullCreateRebind r current same \<longleftrightarrow>
     jr_admitted r \<and> jr_non_migratable r \<and> current = AttemptIndeterminate \<and> \<not> same"

definition inFlightAttempt :: "attempt_state \<Rightarrow> bool" where
  "inFlightAttempt s \<longleftrightarrow> s = AttemptPrepared \<or> s = AttemptDispatched \<or> s = AttemptStreaming"

definition quiescentAttempt :: "attempt_state \<Rightarrow> bool" where
  "quiescentAttempt s \<longleftrightarrow>
     s = AttemptProviderCompleted \<or> s = AttemptProviderFailed \<or> s = AttemptAccountUnavailable"

definition validStateForAttempt :: "journal_record \<Rightarrow> attempt_state \<Rightarrow> string + unit" where
  "validStateForAttempt r current =
     (case jr_state r of
        LeaseReserving \<Rightarrow> Inl ''reserving lease has attempts''
      | LeaseProvisional \<Rightarrow>
          failIf (current \<noteq> AttemptPrepared \<and> current \<noteq> AttemptDispatched \<and>
            current \<noteq> AttemptAbandonedBeforeDispatch)
            ''provisional lease has admitted or terminal current attempt''
      | LeaseBoundActive \<Rightarrow>
          failIf (current \<noteq> AttemptStreaming \<and>
            (\<not> jr_admitted r \<or> (current \<noteq> AttemptPrepared \<and> current \<noteq> AttemptDispatched)))
            ''bound active lease has invalid current attempt''
      | LeaseContinuationPending \<Rightarrow> failIf (\<not> quiescentAttempt current)
          ''quiescent lease has non-terminal current attempt''
      | LeaseBoundQuiescent \<Rightarrow> failIf (\<not> quiescentAttempt current)
          ''quiescent lease has non-terminal current attempt''
      | LeaseOrphaned \<Rightarrow>
          andThen (failIf (\<not> codexLeaseAttemptTerminalForRollover current)
            ''orphaned lease has replayable current attempt'') (\<lambda>_.
          failIf (jr_auth r \<and> current \<noteq> AttemptIndeterminate \<and> \<not> jr_admitted r)
            ''authoritative terminal orphan lacks admission evidence'')
      | LeaseFailedUnadmitted \<Rightarrow> failIf (inFlightAttempt current)
          ''failed tombstone retains non-terminal attempt''
      | LeaseSuperseded \<Rightarrow> failIf (inFlightAttempt current)
          ''historical terminal lease retains live attempt''
      | LeaseExpired \<Rightarrow> failIf (inFlightAttempt current)
          ''historical terminal lease retains live attempt''
      | LeaseStateOther n \<Rightarrow> Inr ())"

definition hasRoute :: "journal_record \<Rightarrow> bool" where
  "hasRoute r \<longleftrightarrow> jr_account r \<noteq> [] \<or> cq_model_hash (jr_request r) \<noteq> [] \<or>
     cq_effective_model (jr_request r) \<noteq> [] \<or> cq_buckets (jr_request r) \<noteq> []"

definition validRoute :: "journal_record \<Rightarrow> bool" where
  "validRoute r \<longleftrightarrow> validCodexLeaseDigest (jr_account r) \<and>
     validCodexLeaseDigest (cq_model_hash (jr_request r)) \<and>
     cq_effective_model (jr_request r) \<noteq> [] \<and> trimmed (cq_effective_model (jr_request r)) \<and>
     validCodexLeaseBuckets (cq_buckets (jr_request r)) (cq_effective_model (jr_request r))"

definition noAttemptsRecord :: "journal_record \<Rightarrow> string + unit" where
  "noAttemptsRecord r =
     (let q = jr_request r; env = cq_envelope q
      in andThen (failIf (ae_policy env \<noteq> 0 \<or> ae_digest env \<noteq> [] \<or> ae_limit env \<noteq> 0 \<or>
           cq_quota_probe q \<or> cq_attempts q \<noteq> [] \<or> cq_current q \<noteq> 0)
           ''attempt metadata exists without a frozen envelope'') (\<lambda>_.
         andThen (failIf (jr_state r \<noteq> LeaseReserving \<and> jr_state r \<noteq> LeaseFailedUnadmitted)
           ''routable lease is missing an attempt envelope'') (\<lambda>_.
         failIf (jr_state r = LeaseReserving \<and> hasRoute r) ''reserving lease already has a route'')))"

definition currentAttemptChecks :: "journal_record \<Rightarrow> string + unit" where
  "currentAttemptChecks r =
     (let q = jr_request r; attempts = cq_attempts q; current = last attempts;
          previous = (if length attempts > 1 then Some (at_state (attempts ! (length attempts - 2)))
            else None);
          same = constantTimeCodexLeaseDigestEqual (slotOf r current) (jr_account r);
          state = at_state current
      in andThen (failIf (cq_current q \<noteq> at_generation current \<or>
           (\<not> same \<and> \<not> pendingHardRebind r previous state \<and>
            \<not> interruptedHardRebind r previous state \<and> \<not> pendingFullCreateRebind r state same \<and>
            \<not> pendingIndeterminateFullCreateRebind r state same))
           ''current attempt does not match latest persisted route'') (\<lambda>_.
         andThen (failIf (state = AttemptIndeterminate \<and> \<not> jr_non_migratable r)
           ''indeterminate request remains migratable'') (\<lambda>_.
         validStateForAttempt r state)))"

definition attemptsChecks :: "crypto \<Rightarrow> journal_record \<Rightarrow> string + unit" where
  "attemptsChecks cr r =
     (let q = jr_request r; env = cq_envelope q; slots = ae_slots env
      in andThen (failIf (\<not> hasRoute r \<or> ae_policy env \<noteq> CodexLeaseAttemptPolicyVersion \<or>
           ae_limit env = 0 \<or> unat (ae_limit env) \<noteq> length slots)
           ''invalid frozen attempt envelope'') (\<lambda>_.
         andThen (scanE (\<lambda>prior. validSlot slots (cq_quota_probe q) (length prior)) [] slots) (\<lambda>_.
         andThen (failIf (\<not> validCodexLeaseDigest (ae_digest env) \<or>
           \<not> constantTimeCodexLeaseDigestEqual (ae_digest env) (codexLeaseAttemptPlanDigest cr slots))
           ''attempt plan digest mismatch'') (\<lambda>_.
         andThen (failIf (cq_attempts q = [] \<or> length (cq_attempts q) > length slots \<or>
           cq_current q = 0) ''attempt envelope has no current attempt'') (\<lambda>_.
         andThen (scanE (validAttempt r) [] (cq_attempts q)) (\<lambda>_.
         currentAttemptChecks r))))))"

definition validateV2RouteAndAttempts :: "crypto \<Rightarrow> journal_record \<Rightarrow> string + unit" where
  "validateV2RouteAndAttempts cr r =
     (if cq_generation (jr_request r) = 0 then
        failIf (jr_account r \<noteq> [] \<or> \<not> codexCurrentRequestIsZero (jr_request r) \<or>
          (jr_state r \<noteq> LeaseReserving \<and> jr_state r \<noteq> LeaseFailedUnadmitted) \<or> jr_admitted r)
          ''zero request generation carries request authority''
      else andThen (failIf (hasRoute r \<and> \<not> validRoute r) ''invalid persisted route choice'') (\<lambda>_.
        if ae_slots (cq_envelope (jr_request r)) = [] then noAttemptsRecord r
        else attemptsChecks cr r))"

definition validateV2Record ::
  "crypto \<Rightarrow> journal \<Rightarrow> journal_lane \<Rightarrow> int \<Rightarrow> journal_record \<Rightarrow> string + unit" where
  "validateV2Record cr j lane schema r =
     (let q = jr_request r; cutover = jn_cutover j
      in andThen (failIf (\<not> validCodexLeaseDigest (jr_session r) \<or>
           \<not> validCodexLeaseDigest (jr_thread r) \<or>
           jr_namespace r \<noteq> storeHash cr ''namespace'' CodexResponsesNamespace \<or>
           \<not> validCodexLeaseDigest (jr_turn r)) ''invalid record identity hash'') (\<lambda>_.
         andThen (failIf (\<not> list_all (\<lambda>d. d = [] \<or> validCodexLeaseDigest d)
           [jr_account r, jr_pred_turn r, jr_correlation r, jr_turn_state r, jr_prev_turn_state r,
            cq_model_hash q, cq_permit q]) ''invalid optional record hash'') (\<lambda>_.
         andThen (failIf (jr_has_anchor r \<noteq> (jr_correlation r \<noteq> []) \<or>
           jr_has_turn_state r \<noteq> (jr_turn_state r \<noteq> []))
           ''continuation hash presence flag mismatch'') (\<lambda>_.
         andThen (failIf (jr_latch r \<and> \<not> jr_has_turn_state r)
           ''turn-state latch marker exists without turn state'') (\<lambda>_.
         andThen (failIf (jr_prewarm r \<noteq> (jr_prewarm_generation r \<noteq> 0))
           ''partial prewarm adoption marker'') (\<lambda>_.
         andThen (failIf (jr_prewarm r \<and> (\<not> jr_auth r \<or> \<not> jr_non_migratable r \<or>
           jr_prewarm_generation r \<le> cu_completion_generation cutover \<or>
           jr_prewarm_generation r > jn_generation j)) ''invalid prewarm adoption marker'') (\<lambda>_.
         andThen (failIf (jr_generation r = 0 \<or> jr_generation r > jn_generation j \<or>
           jr_lane_generation r = 0 \<or> jr_lane_generation r > ln_generation lane \<or>
           jr_lease_generation r = 0 \<or> jr_lease_generation r > jr_generation r \<or>
           jr_epoch r = 0 \<or> jr_schema r \<noteq> schema \<or> cq_routing_refs q < 0 \<or>
           cq_attempt_refs q < 0 \<or> cq_observer_refs q < 0)
           ''invalid record generation, schema, or reference count'') (\<lambda>_.
         andThen (failIf (jr_extinct r \<and> \<not> drained q)
           ''extinct socket lineage has live references'') (\<lambda>_.
         andThen (failIf (isZeroTime (jr_created r) \<or> isZeroTime (jr_observed r) \<or>
           \<not> codexLeaseUTCTime (jr_created r) \<or> \<not> codexLeaseUTCTime (jr_observed r) \<or>
           before (jr_created r) (cu_completed_at cutover) \<or>
           before (jr_observed r) (jr_created r) \<or> after (jr_observed r) (ln_observed_at lane))
           ''invalid record lifecycle timestamps'') (\<lambda>_.
         andThen (failIf (if jr_pred_turn r = []
             then jr_pred_epoch r \<noteq> 0 \<or> jr_pred_auth r \<or> jr_pred_generation r \<noteq> 0
             else jr_pred_epoch r = 0 \<or> jr_pred_generation r = 0)
           (if jr_pred_turn r = [] then ''predecessor fields present without predecessor''
            else ''incomplete predecessor tuple'')) (\<lambda>_.
         andThen (failIf (\<not> validCodexLeaseState (jr_state r) \<or>
           (cq_generation q \<noteq> 0 \<and> \<not> validCodexLeaseRequest (cq_kind q) (cq_phase q)))
           ''unsupported lease state, request kind, or compaction phase'') (\<lambda>_.
         validateV2RouteAndAttempts cr r))))))))))))"

section \<open>Lanes\<close>

definition validateLane ::
  "crypto \<Rightarrow> journal \<Rightarrow> journal_lane list \<Rightarrow> journal_lane \<Rightarrow> string + unit" where
  "validateLane cr j prior l =
     andThen (failIf (\<not> validCodexLeaseDigest (ln_session l) \<or> \<not> validCodexLeaseDigest (ln_thread l) \<or>
       ln_namespace l \<noteq> storeHash cr ''namespace'' CodexResponsesNamespace)
       ''invalid lane identity hash'') (\<lambda>_.
     andThen (failIf (ln_redistribution_completed l > ln_redistribution_requested l \<or>
       ln_redistribution_requested l > jn_generation j) ''invalid redistribution generation'') (\<lambda>_.
     andThen (failIf (ln_generation l = 0 \<or> ln_generation l > jn_generation j \<or>
       isZeroTime (ln_observed_at l) \<or> \<not> codexLeaseUTCTime (ln_observed_at l))
       ''invalid lane generation or timestamp'') (\<lambda>_.
     andThen (failIf (\<not> validDigests (ln_unavailable l))
       ''invalid or non-canonical request-unavailable accounts'') (\<lambda>_.
     andThen (failIf (\<not> validDigests (ln_exhausted l))
       ''invalid or non-canonical quota-exhausted accounts'') (\<lambda>_.
     andThen (failIf (prior \<noteq> [] \<and> \<not> codexJournalLaneLess (hd prior) l)
       ''duplicate or non-canonical lane identity'') (\<lambda>_.
     andThen (failIf (laneDigestOf cr l \<in> laneDigestOf cr ` set prior)
       ''duplicate lane identity'') (\<lambda>_.
     andThen (if ln_current_turn l = []
       then failIf (ln_current_epoch l \<noteq> 0 \<or> ln_current_auth l)
         ''empty current lane tuple has authority fields''
       else failIf (\<not> validCodexLeaseDigest (ln_current_turn l) \<or> ln_current_epoch l = 0 \<or>
         ln_current_turn l \<noteq> ln_last_turn l \<or> ln_current_epoch l \<noteq> ln_last_epoch l \<or>
         ln_current_auth l \<noteq> ln_last_auth l) ''current and last lane tuples disagree'') (\<lambda>_.
     if ln_last_turn l = []
     then failIf (ln_last_epoch l \<noteq> 0 \<or> ln_last_auth l \<or> ln_current_turn l \<noteq> [])
       ''empty last lane tuple has authority fields''
     else failIf (\<not> validCodexLeaseDigest (ln_last_turn l) \<or> ln_last_epoch l = 0)
       ''invalid last lane tuple''))))))))"

definition validateListedRecord ::
  "crypto \<Rightarrow> journal \<Rightarrow> int \<Rightarrow> journal_record list \<Rightarrow> journal_record \<Rightarrow> string + unit" where
  "validateListedRecord cr j schema prior r =
     andThen (failIf (prior \<noteq> [] \<and> \<not> codexJournalRecordLess (hd prior) r)
       ''duplicate or non-canonical record identity'') (\<lambda>_.
     andThen (failIf (Identity cr r \<in> Identity cr ` set prior) ''duplicate record identity'') (\<lambda>_.
     case lookupLane cr (jn_lanes j) (ri_lane (Identity cr r)) of
       None \<Rightarrow> Inl ''record references absent lane''
     | Some lane \<Rightarrow>
         andThen (failIf (cq_redistribution (jr_request r) > ln_redistribution_requested lane)
           ''request redistribution exceeds lane authority'') (\<lambda>_.
         validateV2Record cr j lane schema r)))"

definition laneTuple :: "crypto \<Rightarrow> journal_lane \<Rightarrow> bool \<Rightarrow> record_identity" where
  "laneTuple cr l current =
     (if current then RecordIdentity (laneDigestOf cr l) (ln_current_turn l) (ln_current_epoch l) (ln_current_auth l)
      else RecordIdentity (laneDigestOf cr l) (ln_last_turn l) (ln_last_epoch l) (ln_last_auth l))"

definition validateLanePointers ::
  "crypto \<Rightarrow> journal_record list \<Rightarrow> journal_lane \<Rightarrow> string + unit" where
  "validateLanePointers cr rs l =
     andThen (failIf (ln_last_turn l = []) ''lane has no retained last record'') (\<lambda>_.
     andThen (case lookupRecord cr rs (laneTuple cr l False) of
         None \<Rightarrow> Inl ''lane last tuple has no matching lifecycle record''
       | Some r \<Rightarrow> failIf (after (jr_observed r) (ln_observed_at l))
           ''lane last tuple has no matching lifecycle record'') (\<lambda>_.
     if ln_current_turn l = [] then Inr ()
     else case lookupRecord cr rs (laneTuple cr l True) of
         None \<Rightarrow> Inl ''lane current tuple has no matching lifecycle record''
       | Some r \<Rightarrow>
           andThen (failIf (after (jr_observed r) (ln_observed_at l))
             ''lane current tuple has no matching lifecycle record'') (\<lambda>_.
           failIf (jr_state r = LeaseFailedUnadmitted \<or> jr_state r = LeaseSuperseded \<or>
             jr_state r = LeaseExpired) ''terminal stale record is current'')))"

definition validatePredecessorLink ::
  "crypto \<Rightarrow> journal_record list \<Rightarrow> journal_record \<Rightarrow> string + unit" where
  "validatePredecessorLink cr rs r =
     (if jr_pred_turn r = [] then Inr ()
      else failIf (predecessorIdentity cr r = Identity cr r \<or>
        (case lookupRecord cr rs (predecessorIdentity cr r) of None \<Rightarrow> False
         | Some p \<Rightarrow> jr_generation p \<noteq> jr_pred_generation r))
        ''invalid predecessor generation link'')"

section \<open>Admission evidence\<close>

definition noAdmissionEvidence :: "journal_record \<Rightarrow> string + unit" where
  "noAdmissionEvidence r =
     andThen (failIf (jr_admission_generation r \<noteq> 0 \<or> jr_admission_request r \<noteq> 0 \<or>
       jr_admission_kind r \<noteq> [] \<or> jr_admission_phase r \<noteq> [] \<or> \<not> isZeroTime (jr_admitted_at r))
       ''partial record admission evidence'') (\<lambda>_.
     failIf (jr_auth r \<and> (jr_state r = LeaseBoundActive \<or> jr_state r = LeaseContinuationPending \<or>
       jr_state r = LeaseBoundQuiescent)) ''admitted lifecycle state lacks admission evidence'')"

definition recordEvidence :: "journal \<Rightarrow> journal_record \<Rightarrow> string + unit" where
  "recordEvidence j r =
     (if \<not> jr_admitted r then noAdmissionEvidence r
      else andThen (failIf (jr_admission_kind r = CodexRequestPrewarm \<or>
          \<not> validCodexLeaseRequestKind (jr_admission_kind r) (jr_admission_phase r) \<or>
          \<not> validCodexLeaseDigest (jr_account r)) ''ineligible record has admission evidence'') (\<lambda>_.
        andThen (failIf (jr_admission_generation r \<le> cu_completion_generation (jn_cutover j) \<or>
          jr_admission_generation r > jn_generation j \<or> jr_admission_request r = 0 \<or>
          jr_admission_request r > cq_generation (jr_request r))
          ''invalid record admission generation'') (\<lambda>_.
        andThen (failIf (jr_admission_request r = cq_generation (jr_request r) \<and>
          (jr_admission_kind r \<noteq> cq_kind (jr_request r) \<or>
           jr_admission_phase r \<noteq> cq_phase (jr_request r)))
          ''first admission evidence does not match its request'') (\<lambda>_.
        andThen (failIf (\<not> codexLeaseUTCTime (jr_admitted_at r) \<or>
          before (jr_admitted_at r) (jr_created r) \<or> after (jr_admitted_at r) (jr_observed r))
          ''invalid record admission timestamp'') (\<lambda>_.
        failIf (jr_state r = LeaseReserving \<or> jr_state r = LeaseProvisional \<or>
          jr_state r = LeaseFailedUnadmitted)
          ''unadmitted lifecycle state has admission evidence'')))))"

definition eligibleInLane :: "crypto \<Rightarrow> journal_record list \<Rightarrow> string \<Rightarrow> journal_record list" where
  "eligibleInLane cr rs digest =
     filter (\<lambda>r. jr_admitted r \<and> codexLeaseAffinityEligible r \<and> ri_lane (Identity cr r) = digest) rs"

definition affinitySource :: "crypto \<Rightarrow> journal_lane \<Rightarrow> record_identity" where
  "affinitySource cr l = RecordIdentity (laneDigestOf cr l) (ln_admitted_turn l) (ln_admitted_epoch l) True"

definition laneEvidence :: "crypto \<Rightarrow> journal \<Rightarrow> journal_lane \<Rightarrow> string + unit" where
  "laneEvidence cr j l =
     (let eligible = eligibleInLane cr (jn_records j) (laneDigestOf cr l)
      in if codexLaneAffinityIsZero l
         then failIf (eligible \<noteq> []) ''eligible admitted record has no lane affinity''
         else andThen (failIf (\<not> validCodexLeaseDigest (ln_admitted_account l) \<or>
             \<not> validCodexLeaseDigest (ln_admitted_turn l) \<or> ln_admitted_epoch l = 0 \<or>
             \<not> ln_admitted_auth l \<or>
             ln_admission_generation l \<le> cu_completion_generation (jn_cutover j) \<or>
             ln_admission_generation l > jn_generation j \<or> \<not> codexLeaseUTCTime (ln_admitted_at l) \<or>
             before (ln_admitted_at l) (cu_completed_at (jn_cutover j)) \<or>
             after (ln_admitted_at l) (ln_observed_at l)) ''invalid lane admission affinity'') (\<lambda>_.
           andThen (failIf (ln_refresh_generation l \<noteq> 0 \<and>
             (ln_refresh_generation l \<le> ln_admission_generation l \<or>
              ln_refresh_generation l > jn_generation j)) ''invalid lane affinity refresh'') (\<lambda>_.
           andThen (failIf (if isZeroTime (ln_cache_admitted_at l) then ln_cache_model l \<noteq> []
             else ln_cache_model l = [] \<or> \<not> codexLeaseUTCTime (ln_cache_admitted_at l) \<or>
               before (ln_cache_admitted_at l) (ln_admitted_at l) \<or>
               after (ln_cache_admitted_at l) (ln_observed_at l) \<or> \<not> trimmed (ln_cache_model l))
             ''invalid lane cache affinity'') (\<lambda>_.
           andThen (case lookupRecord cr (jn_records j) (affinitySource cr l) of None \<Rightarrow> Inr ()
             | Some r \<Rightarrow> failIf (\<not> codexLeaseAffinityEligible r \<or>
                 \<not> constantTimeCodexLeaseDigestEqual (jr_account r) (ln_admitted_account l) \<or>
                 jr_admission_generation r \<noteq> ln_admission_generation l \<or>
                 jr_admitted_at r \<noteq> ln_admitted_at l) ''lane affinity source mismatch'') (\<lambda>_.
           forE (\<lambda>r. failIf (jr_admission_generation r > ln_admission_generation l \<or>
             (jr_admission_generation r = ln_admission_generation l \<and>
              Identity cr r \<noteq> affinitySource cr l))
             ''lane affinity is not the latest admitted record'') eligible)))))"

definition validateCodexLeaseAdmissionEvidence :: "crypto \<Rightarrow> journal \<Rightarrow> string + unit" where
  "validateCodexLeaseAdmissionEvidence cr j =
     andThen (forE (recordEvidence j) (jn_records j)) (\<lambda>_. forE (laneEvidence cr j) (jn_lanes j))"

section \<open>The semantic state and the envelope\<close>

definition validateEvent :: "journal \<Rightarrow> reset_event list \<Rightarrow> reset_event \<Rightarrow> string + unit" where
  "validateEvent j prior e =
     failIf (\<not> validCodexLeaseDigest (ev_account e) \<or> \<not> validCodexLeaseDigest (ev_event e) \<or>
       ev_generation e = 0 \<or> ev_generation e > jn_generation j \<or>
       (prior \<noteq> [] \<and> ev_account (hd prior) \<ge> ev_account e)) ''invalid reset redistribution event''"

definition validateV2SemanticStateForSchema :: "crypto \<Rightarrow> journal \<Rightarrow> int \<Rightarrow> string + unit" where
  "validateV2SemanticStateForSchema cr j schema =
     andThen (failIf (length (jn_events j) > 128) ''too many reset redistribution events'') (\<lambda>_.
     andThen (scanE (validateEvent j) [] (jn_events j)) (\<lambda>_.
     andThen (scanE (validateLane cr j) [] (jn_lanes j)) (\<lambda>_.
     andThen (scanE (validateListedRecord cr j schema) [] (jn_records j)) (\<lambda>_.
     andThen (forE (validateLanePointers cr (jn_records j)) (jn_lanes j)) (\<lambda>_.
     andThen (forE (validatePredecessorLink cr (jn_records j)) (jn_records j)) (\<lambda>_.
     validateCodexLeaseAdmissionEvidence cr j))))))"

definition freshCutover :: "lease_cutover \<Rightarrow> string + unit" where
  "freshCutover c = failIf (cu_state c \<noteq> CodexLeaseCutoverComplete \<or> \<not> cu_no_legacy_authority c \<or>
     cu_completed_at c \<noteq> cu_at c \<or> \<not> codexLeaseUTCTime (cu_completed_at c) \<or>
     cu_completion_generation c \<noteq> cu_journal_generation c \<or> cu_legacy_sha256 c \<noteq> [] \<or>
     \<not> isZeroTime (cu_quarantine_until c) \<or> cu_authoritative_epochs c \<noteq> [] \<or>
     cu_shadow_epochs c \<noteq> []) ''invalid fresh-v2 cutover tuple''"

definition legacyCutover :: "journal \<Rightarrow> string + unit" where
  "legacyCutover j =
     (let c = jn_cutover j
      in andThen (failIf (\<not> validCodexLeaseSHA256 (cu_legacy_sha256 c) \<or>
           \<not> codexLeaseUTCTime (cu_quarantine_until c) \<or> \<not> after (cu_quarantine_until c) (cu_at c))
           ''invalid legacy cutover evidence'') (\<lambda>_.
         if cu_state c = CodexLeaseCutoverLegacyQuarantine
         then failIf (cu_no_legacy_authority c \<or> \<not> isZeroTime (cu_completed_at c) \<or>
           cu_completion_generation c \<noteq> 0 \<or> jn_generation j \<noteq> cu_journal_generation c \<or>
           jn_lanes j \<noteq> [] \<or> jn_records j \<noteq> []) ''invalid legacy quarantine tuple''
         else failIf (cu_state c \<noteq> CodexLeaseCutoverComplete \<or> \<not> cu_no_legacy_authority c \<or>
           isZeroTime (cu_completed_at c) \<or> \<not> codexLeaseUTCTime (cu_completed_at c) \<or>
           before (cu_completed_at c) (cu_quarantine_until c) \<or>
           cu_journal_generation c = MaxUint64 \<or>
           cu_completion_generation c \<noteq> cu_journal_generation c + 1 \<or>
           cu_completion_generation c > jn_generation j) ''invalid legacy completion tuple''))"

definition cacheFieldsAbsent :: "journal \<Rightarrow> string + unit" where
  "cacheFieldsAbsent j =
     andThen (failIf (jn_invalidation j \<noteq> 0 \<or> jn_events j \<noteq> [])
       ''schema-v2 journal contains affinity invalidation'') (\<lambda>_.
     andThen (forE (\<lambda>l. failIf (ln_redistribution_requested l \<noteq> 0 \<or>
       ln_redistribution_completed l \<noteq> 0 \<or> ln_refresh_generation l \<noteq> 0 \<or>
       \<not> isZeroTime (ln_cache_admitted_at l) \<or> ln_cache_model l \<noteq> [] \<or>
       ln_unavailable l \<noteq> [] \<or> ln_exhausted l \<noteq> [])
       ''schema-v2 journal contains schema-v3 cache affinity'') (jn_lanes j)) (\<lambda>_.
     forE (\<lambda>r. failIf (cq_quota_probe (jr_request r) \<or> cq_redistribution (jr_request r) \<noteq> 0)
       ''schema-v2 journal contains schema-v3 quota probe'') (jn_records j)))"

text \<open>
  \<open>encode\<close> is \<open>json.Marshal\<close> of the envelope. The MAC covers the canonical form with an empty
  MAC field.
\<close>

definition v2EnvelopeMAC :: "crypto \<Rightarrow> (journal \<Rightarrow> string) \<Rightarrow> journal \<Rightarrow> string" where
  "v2EnvelopeMAC cr encode j =
     rawURLEncode (cr_hmac cr (encode ((canonicaliseCodexLeaseV2 j)\<lparr>jn_mac := []\<rparr>)))"

definition validV2EnvelopeMAC :: "crypto \<Rightarrow> (journal \<Rightarrow> string) \<Rightarrow> journal \<Rightarrow> bool" where
  "validV2EnvelopeMAC cr encode j =
     (case (decodeCanonicalCodexLeaseMAC (v2EnvelopeMAC cr encode j),
         decodeCanonicalCodexLeaseMAC (jn_mac j)) of
        (Some want, Some got) \<Rightarrow> got = want | _ \<Rightarrow> False)"

definition validateCodexLeaseEnvelope ::
  "crypto \<Rightarrow> (journal \<Rightarrow> string) \<Rightarrow> journal \<Rightarrow> int \<Rightarrow> int \<Rightarrow> int \<Rightarrow> bool \<Rightarrow> bool \<Rightarrow> lease_error + unit"
  where
  "validateCodexLeaseEnvelope cr encode j journalVersion compatibilityEpoch protocolSchema
       cacheFieldsAllowed verifyMAC =
     (let c = jn_cutover j; trust = map_sum ErrTrustLost id
      in andThen (failIf (jn_version j \<noteq> journalVersion \<or> jn_hash_version j \<noteq> codexLeaseHashVersion)
           (ErrTrustLost ''unsupported Codex lease schema/hash version'')) (\<lambda>_.
         andThen (failIf (cu_compatibility_epoch c \<noteq> compatibilityEpoch \<or>
           jn_generation j < cu_journal_generation c \<or> cu_journal_generation c = 0 \<or>
           isZeroTime (cu_at c) \<or> \<not> codexLeaseUTCTime (cu_at c))
           (ErrTrustLost ''invalid Codex lease cutover tuple'')) (\<lambda>_.
         andThen (failIf (verifyMAC \<and> \<not> validV2EnvelopeMAC cr encode j)
           (ErrTrustLost ''Codex lease journal v2 MAC mismatch'')) (\<lambda>_.
         andThen (failIf (\<not> validSortedCodexEpochs (cu_authoritative_epochs c) \<or>
           \<not> validSortedCodexEpochs (cu_shadow_epochs c))
           (ErrTrustLost ''non-canonical Codex lease cutover epochs'')) (\<lambda>_.
         andThen (trust (if cu_source_version c = 0 then freshCutover c
           else if cu_source_version c = 1 then legacyCutover j
           else Inl ''unsupported Codex lease cutover source'')) (\<lambda>_.
         andThen (trust (if cacheFieldsAllowed then Inr () else cacheFieldsAbsent j)) (\<lambda>_.
         andThen (failIf (jn_invalidation j \<noteq> 0 \<and> (cu_state c \<noteq> CodexLeaseCutoverComplete \<or>
           jn_invalidation j \<le> cu_completion_generation c \<or> jn_invalidation j > jn_generation j))
           (ErrTrustLost ''invalid affinity invalidation generation'')) (\<lambda>_.
         trust (validateV2SemanticStateForSchema cr j protocolSchema)))))))))"

section \<open>The state check of migrations\<close>

definition attemptRowChecks ::
  "journal_record \<Rightarrow> journal_attempt list \<Rightarrow> journal_attempt \<Rightarrow> lease_error + unit" where
  "attemptRowChecks r prior a =
     andThen (failIf (at_generation a = 0 \<or> at_revision a = 0 \<or> at_slot a = 0 \<or>
       at_slot a > ae_limit (cq_envelope (jr_request r)) \<or> before (at_created a) (jr_created r) \<or>
       before (at_observed a) (at_created a) \<or> after (at_observed a) (jr_observed r))
       (ErrInvalidMutation ''invalid attempt row'')) (\<lambda>_.
     andThen (failIf (at_generation a \<le> (if prior = [] then 0 else at_generation (hd prior)))
       (ErrInvalidMutation ''non-monotonic attempt generation'')) (\<lambda>_.
     andThen (failIf (at_generation a \<in> at_generation ` set prior)
       (ErrInvalidMutation ''duplicate attempt generation'')) (\<lambda>_.
     failIf (at_state a \<noteq> AttemptPrepared \<and>
       at_slot a \<in> at_slot ` {p \<in> set prior. at_state p \<noteq> AttemptPrepared})
       (ErrInvalidMutation ''attempt slot consumed twice''))))"

definition slotRowCheck :: "attempt_slot list \<Rightarrow> attempt_slot \<Rightarrow> lease_error + unit" where
  "slotRowCheck prior slot =
     failIf (sl_index slot \<noteq> of_nat (length prior + 1) \<or> sl_account slot = [] \<or>
       sl_candidate slot = [] \<or> (sl_kind slot \<noteq> CodexAttemptSlotDirect \<and>
       sl_kind slot \<noteq> CodexAttemptSlotEligibleManagedRefresh))
       (ErrInvalidMutation ''invalid attempt slot'')"

definition validateCodexAttemptEnvelope :: "crypto \<Rightarrow> journal_record \<Rightarrow> lease_error + unit" where
  "validateCodexAttemptEnvelope cr r =
     (let q = jr_request r; env = cq_envelope q
      in if cq_generation q = 0 then
           failIf (jr_account r \<noteq> [] \<or> \<not> codexCurrentRequestIsZero q \<or>
             (jr_state r \<noteq> LeaseReserving \<and> jr_state r \<noteq> LeaseFailedUnadmitted))
             (ErrInvalidMutation ''zero request generation carries request authority'')
         else
           andThen (failIf (codexAttemptEnvelopeIsZero env)
             (ErrInvalidMutation ''nonzero request generation lacks attempt envelope'')) (\<lambda>_.
           andThen (failIf (ae_policy env \<noteq> CodexLeaseAttemptPolicyVersion \<or> ae_limit env = 0 \<or>
             unat (ae_limit env) \<noteq> length (ae_slots env) \<or> ae_digest env = [] \<or>
             ae_digest env \<noteq> codexLeaseAttemptPlanDigest cr (ae_slots env))
             (ErrInvalidMutation ''invalid attempt envelope'')) (\<lambda>_.
           andThen (scanE slotRowCheck [] (ae_slots env)) (\<lambda>_.
           andThen (failIf (jr_account r = [] \<or> cq_model_hash q = [] \<or> cq_effective_model q = [] \<or>
             cq_buckets q = []) (ErrInvalidMutation ''incomplete route choice'')) (\<lambda>_.
           andThen (failIf (length (cq_attempts q) > unat (ae_limit env)) ErrAttemptLimit) (\<lambda>_.
           andThen (scanE (attemptRowChecks r) [] (cq_attempts q)) (\<lambda>_.
           failIf (cq_current q \<noteq> 0 \<and> cq_current q \<notin> at_generation ` set (cq_attempts q))
             (ErrInvalidMutation ''missing current attempt''))))))))"

definition stateLaneCheck :: "crypto \<Rightarrow> journal_lane list \<Rightarrow> journal_lane \<Rightarrow> lease_error + unit" where
  "stateLaneCheck cr prior l =
     andThen (failIf (ln_session l = [] \<or> ln_thread l = [] \<or> ln_namespace l = [] \<or>
       ln_generation l = 0 \<or> isZeroTime (ln_observed_at l)) (ErrInvalidMutation ''invalid lane'')) (\<lambda>_.
     failIf (laneDigestOf cr l \<in> laneDigestOf cr ` set prior) (ErrInvalidMutation ''duplicate lane''))"

definition stateRecordCheck ::
  "crypto \<Rightarrow> journal \<Rightarrow> int \<Rightarrow> journal_record list \<Rightarrow> journal_record \<Rightarrow> lease_error + unit" where
  "stateRecordCheck cr j schema prior r =
     andThen (failIf (Identity cr r = zeroIdentity \<or> jr_session r = [] \<or> jr_thread r = [] \<or>
       jr_namespace r = [] \<or> jr_turn r = [] \<or> jr_epoch r = 0 \<or> jr_generation r = 0 \<or>
       jr_lane_generation r = 0 \<or> jr_lease_generation r = 0 \<or> isZeroTime (jr_created r) \<or>
       before (jr_observed r) (jr_created r)) (ErrInvalidMutation ''invalid record'')) (\<lambda>_.
     andThen (failIf (Identity cr r \<in> Identity cr ` set prior)
       (ErrInvalidMutation ''duplicate record'')) (\<lambda>_.
     andThen (failIf (lookupLane cr (jn_lanes j) (ri_lane (Identity cr r)) = None)
       (ErrInvalidMutation ''record has no lane'')) (\<lambda>_.
     andThen (failIf ((cq_generation (jr_request r) \<noteq> 0 \<and>
       \<not> validCodexLeaseRequestKind (cq_kind (jr_request r)) (cq_phase (jr_request r))) \<or>
       jr_schema r \<noteq> schema) (ErrInvalidMutation ''unsupported request kind/phase'')) (\<lambda>_.
     andThen (failIf (\<not> canonicalCodexCapacityBuckets (cq_buckets (jr_request r)))
       (ErrInvalidMutation ''non-canonical capacity buckets'')) (\<lambda>_.
     validateCodexAttemptEnvelope cr r)))))"

definition stateLanePointers :: "crypto \<Rightarrow> journal_record list \<Rightarrow> journal_lane \<Rightarrow> lease_error + unit" where
  "stateLanePointers cr rs l =
     (let current = codexLaneTupleIdentity cr l True;
          tail = codexLaneTupleIdentity cr l False
      in andThen (if current = zeroIdentity then Inr () else
           andThen (failIf (ri_lane current \<noteq> laneDigestOf cr l)
             (ErrInvalidMutation ''current lane digest mismatch'')) (\<lambda>_.
           andThen (failIf (lookupRecord cr rs current = None)
             (ErrInvalidMutation ''current tuple has no record'')) (\<lambda>_.
           failIf (current \<noteq> tail) (ErrInvalidMutation ''current and last disagree'')))) (\<lambda>_.
         if tail = zeroIdentity then Inr () else
           andThen (failIf (ri_lane tail \<noteq> laneDigestOf cr l)
             (ErrInvalidMutation ''last lane digest mismatch'')) (\<lambda>_.
           failIf (lookupRecord cr rs tail = None)
             (ErrInvalidMutation ''last tuple has no record''))))"

definition statePredecessor :: "crypto \<Rightarrow> journal_record list \<Rightarrow> journal_record \<Rightarrow> lease_error + unit" where
  "statePredecessor cr rs r =
     (if jr_pred_turn r = [] then
        failIf (jr_pred_epoch r \<noteq> 0 \<or> jr_pred_auth r \<or> jr_pred_generation r \<noteq> 0)
          (ErrInvalidMutation ''partial predecessor tuple'')
      else failIf (case lookupRecord cr rs (predecessorIdentity cr r) of None \<Rightarrow> False
        | Some p \<Rightarrow> jr_generation p \<noteq> jr_pred_generation r)
        (ErrInvalidMutation ''invalid predecessor generation''))"

definition validateCodexLeaseV2StateForSchema :: "crypto \<Rightarrow> journal \<Rightarrow> int \<Rightarrow> lease_error + unit" where
  "validateCodexLeaseV2StateForSchema cr j schema =
     andThen (scanE (stateLaneCheck cr) [] (jn_lanes j)) (\<lambda>_.
     andThen (scanE (stateRecordCheck cr j schema) [] (jn_records j)) (\<lambda>_.
     andThen (forE (stateLanePointers cr (jn_records j)) (jn_lanes j)) (\<lambda>_.
     andThen (forE (statePredecessor cr (jn_records j)) (jn_records j)) (\<lambda>_.
     map_sum ErrInvalidMutation id (validateCodexLeaseAdmissionEvidence cr j)))))"

section \<open>What the semantic state gives\<close>

lemma map_sum_Inr_iff [go_simps]: "map_sum f id m = Inr u \<longleftrightarrow> m = Inr u"
  by (cases m) auto

lemma unit_all_ex [go_simps]: "(\<exists>u::unit. P u) \<longleftrightarrow> P ()" "(\<forall>u::unit. P u) \<longleftrightarrow> P ()"
  by auto

lemma semanticD:
  assumes "validateV2SemanticStateForSchema cr j schema = Inr ()"
  shows "length (jn_events j) \<le> 128" "scanE (validateEvent j) [] (jn_events j) = Inr ()"
    "scanE (validateLane cr j) [] (jn_lanes j) = Inr ()"
    "scanE (validateListedRecord cr j schema) [] (jn_records j) = Inr ()"
    "l \<in> set (jn_lanes j) \<Longrightarrow> validateLanePointers cr (jn_records j) l = Inr ()"
    "r \<in> set (jn_records j) \<Longrightarrow> validatePredecessorLink cr (jn_records j) r = Inr ()"
    "validateCodexLeaseAdmissionEvidence cr j = Inr ()"
  using assms by (auto simp: validateV2SemanticStateForSchema_def go_simps not_less)

lemma validateLaneD:
  assumes "validateLane cr j prior l = Inr ()"
  shows "validCodexLeaseDigest (ln_session l)" "validCodexLeaseDigest (ln_thread l)"
    "ln_namespace l = storeHash cr ''namespace'' CodexResponsesNamespace"
    "ln_redistribution_completed l \<le> ln_redistribution_requested l"
    "ln_redistribution_requested l \<le> jn_generation j"
    "ln_generation l \<noteq> 0" "ln_generation l \<le> jn_generation j" "codexLeaseUTCTime (ln_observed_at l)"
    "validDigests (ln_unavailable l)" "validDigests (ln_exhausted l)"
    "prior \<noteq> [] \<Longrightarrow> codexJournalLaneLess (hd prior) l"
    "laneDigestOf cr l \<notin> laneDigestOf cr ` set prior"
    "ln_current_turn l = [] \<Longrightarrow> ln_current_epoch l = 0 \<and> \<not> ln_current_auth l"
    "ln_current_turn l \<noteq> [] \<Longrightarrow> ln_current_turn l = ln_last_turn l \<and>
       ln_current_epoch l = ln_last_epoch l \<and> ln_current_auth l = ln_last_auth l"
    "ln_last_turn l = [] \<Longrightarrow> ln_last_epoch l = 0 \<and> \<not> ln_last_auth l \<and> ln_current_turn l = []"
    "ln_last_turn l \<noteq> [] \<Longrightarrow> validCodexLeaseDigest (ln_last_turn l) \<and> ln_last_epoch l \<noteq> 0"
  using assms
  by (auto simp: validateLane_def go_simps not_less split: if_splits)

lemma lookupRecord_mem: "lookupRecord cr rs i = Some r \<Longrightarrow> r \<in> set rs \<and> Identity cr r = i"
  unfolding lookupRecord_def by (rule find_Some_mem)

lemma lookupLane_mem: "lookupLane cr ls d = Some l \<Longrightarrow> l \<in> set ls \<and> laneDigestOf cr l = d"
  unfolding lookupLane_def by (rule find_Some_mem)

lemma listedRecordE:
  assumes "validateListedRecord cr j schema prior r = Inr ()"
  obtains lane where "lookupLane cr (jn_lanes j) (ri_lane (Identity cr r)) = Some lane"
    "cq_redistribution (jr_request r) \<le> ln_redistribution_requested lane"
    "validateV2Record cr j lane schema r = Inr ()"
    "Identity cr r \<notin> Identity cr ` set prior"
    "prior \<noteq> [] \<Longrightarrow> codexJournalRecordLess (hd prior) r"
  using assms by (auto simp: validateListedRecord_def go_simps not_less split: option.splits)

lemma validateV2Record_iff:
  "validateV2Record cr j lane schema r = Inr () \<longleftrightarrow>
     (let q = jr_request r; cutover = jn_cutover j in
     \<not> (\<not> validCodexLeaseDigest (jr_session r) \<or> \<not> validCodexLeaseDigest (jr_thread r) \<or>
       jr_namespace r \<noteq> storeHash cr ''namespace'' CodexResponsesNamespace \<or>
       \<not> validCodexLeaseDigest (jr_turn r)) \<and>
     \<not> \<not> list_all (\<lambda>d. d = [] \<or> validCodexLeaseDigest d)
       [jr_account r, jr_pred_turn r, jr_correlation r, jr_turn_state r, jr_prev_turn_state r,
        cq_model_hash q, cq_permit q] \<and>
     \<not> (jr_has_anchor r \<noteq> (jr_correlation r \<noteq> []) \<or> jr_has_turn_state r \<noteq> (jr_turn_state r \<noteq> [])) \<and>
     \<not> (jr_latch r \<and> \<not> jr_has_turn_state r) \<and>
     \<not> jr_prewarm r \<noteq> (jr_prewarm_generation r \<noteq> 0) \<and>
     \<not> (jr_prewarm r \<and> (\<not> jr_auth r \<or> \<not> jr_non_migratable r \<or>
       jr_prewarm_generation r \<le> cu_completion_generation cutover \<or>
       jn_generation j < jr_prewarm_generation r)) \<and>
     \<not> (jr_generation r = 0 \<or> jn_generation j < jr_generation r \<or>
       jr_lane_generation r = 0 \<or> ln_generation lane < jr_lane_generation r \<or>
       jr_lease_generation r = 0 \<or> jr_generation r < jr_lease_generation r \<or>
       jr_epoch r = 0 \<or> jr_schema r \<noteq> schema \<or> cq_routing_refs q < 0 \<or>
       cq_attempt_refs q < 0 \<or> cq_observer_refs q < 0) \<and>
     \<not> (jr_extinct r \<and> \<not> drained q) \<and>
     \<not> (isZeroTime (jr_created r) \<or> isZeroTime (jr_observed r) \<or>
       \<not> codexLeaseUTCTime (jr_created r) \<or> \<not> codexLeaseUTCTime (jr_observed r) \<or>
       before (jr_created r) (cu_completed_at cutover) \<or>
       before (jr_observed r) (jr_created r) \<or> before (ln_observed_at lane) (jr_observed r)) \<and>
     \<not> (if jr_pred_turn r = []
        then jr_pred_epoch r \<noteq> 0 \<or> jr_pred_auth r \<or> jr_pred_generation r \<noteq> 0
        else jr_pred_epoch r = 0 \<or> jr_pred_generation r = 0) \<and>
     \<not> (\<not> validCodexLeaseState (jr_state r) \<or>
       (cq_generation q \<noteq> 0 \<and> \<not> validCodexLeaseRequest (cq_kind q) (cq_phase q))) \<and>
     validateV2RouteAndAttempts cr r = Inr ())"
  unfolding validateV2Record_def Let_def andThen_failIf_iff by (rule refl)

lemma validateV2RecordD:
  assumes "validateV2Record cr j lane schema r = Inr ()"
  shows "validCodexLeaseDigest (jr_session r)" "validCodexLeaseDigest (jr_thread r)"
    "jr_namespace r = storeHash cr ''namespace'' CodexResponsesNamespace"
    "validCodexLeaseDigest (jr_turn r)"
    "jr_generation r \<noteq> 0" "jr_generation r \<le> jn_generation j" "jr_lane_generation r \<noteq> 0"
    "jr_lane_generation r \<le> ln_generation lane"
    "jr_lease_generation r \<noteq> 0" "jr_lease_generation r \<le> jr_generation r" "jr_epoch r \<noteq> 0"
    "jr_schema r = schema" "jr_extinct r \<Longrightarrow> drained (jr_request r)"
    "codexLeaseUTCTime (jr_created r)" "codexLeaseUTCTime (jr_observed r)"
    "\<not> before (jr_observed r) (jr_created r)" "\<not> after (jr_observed r) (ln_observed_at lane)"
    "jr_pred_turn r = [] \<Longrightarrow> jr_pred_epoch r = 0 \<and> \<not> jr_pred_auth r \<and> jr_pred_generation r = 0"
    "validCodexLeaseState (jr_state r)"
    "cq_generation (jr_request r) \<noteq> 0 \<Longrightarrow>
       validCodexLeaseRequest (cq_kind (jr_request r)) (cq_phase (jr_request r))"
    "validateV2RouteAndAttempts cr r = Inr ()"
  using assms by (auto simp: validateV2Record_def Let_def go_simps not_less)

lemma digest_not_Nil: "validCodexLeaseDigest s \<Longrightarrow> s \<noteq> []"
  by (auto simp: validCodexLeaseDigest_def)

section \<open>The two state checks agree\<close>

lemma scanE_iff:
  assumes "scanE f prior xs = Inr ()" "I prior"
    and "\<And>prior x. x \<in> set xs \<Longrightarrow> I prior \<Longrightarrow> f prior x = Inr () \<Longrightarrow>
      I (x # prior) \<and> (f' prior x = Inr () \<longleftrightarrow> P x)"
  shows "scanE f' prior xs = Inr () \<longleftrightarrow> (\<forall>x \<in> set xs. P x)"
  using assms
proof (induction xs arbitrary: prior)
  case Nil
  then show ?case by simp
next
  case (Cons x xs)
  have f: "f prior x = Inr ()" "scanE f (x # prior) xs = Inr ()"
    using Cons.prems(1) by (auto simp: andThen_Inr_iff)
  with Cons.prems(2,3) have "I (x # prior)" "f' prior x = Inr () \<longleftrightarrow> P x" by auto
  moreover from this f have "scanE f' (x # prior) xs = Inr () \<longleftrightarrow> (\<forall>x \<in> set xs. P x)"
    using Cons.IH [of "x # prior"] Cons.prems(3) by simp
  ultimately show ?case by (auto simp: andThen_Inr_iff)
qed

text \<open>HMAC-SHA256 returns 32 bytes.\<close>

definition hmacBytes :: "crypto \<Rightarrow> bool" where
  "hmacBytes cr \<longleftrightarrow> (\<forall>s. length (cr_hmac cr s) = sha256Size \<and> list_all (\<lambda>b. b < 256) (cr_hmac cr s))"

lemma storeHash_valid: "hmacBytes cr \<Longrightarrow> validCodexLeaseDigest (storeHash cr domain v)"
  unfolding validCodexLeaseDigest_def storeHash_def hmacBytes_def list_all_iff
  by (simp add: rawURL_roundtrip) (simp add: rawURLEncode_def length_packSextets sha256Size_def)

lemma planDigest_eq:
  assumes "hmacBytes cr" "validCodexLeaseDigest d"
    and "constantTimeCodexLeaseDigestEqual d (codexLeaseAttemptPlanDigest cr slots)"
  shows "d = codexLeaseAttemptPlanDigest cr slots"
  using assms digestEqual_valid_iff storeHash_valid
  unfolding codexLeaseAttemptPlanDigest_def Let_def by metis

definition numbered :: "journal_attempt list \<Rightarrow> bool" where
  "numbered prior \<longleftrightarrow> (prior \<noteq> [] \<longrightarrow> at_generation (hd prior) = of_nat (length prior)) \<and>
     (\<forall>p \<in> set prior. at_generation p \<le> of_nat (length prior))"

lemma validAttempt_iff:
  "validAttempt r prior a = Inr () \<longleftrightarrow>
     \<not> (at_generation a = 0 \<or> at_generation a \<noteq> of_nat (length prior + 1) \<or>
       at_revision a = 0 \<or> at_revision a > jr_generation r \<or> at_slot a = 0 \<or>
       at_slot a > ae_limit (cq_envelope (jr_request r)) \<or> \<not> validCodexLeaseAttemptState (at_state a)) \<and>
     \<not> (isZeroTime (at_created a) \<or> isZeroTime (at_observed a) \<or>
       \<not> codexLeaseUTCTime (at_created a) \<or> \<not> codexLeaseUTCTime (at_observed a) \<or>
       before (at_created a) (jr_created r) \<or> before (at_observed a) (at_created a) \<or>
       before (jr_observed r) (at_observed a)) \<and>
     \<not> at_slot a \<in> at_slot ` set prior \<and>
     \<not> (length prior + 1 < length (cq_attempts (jr_request r)) \<and>
       at_state a \<noteq> AttemptProviderFailed \<and> at_state a \<noteq> AttemptAccountUnavailable) \<and>
     \<not> (prior \<noteq> [] \<and>
       \<not> constantTimeCodexLeaseDigestEqual (slotOf r a) (slotOf r (hd prior)) \<and>
       at_state (hd prior) \<noteq> AttemptAccountUnavailable \<and>
       (jr_admitted r \<and> cq_generation (jr_request r) > jr_admission_request r \<or>
        at_state (hd prior) \<noteq> AttemptProviderFailed))"
  unfolding validAttempt_def Let_def andThen_failIf_iff failIf_Inr_iff by (rule refl)

lemma attemptRows:
  assumes "validAttempt r prior a = Inr ()" "numbered prior"
  shows "numbered (a # prior) \<and> attemptRowChecks r prior a = Inr ()"
proof -
  define w :: u64 where "w = of_nat (length prior)"
  have a: "at_generation a = of_nat (length prior + 1)" "at_generation a \<noteq> 0" "at_revision a \<noteq> 0"
    "at_slot a \<noteq> 0" "at_slot a \<le> ae_limit (cq_envelope (jr_request r))"
    "\<not> before (at_created a) (jr_created r)" "\<not> before (at_observed a) (at_created a)"
    "\<not> before (jr_observed r) (at_observed a)" "at_slot a \<notin> at_slot ` set prior"
    using assms(1) unfolding validAttempt_iff de_Morgan_disj not_not not_less by blast+
  have next_w: "at_generation a = w + 1" using a(1) by (simp add: w_def add.commute)
  have p: "prior \<noteq> [] \<Longrightarrow> at_generation (hd prior) = w" "\<And>p. p \<in> set prior \<Longrightarrow> at_generation p \<le> w"
    using assms(2) by (auto simp: numbered_def w_def)
  have "w \<noteq> MaxUint64" using next_w a(2) by auto
  then have less: "w < w + 1" by (rule u64_less_Suc)
  have "numbered (a # prior)"
    unfolding numbered_def using next_w p(2) less w_def by (fastforce simp: add.commute)
  moreover have "attemptRowChecks r prior a = Inr ()"
    using a next_w p less by (force simp: attemptRowChecks_def go_simps not_less not_le)
  ultimately show ?thesis ..
qed

lemma semantic_route:
  assumes "validateV2RouteAndAttempts cr r = Inr ()" "hmacBytes cr"
  shows "canonicalCodexCapacityBuckets (cq_buckets (jr_request r))"
    "validateCodexAttemptEnvelope cr r = Inr () \<longleftrightarrow>
       (cq_generation (jr_request r) \<noteq> 0 \<longrightarrow> ae_slots (cq_envelope (jr_request r)) \<noteq> [])"
proof -
  let ?q = "jr_request r" and ?env = "cq_envelope (jr_request r)"
  show "canonicalCodexCapacityBuckets (cq_buckets ?q)"
    using assms(1)
    by (cases "cq_buckets ?q = []")
      (auto simp: validateV2RouteAndAttempts_def canonicalCodexCapacityBuckets_def hasRoute_def
        validRoute_def validCodexLeaseBuckets_def codexCurrentRequestIsZero_def go_simps split: if_splits)
  show "validateCodexAttemptEnvelope cr r = Inr () \<longleftrightarrow>
       (cq_generation ?q \<noteq> 0 \<longrightarrow> ae_slots ?env \<noteq> [])"
  proof (cases "cq_generation ?q = 0 \<or> ae_slots ?env = []")
    case True
    then show ?thesis
      using assms(1)
      by (auto simp: validateV2RouteAndAttempts_def validateCodexAttemptEnvelope_def Let_def go_simps
        noAttemptsRecord_def codexAttemptEnvelopeIsZero_def split: if_splits)
  next
    case False
    then have "attemptsChecks cr r = Inr ()" and route: "hasRoute r \<longrightarrow> validRoute r"
      using assms(1) by (auto simp: validateV2RouteAndAttempts_def go_simps split: if_splits)
    then have checks: "hasRoute r" "ae_policy ?env = CodexLeaseAttemptPolicyVersion" "ae_limit ?env \<noteq> 0"
      "unat (ae_limit ?env) = length (ae_slots ?env)"
      "scanE (\<lambda>prior. validSlot (ae_slots ?env) (cq_quota_probe ?q) (length prior)) [] (ae_slots ?env) = Inr ()"
      "validCodexLeaseDigest (ae_digest ?env)"
      "constantTimeCodexLeaseDigestEqual (ae_digest ?env) (codexLeaseAttemptPlanDigest cr (ae_slots ?env))"
      "cq_attempts ?q \<noteq> []" "length (cq_attempts ?q) \<le> length (ae_slots ?env)"
      "scanE (validAttempt r) [] (cq_attempts ?q) = Inr ()" "currentAttemptChecks r = Inr ()"
      by (auto simp: attemptsChecks_def Let_def go_simps not_less)
    have slots: "scanE slotRowCheck [] (ae_slots ?env) = Inr ()"
      using scanE_iff [OF checks(5), of "\<lambda>_. True" slotRowCheck "\<lambda>_. True"]
      by (auto simp: validSlot_def slotRowCheck_def go_simps dest: digest_not_Nil)
    have rows: "scanE (attemptRowChecks r) [] (cq_attempts ?q) = Inr ()"
      using scanE_iff [OF checks(10), of numbered "attemptRowChecks r" "\<lambda>_. True"] attemptRows
      by (simp add: numbered_def)
    have "cq_current ?q \<in> at_generation ` set (cq_attempts ?q)"
      using checks(8,11) by (auto simp: currentAttemptChecks_def Let_def go_simps)
    with False checks slots rows route planDigest_eq [OF assms(2) checks(6,7)] show ?thesis
      by (auto simp: validateCodexAttemptEnvelope_def Let_def go_simps codexAttemptEnvelopeIsZero_def
        validRoute_def validCodexLeaseBuckets_def not_less dest: digest_not_Nil)
  qed
qed

lemma storeHash_not_Nil: "hmacBytes cr \<Longrightarrow> storeHash cr domain v \<noteq> []"
  by (rule digest_not_Nil) (rule storeHash_valid)

lemma state_lane:
  assumes "validateLane cr j prior l = Inr ()" "hmacBytes cr"
  shows "stateLaneCheck cr prior l = Inr ()"
  using validateLaneD [OF assms(1)] storeHash_not_Nil [OF assms(2)]
  by (auto simp: stateLaneCheck_def go_simps codexLeaseUTCTime_def dest: digest_not_Nil)

lemma validRequestKind: "validCodexLeaseRequest k p \<Longrightarrow> validCodexLeaseRequestKind k p"
  by (auto simp: validCodexLeaseRequest_def validCodexLeaseRequestKind_def CodexRequestMemory_def
    CodexRequestCompaction_def split: if_splits)

lemma state_record:
  assumes "validateListedRecord cr j schema prior r = Inr ()" "hmacBytes cr"
  shows "stateRecordCheck cr j schema prior r = Inr () \<longleftrightarrow>
    (cq_generation (jr_request r) \<noteq> 0 \<longrightarrow> ae_slots (cq_envelope (jr_request r)) \<noteq> [])"
proof -
  from assms(1) obtain lane where lane: "lookupLane cr (jn_lanes j) (ri_lane (Identity cr r)) = Some lane"
    "validateV2Record cr j lane schema r = Inr ()" "Identity cr r \<notin> Identity cr ` set prior"
    by (rule listedRecordE)
  note r = validateV2RecordD [OF lane(2)]
  note route = semantic_route [OF r(21) assms(2)]
  have "Identity cr r \<noteq> zeroIdentity"
    using digest_not_Nil [OF r(4)] by (simp add: Identity_def zeroIdentity_def)
  moreover have "jr_namespace r \<noteq> []" using r(3) storeHash_not_Nil [OF assms(2)] by simp
  ultimately show ?thesis
    using r lane route validRequestKind
    by (auto simp: stateRecordCheck_def go_simps codexLeaseUTCTime_def dest: digest_not_Nil)
qed

lemma state_pointers:
  assumes "validateLanePointers cr rs l = Inr ()" "validateLane cr j prior l = Inr ()"
  shows "stateLanePointers cr rs l = Inr ()"
proof -
  have tail: "ln_last_turn l \<noteq> []" "lookupRecord cr rs (laneTuple cr l False) \<noteq> None"
    and current: "ln_current_turn l \<noteq> [] \<Longrightarrow> lookupRecord cr rs (laneTuple cr l True) \<noteq> None"
    using assms(1) by (auto simp: validateLanePointers_def go_simps split: option.splits if_splits)
  show ?thesis
    using tail current validateLaneD(14) [OF assms(2)]
    by (auto simp: stateLanePointers_def Let_def go_simps codexLaneTupleIdentity_def laneTuple_def)
qed

lemma state_predecessor:
  assumes "validatePredecessorLink cr rs r = Inr ()" "validateV2Record cr j lane schema r = Inr ()"
  shows "statePredecessor cr rs r = Inr ()"
  using assms(1) validateV2RecordD(18) [OF assms(2)]
  by (auto simp: validatePredecessorLink_def statePredecessor_def split: if_splits option.splits)

text \<open>
  The two validators of a journal agree: one that the semantic state of a schema accepts
  is accepted by the state check of migrations for the same schema exactly when every record
  with a request has a frozen plan of attempts. The one tolerates a reservation or a failed
  tombstone whose request has none.
\<close>

theorem journal_validators_agree:
  assumes "validateV2SemanticStateForSchema cr j schema = Inr ()" and "hmacBytes cr"
  shows "validateCodexLeaseV2StateForSchema cr j schema = Inr () \<longleftrightarrow>
    (\<forall>r \<in> set (jn_records j). cq_generation (jr_request r) \<noteq> 0 \<longrightarrow>
       ae_slots (cq_envelope (jr_request r)) \<noteq> [])"
proof -
  note s = semanticD [OF assms(1)]
  have lanes: "scanE (stateLaneCheck cr) [] (jn_lanes j) = Inr ()"
    using scanE_iff [OF s(3), of "\<lambda>_. True" "stateLaneCheck cr" "\<lambda>_. True"] state_lane assms(2) by blast
  have records: "scanE (stateRecordCheck cr j schema) [] (jn_records j) = Inr () \<longleftrightarrow>
    (\<forall>r \<in> set (jn_records j). cq_generation (jr_request r) \<noteq> 0 \<longrightarrow>
       ae_slots (cq_envelope (jr_request r)) \<noteq> [])"
    using scanE_iff [OF s(4), of "\<lambda>_. True" "stateRecordCheck cr j schema"] state_record assms(2) by simp
  have "stateLanePointers cr (jn_records j) l = Inr ()" if "l \<in> set (jn_lanes j)" for l
    using scanE_each [OF s(3) that] state_pointers [OF s(5) [OF that]] by metis
  moreover have "statePredecessor cr (jn_records j) r = Inr ()" if "r \<in> set (jn_records j)" for r
    using scanE_each [OF s(4) that] state_predecessor [OF s(6) [OF that]] by (metis listedRecordE)
  ultimately show ?thesis
    using lanes records s(7)
    by (simp add: validateCodexLeaseV2StateForSchema_def go_simps)
qed

section \<open>A journal with a dispatched request\<close>

definition plainCrypto :: crypto where
  "plainCrypto = \<lparr>cr_sha256 = (\<lambda>s. of_nat (length s) # replicate 31 0), cr_hmac = (\<lambda>_. replicate 32 0)\<rparr>"

definition liveRecord :: journal_record where
  "liveRecord = zeroRecord\<lparr>jr_session := sampleAccountA, jr_thread := sampleAccountA,
     jr_namespace := sampleAccountA, jr_turn := sampleAccountA, jr_account := sampleAccountA,
     jr_generation := 5, jr_lane_generation := 2, jr_lease_generation := 3, jr_epoch := 1,
     jr_state := LeaseProvisional, jr_schema := 3, jr_auth := True,
     jr_created := GoTime 15 True, jr_observed := GoTime 40 True,
     jr_request := zeroRequest\<lparr>cq_generation := 1, cq_kind := CodexRequestTurn,
       cq_model_hash := sampleAccountA, cq_effective_model := ''gpt-5'',
       cq_buckets := [CapacityBucketBase],
       cq_envelope := \<lparr>ae_policy = 1, ae_digest = sampleAccountA, ae_limit = 1,
         ae_slots = [\<lparr>sl_index = 1, sl_account = sampleAccountA, sl_candidate = sampleAccountA,
           sl_kind = CodexAttemptSlotDirect\<rparr>]\<rparr>,
       cq_current := 1, cq_routing_refs := 1,
       cq_attempts := [\<lparr>at_generation = 1, at_revision = 2, at_slot = 1,
         at_state = AttemptDispatched, at_created = GoTime 20 True, at_observed = GoTime 30 True\<rparr>]\<rparr>\<rparr>"

definition liveLane :: journal_lane where
  "liveLane = zeroLane\<lparr>ln_session := sampleAccountA, ln_thread := sampleAccountA,
     ln_namespace := sampleAccountA, ln_generation := 2, ln_current_turn := sampleAccountA,
     ln_current_epoch := 1, ln_current_auth := True, ln_last_turn := sampleAccountA,
     ln_last_epoch := 1, ln_last_auth := True, ln_observed_at := GoTime 40 True\<rparr>"

definition liveJournal :: journal where
  "liveJournal = \<lparr>jn_events = [], jn_version = codexLeaseJournalVersionV3,
     jn_hash_version = codexLeaseHashVersion, jn_generation = 9, jn_invalidation = 0,
     jn_cutover = \<lparr>cu_source_version = 0, cu_compatibility_epoch = compatCurrentEpoch,
       cu_state = CodexLeaseCutoverComplete, cu_at = GoTime 10 True, cu_journal_generation = 1,
       cu_authoritative_epochs = [], cu_shadow_epochs = [], cu_quarantine_until = zeroTime,
       cu_legacy_sha256 = [], cu_completed_at = GoTime 10 True, cu_completion_generation = 1,
       cu_no_legacy_authority = True\<rparr>,
     jn_lanes = [liveLane], jn_records = [liveRecord], jn_mac = []\<rparr>"

lemma plainCrypto_bytes: "hmacBytes plainCrypto"
  by (simp add: hmacBytes_def plainCrypto_def sha256Size_def list_all_length)

lemma liveJournal_envelope:
  "validateCodexLeaseEnvelope plainCrypto encode liveJournal codexLeaseJournalVersionV3
     compatCurrentEpoch CurrentCodexLeaseSchema True False = Inr ()"
  by code_simp

lemma liveJournal_valid:
  "validateCodexLeaseEnvelope plainCrypto encode liveJournal codexLeaseJournalVersionV3
     compatCurrentEpoch CurrentCodexLeaseSchema True False = Inr ()"
  "validateV2SemanticStateForSchema plainCrypto liveJournal CurrentCodexLeaseSchema = Inr ()"
  using liveJournal_envelope by (simp_all add: validateCodexLeaseEnvelope_def Let_def go_simps)

theorem journal_validators_agree_witness:
  "validateCodexLeaseV2StateForSchema plainCrypto liveJournal CurrentCodexLeaseSchema = Inr ()"
proof -
  have "list_all (\<lambda>r. ae_slots (cq_envelope (jr_request r)) \<noteq> []) (jn_records liveJournal)"
    by code_simp
  then show ?thesis
    using journal_validators_agree [OF liveJournal_valid(2) plainCrypto_bytes] by (simp add: list_all_iff)
qed

section \<open>A valid journal is canonical\<close>

lemma scanE_sorted:
  assumes "scanE f [] xs = Inr ()"
    and step: "\<And>prior x. f prior x = Inr () \<Longrightarrow> prior \<noteq> [] \<Longrightarrow> lt (hd prior) x"
    and trans: "\<And>a b c. lt a b \<Longrightarrow> lt b c \<Longrightarrow> lt a c"
  shows "sorted_wrt lt xs"
proof -
  have "sorted_wrt (\<lambda>a b. lt b a) (rev xs @ [])"
  proof (rule scanE_invariant [OF assms(1)])
    fix prior x assume prior: "sorted_wrt (\<lambda>a b. lt b a) prior" and "f prior x = Inr ()"
    then show "sorted_wrt (\<lambda>a b. lt b a) (x # prior)"
      using step [of prior x] trans by (cases prior) auto
  qed simp
  then show ?thesis by (simp add: sorted_wrt_rev)
qed

lemma sortBy_key:
  assumes "sorted_wrt (\<lambda>a b. key a < (key b :: 'k :: linorder)) xs"
  shows "sortBy (\<lambda>a b. key a < key b) xs = xs"
  by (rule comparison.sortBy_of_sorted [OF comparison_key], rule sorted_wrt_mono_rel [OF _ assms]) auto

lemma sortBy_ascending: "ascending (xs :: 'k :: linorder list) \<Longrightarrow> sortBy (<) xs = xs"
  using sortBy_key [of "\<lambda>x. x" xs] by (simp add: ascending_sorted_wrt)

lemma scanE_nth:
  "scanE f prior xs = Inr () \<Longrightarrow> i < length xs \<Longrightarrow> f (rev (take i xs) @ prior) (xs ! i) = Inr ()"
proof (induction xs arbitrary: prior i)
  case Nil
  then show ?case by simp
next
  case (Cons x xs)
  then show ?case by (cases i) (auto simp: andThen_Inr_iff)
qed

text \<open>Rows numbered from one, too few of them for the number to wrap, are in order.\<close>

lemma numbered_sorted:
  fixes key :: "'a \<Rightarrow> 'w::len word"
  assumes "\<And>i. i < length xs \<Longrightarrow> key (xs ! i) = of_nat (i + 1)" "length xs < 2 ^ LENGTH('w)"
  shows "sortBy (\<lambda>a b. key a < key b) xs = xs"
proof (rule sortBy_key)
  have "key (xs ! i) < key (xs ! k)" if "i < k" "k < length xs" for i k
    using assms that by (simp add: word_less_nat_alt unat_of_nat del: of_nat_Suc)
  then show "sorted_wrt (\<lambda>a b. key a < key b) xs" by (simp add: sorted_wrt_iff_nth_less)
qed

lemma canonicalRequest_valid:
  assumes "validateV2RouteAndAttempts cr r = Inr ()" "hmacBytes cr"
  shows "canonicalRequest (jr_request r) = jr_request r"
proof -
  let ?q = "jr_request r" and ?env = "cq_envelope (jr_request r)"
  have buckets: "sortBy (<) (cq_buckets ?q) = cq_buckets ?q"
    using semantic_route(1) [OF assms] by (simp add: canonicalCodexCapacityBuckets_def sortBy_ascending)
  have "sortBy (\<lambda>a b. sl_index a < sl_index b) (ae_slots ?env) = ae_slots ?env \<and>
      sortBy (\<lambda>a b. at_generation a < at_generation b) (cq_attempts ?q) = cq_attempts ?q"
  proof (cases "cq_generation ?q = 0 \<or> ae_slots ?env = []")
    case True
    then have "ae_slots ?env = []" "cq_attempts ?q = []"
      using assms(1)
      by (auto simp: validateV2RouteAndAttempts_def noAttemptsRecord_def codexCurrentRequestIsZero_def
        codexAttemptEnvelopeIsZero_def Let_def go_simps split: if_splits)
    then show ?thesis by simp
  next
    case False
    then have "attemptsChecks cr r = Inr ()"
      using assms(1) by (auto simp: validateV2RouteAndAttempts_def go_simps split: if_splits)
    then have c: "unat (ae_limit ?env) = length (ae_slots ?env)"
      "scanE (\<lambda>prior. validSlot (ae_slots ?env) (cq_quota_probe ?q) (length prior)) [] (ae_slots ?env) = Inr ()"
      "length (cq_attempts ?q) \<le> length (ae_slots ?env)"
      "scanE (validAttempt r) [] (cq_attempts ?q) = Inr ()"
      by (auto simp: attemptsChecks_def Let_def go_simps not_less)
    have small: "length (ae_slots ?env) < 2 ^ 32" using unsigned_less [where w = "ae_limit ?env" and ?'a = nat] c(1) by simp
    have "sl_index (ae_slots ?env ! i) = of_nat (i + 1)" if "i < length (ae_slots ?env)" for i
      using scanE_nth [OF c(2) that] that by (auto simp: validSlot_def go_simps min_def)
    moreover have "at_generation (cq_attempts ?q ! i) = of_nat (i + 1)" if "i < length (cq_attempts ?q)" for i
    proof -
      have "validAttempt r (rev (take i (cq_attempts ?q))) (cq_attempts ?q ! i) = Inr ()"
        using scanE_nth [OF c(4) that] by simp
      then show ?thesis using that unfolding validAttempt_iff by (simp add: min_def)
    qed
    ultimately show ?thesis
      using small c(3) numbered_sorted [of "ae_slots ?env" sl_index]
        numbered_sorted [of "cq_attempts ?q" at_generation] by simp
  qed
  with buckets show ?thesis by (simp add: canonicalRequest_def)
qed

lemma canonical_semantic:
  assumes v: "validateV2SemanticStateForSchema cr j schema = Inr ()" and "hmacBytes cr"
    and epochs: "validSortedCodexEpochs (cu_authoritative_epochs (jn_cutover j))"
      "validSortedCodexEpochs (cu_shadow_epochs (jn_cutover j))"
  shows "canonicaliseCodexLeaseV2 j = j"
proof -
  note s = semanticD [OF v]
  have "sortBy (\<lambda>a b. ev_account a < ev_account b) (jn_events j) = jn_events j"
    by (rule sortBy_key, rule scanE_sorted [OF s(2)]) (auto simp: validateEvent_def)
  moreover have "sortBy codexJournalLaneLess (jn_lanes j) = jn_lanes j"
  proof (rule laneOrder.sortBy_of_sorted)
    have "sorted_wrt codexJournalLaneLess (jn_lanes j)"
      by (rule scanE_sorted [OF s(3)]) (auto simp: laneLess_key dest: validateLaneD(11))
    then show "sorted_wrt (\<lambda>x y. \<not> codexJournalLaneLess y x) (jn_lanes j)"
      by (rule sorted_wrt_mono_rel [rotated]) (simp add: laneOrder.asym)
  qed
  moreover have "sortBy codexJournalRecordLess (jn_records j) = jn_records j"
  proof (rule recordOrder.sortBy_of_sorted)
    have "sorted_wrt codexJournalRecordLess (jn_records j)"
      by (rule scanE_sorted [OF s(4)]) (auto simp: recordLess_key elim: listedRecordE)
    then show "sorted_wrt (\<lambda>x y. \<not> codexJournalRecordLess y x) (jn_records j)"
      by (rule sorted_wrt_mono_rel [rotated]) (simp add: recordOrder.asym)
  qed
  moreover have "map canonicalLane (jn_lanes j) = jn_lanes j"
  proof (rule map_idI)
    fix l assume "l \<in> set (jn_lanes j)"
    with scanE_each [OF s(3)] have "validDigests (ln_unavailable l)" "validDigests (ln_exhausted l)"
      by (metis validateLaneD(9,10))+
    then show "canonicalLane l = l" by (simp add: canonicalLane_def validDigests_def sortBy_ascending)
  qed
  moreover have "map (\<lambda>r. r\<lparr>jr_request := canonicalRequest (jr_request r)\<rparr>) (jn_records j) = jn_records j"
  proof (rule map_idI)
    fix r assume "r \<in> set (jn_records j)"
    with scanE_each [OF s(4)] have "validateV2RouteAndAttempts cr r = Inr ()"
      by (metis listedRecordE validateV2RecordD(21))
    then show "r\<lparr>jr_request := canonicalRequest (jr_request r)\<rparr> = r"
      by (simp add: canonicalRequest_valid assms(2))
  qed
  ultimately show ?thesis
    using epochs by (simp add: canonicaliseCodexLeaseV2_def validSortedCodexEpochs_def sortBy_ascending)
qed

lemma envelopeD:
  assumes "validateCodexLeaseEnvelope cr encode j version epoch schema cache mac = Inr ()"
  shows "validateV2SemanticStateForSchema cr j schema = Inr ()"
    "validSortedCodexEpochs (cu_authoritative_epochs (jn_cutover j))"
    "validSortedCodexEpochs (cu_shadow_epochs (jn_cutover j))"
    "jn_version j = version" "jn_hash_version j = codexLeaseHashVersion"
    "cu_journal_generation (jn_cutover j) \<le> jn_generation j" "cu_journal_generation (jn_cutover j) \<noteq> 0"
  using assms by (auto simp: validateCodexLeaseEnvelope_def Let_def go_simps not_less)

text \<open>
  C29. A journal that passes validation is in canonical form: its lanes, records, slots,
  attempts, buckets, account lists, events and epochs are in the order the encoder would put
  them in, so writing it back changes no byte of its content.
\<close>

theorem journal_valid_canonical:
  assumes "validateCodexLeaseEnvelope cr encode j version epoch schema cache mac = Inr ()"
    and "hmacBytes cr"
  shows "canonicaliseCodexLeaseV2 j = j"
  using canonical_semantic [OF envelopeD(1) [OF assms(1)] assms(2) envelopeD(2,3) [OF assms(1)]] .

theorem journal_valid_canonical_witness:
  "canonicaliseCodexLeaseV2 liveJournal = liveJournal"
  by (rule journal_valid_canonical [OF liveJournal_valid(1) plainCrypto_bytes])

end
