(* ===== verification/LeaseRestore.thy ===== *)
theory LeaseRestore
  imports LeaseValidate
begin

text \<open>
  What a restarted proxy does with the journal it finds
  (\<open>normaliseRestoredV2Locked\<close> in \<open>internal/proxy/codex_lease_v2.go\<close>): no socket survives a
  restart, so references are dropped, attempts in flight are settled, and leases that depended
  on the lost work are orphaned or failed. Then the canonical form and the preparation of a
  journal for writing.
\<close>

section \<open>Settling a record\<close>

definition restoreAttempt :: "gotime \<Rightarrow> u64 \<Rightarrow> journal_attempt \<Rightarrow> journal_attempt" where
  "restoreAttempt now current a =
     (if at_generation a \<noteq> current \<or> \<not> inFlightAttempt (at_state a) then a
      else a\<lparr>at_state := if at_state a = AttemptPrepared then AttemptAbandonedBeforeDispatch
          else AttemptIndeterminate,
        at_revision := at_revision a + 1,
        at_observed := monotonicCodexLeaseTime now (at_observed a)\<rparr>)"

definition attemptAbandoned :: "journal_record \<Rightarrow> bool" where
  "attemptAbandoned r \<longleftrightarrow> (\<exists>a \<in> set (cq_attempts (jr_request r)).
     at_generation a = cq_current (jr_request r) \<and> at_state a = AttemptPrepared)"

definition attemptUncertain :: "journal_record \<Rightarrow> bool" where
  "attemptUncertain r \<longleftrightarrow> (\<exists>a \<in> set (cq_attempts (jr_request r)).
     at_generation a = cq_current (jr_request r) \<and>
     (at_state a = AttemptDispatched \<or> at_state a = AttemptStreaming))"

definition hasLiveSocket :: "journal_record \<Rightarrow> bool" where
  "hasLiveSocket r \<longleftrightarrow> \<not> jr_extinct r \<or> \<not> drained (jr_request r)"

definition orphanedByRestart :: "journal_record \<Rightarrow> bool" where
  "orphanedByRestart r \<longleftrightarrow> jr_state r \<noteq> LeaseReserving \<and>
     (attemptUncertain r \<or> (attemptAbandoned r \<and> jr_admitted r) \<or>
      jr_state r = LeaseContinuationPending \<or> jr_state r = LeaseBoundQuiescent)"

definition leaseChanged :: "journal_record \<Rightarrow> bool" where
  "leaseChanged r \<longleftrightarrow> hasLiveSocket r \<or> (attemptUncertain r \<and> \<not> jr_non_migratable r) \<or>
     jr_state r = LeaseReserving \<or> orphanedByRestart r"

definition recordChanged :: "journal_record \<Rightarrow> bool" where
  "recordChanged r \<longleftrightarrow> hasLiveSocket r \<or> attemptUncertain r \<or> attemptAbandoned r \<or>
     jr_state r = LeaseReserving \<or> orphanedByRestart r"

definition restoreRequest :: "gotime \<Rightarrow> current_request \<Rightarrow> current_request" where
  "restoreRequest now q = q\<lparr>cq_routing_refs := 0, cq_attempt_refs := 0, cq_observer_refs := 0,
     cq_attempts := map (restoreAttempt now (cq_current q)) (cq_attempts q)\<rparr>"

definition restoreRecord :: "gotime \<Rightarrow> journal_record \<Rightarrow> journal_record" where
  "restoreRecord now r =
     (if \<not> recordChanged r then r
      else r\<lparr>jr_extinct := True, jr_request := restoreRequest now (jr_request r),
        jr_non_migratable := jr_non_migratable r \<or> attemptUncertain r,
        jr_state := (if jr_state r = LeaseReserving then LeaseFailedUnadmitted
          else if orphanedByRestart r then LeaseOrphaned else jr_state r),
        jr_lease_generation := jr_lease_generation r + (if leaseChanged r then 1 else 0),
        jr_generation := jr_generation r + 1,
        jr_observed := monotonicCodexLeaseTime now (jr_observed r)\<rparr>)"

section \<open>Settling the lanes\<close>

definition clearReservedLane :: "gotime \<Rightarrow> journal_record \<Rightarrow> journal_lane \<Rightarrow> journal_lane" where
  "clearReservedLane now r l =
     (if jr_state r = LeaseReserving \<and> codexLeaseRecordInLane r l \<and> codexLeaseLaneCurrentMatchesRecord l r
      then l\<lparr>ln_current_turn := [], ln_current_epoch := 0, ln_current_auth := False,
        ln_generation := ln_generation l + 1,
        ln_observed_at := monotonicCodexLeaseTime now (ln_observed_at l)\<rparr>
      else l)"

definition touchLane :: "gotime \<Rightarrow> journal_record \<Rightarrow> journal_lane \<Rightarrow> journal_lane" where
  "touchLane now r l =
     (if recordChanged r \<and> codexLeaseRecordInLane r l
      then l\<lparr>ln_observed_at :=
        monotonicCodexLeaseTime (jr_observed (restoreRecord now r)) (ln_observed_at l)\<rparr>
      else l)"

definition restoreLane :: "gotime \<Rightarrow> journal_record \<Rightarrow> journal_lane \<Rightarrow> journal_lane" where
  "restoreLane now r l = touchLane now r (clearReservedLane now r l)"

text \<open>The loop over the records, which updates the lanes as it goes.\<close>

definition journalRestoreStep ::
  "gotime \<Rightarrow> journal_record \<Rightarrow> journal_record list \<times> journal_lane list \<times> bool \<Rightarrow>
   journal_record list \<times> journal_lane list \<times> bool" where
  "journalRestoreStep now r s = (case s of (done, ls, changed) \<Rightarrow>
     (done @ [restoreRecord now r], map (restoreLane now r) ls, changed \<or> recordChanged r))"

definition restoredEnvelope :: "gotime \<Rightarrow> journal \<Rightarrow> journal \<times> bool" where
  "restoredEnvelope now j =
     (case fold (journalRestoreStep now) (jn_records j) ([], jn_lanes j, False) of (rs, ls, changed) \<Rightarrow>
        (j\<lparr>jn_records := rs, jn_lanes := ls\<rparr>, changed))"

definition normaliseRestored :: "gotime \<Rightarrow> journal \<Rightarrow> journal option" where
  "normaliseRestored now j =
     (if cu_state (jn_cutover j) \<noteq> CodexLeaseCutoverComplete \<or>
         \<not> cu_no_legacy_authority (jn_cutover j) then None
      else case restoredEnvelope (utc now) j of (next, changed) \<Rightarrow> if changed then Some next else None)"

lemma fold_restoreStep:
  "fold (journalRestoreStep now) rs (done, ls, ch) =
     (done @ map (restoreRecord now) rs, map (\<lambda>l. fold (restoreLane now) rs l) ls,
      ch \<or> (\<exists>r \<in> set rs. recordChanged r))"
  by (induction rs arbitrary: "done" ls ch) (auto simp: journalRestoreStep_def)

lemma restoredEnvelope_eq:
  "restoredEnvelope now j =
     (j\<lparr>jn_records := map (restoreRecord now) (jn_records j),
        jn_lanes := map (\<lambda>l. fold (restoreLane now) (jn_records j) l) (jn_lanes j)\<rparr>,
      \<exists>r \<in> set (jn_records j). recordChanged r)"
  by (simp add: restoredEnvelope_def fold_restoreStep)

section \<open>A settled record\<close>

text \<open>Nothing is left to do for a record: no socket, no work in flight, no pending decision.\<close>

definition settled :: "journal_record \<Rightarrow> bool" where
  "settled r \<longleftrightarrow> jr_extinct r \<and> drained (jr_request r) \<and> \<not> attemptUncertain r \<and> \<not> attemptAbandoned r \<and>
     jr_state r \<notin> {LeaseReserving, LeaseContinuationPending, LeaseBoundQuiescent}"

lemma settled_iff: "settled r \<longleftrightarrow> \<not> recordChanged r"
  by (auto simp: settled_def recordChanged_def hasLiveSocket_def orphanedByRestart_def)

lemma restoreAttempt_same [simp]:
  "at_generation (restoreAttempt now c a) = at_generation a"
  "at_slot (restoreAttempt now c a) = at_slot a"
  "at_created (restoreAttempt now c a) = at_created a"
  by (simp_all add: restoreAttempt_def)

lemma restoreAttempt_settled:
  "at_generation a = c \<Longrightarrow> \<not> inFlightAttempt (at_state (restoreAttempt now c a))"
  by (auto simp: restoreAttempt_def inFlightAttempt_def)


lemma restoreRecord_settled: "settled (restoreRecord now r)"
proof (cases "recordChanged r")
  case False
  then show ?thesis by (simp add: restoreRecord_def settled_iff)
next
  case True
  have "\<not> inFlightAttempt (at_state a)"
    if "a \<in> set (cq_attempts (restoreRequest now (jr_request r)))" "at_generation a = cq_current (jr_request r)" for a
    using that restoreAttempt_settled by (auto simp: restoreRequest_def)
  then have none: "\<not> attemptUncertain (restoreRecord now r)" "\<not> attemptAbandoned (restoreRecord now r)"
    using True
    by (auto simp: attemptUncertain_def attemptAbandoned_def restoreRecord_def inFlightAttempt_def restoreRequest_def)
  have "jr_state (restoreRecord now r) \<notin> {LeaseReserving, LeaseContinuationPending, LeaseBoundQuiescent}"
    using True by (auto simp: restoreRecord_def orphanedByRestart_def)
  moreover have "drained (jr_request (restoreRecord now r))" "jr_extinct (restoreRecord now r)"
    using True by (simp_all add: restoreRecord_def restoreRequest_def drained_def)
  ultimately show ?thesis using none by (simp add: settled_def)
qed

lemma restoreRecord_same [simp]:
  "jr_session (restoreRecord now r) = jr_session r" "jr_thread (restoreRecord now r) = jr_thread r"
  "jr_namespace (restoreRecord now r) = jr_namespace r" "jr_turn (restoreRecord now r) = jr_turn r"
  "jr_account (restoreRecord now r) = jr_account r" "jr_pred_turn (restoreRecord now r) = jr_pred_turn r"
  "jr_pred_epoch (restoreRecord now r) = jr_pred_epoch r" "jr_pred_auth (restoreRecord now r) = jr_pred_auth r"
  "jr_pred_generation (restoreRecord now r) = jr_pred_generation r"
  "jr_correlation (restoreRecord now r) = jr_correlation r" "jr_turn_state (restoreRecord now r) = jr_turn_state r"
  "jr_prev_turn_state (restoreRecord now r) = jr_prev_turn_state r"
  "jr_lane_generation (restoreRecord now r) = jr_lane_generation r" "jr_epoch (restoreRecord now r) = jr_epoch r"
  "jr_schema (restoreRecord now r) = jr_schema r" "jr_auth (restoreRecord now r) = jr_auth r"
  "jr_has_anchor (restoreRecord now r) = jr_has_anchor r"
  "jr_has_turn_state (restoreRecord now r) = jr_has_turn_state r"
  "jr_latch (restoreRecord now r) = jr_latch r" "jr_prewarm (restoreRecord now r) = jr_prewarm r"
  "jr_prewarm_generation (restoreRecord now r) = jr_prewarm_generation r"
  "jr_admitted (restoreRecord now r) = jr_admitted r"
  "jr_admission_generation (restoreRecord now r) = jr_admission_generation r"
  "jr_admission_request (restoreRecord now r) = jr_admission_request r"
  "jr_admission_kind (restoreRecord now r) = jr_admission_kind r"
  "jr_admission_phase (restoreRecord now r) = jr_admission_phase r"
  "jr_admitted_at (restoreRecord now r) = jr_admitted_at r" "jr_created (restoreRecord now r) = jr_created r"
  "cq_redistribution (jr_request (restoreRecord now r)) = cq_redistribution (jr_request r)"
  "cq_generation (jr_request (restoreRecord now r)) = cq_generation (jr_request r)"
  "cq_kind (jr_request (restoreRecord now r)) = cq_kind (jr_request r)"
  "cq_phase (jr_request (restoreRecord now r)) = cq_phase (jr_request r)"
  "cq_model_hash (jr_request (restoreRecord now r)) = cq_model_hash (jr_request r)"
  "cq_permit (jr_request (restoreRecord now r)) = cq_permit (jr_request r)"
  "cq_quota_probe (jr_request (restoreRecord now r)) = cq_quota_probe (jr_request r)"
  "cq_effective_model (jr_request (restoreRecord now r)) = cq_effective_model (jr_request r)"
  "cq_buckets (jr_request (restoreRecord now r)) = cq_buckets (jr_request r)"
  "cq_envelope (jr_request (restoreRecord now r)) = cq_envelope (jr_request r)"
  "cq_current (jr_request (restoreRecord now r)) = cq_current (jr_request r)"
  by (simp_all add: restoreRecord_def restoreRequest_def)

lemma restoreRecord_identity [simp]:
  "Identity cr (restoreRecord now r) = Identity cr r"
  "predecessorIdentity cr (restoreRecord now r) = predecessorIdentity cr r"
  "recordKey (restoreRecord now r) = recordKey r"
  "codexLeaseAffinityEligible (restoreRecord now r) = codexLeaseAffinityEligible r"
  "hasRoute (restoreRecord now r) = hasRoute r" "validRoute (restoreRecord now r) = validRoute r"
  by (simp_all add: Identity_def predecessorIdentity_def recordKey_def codexLeaseAffinityEligible_def
    hasRoute_def validRoute_def)

lemma attempt_unchanged:
  "\<not> recordChanged r \<Longrightarrow> a \<in> set (cq_attempts (jr_request r)) \<Longrightarrow>
   restoreAttempt now (cq_current (jr_request r)) a = a"
  by (auto simp: recordChanged_def attemptUncertain_def attemptAbandoned_def restoreAttempt_def
    inFlightAttempt_def)

lemma restoreRecord_attempts [simp]:
  "cq_attempts (jr_request (restoreRecord now r)) =
     map (restoreAttempt now (cq_current (jr_request r))) (cq_attempts (jr_request r))"
  by (auto simp: restoreRecord_def restoreRequest_def attempt_unchanged intro: map_idI [symmetric])

lemma restoreRecord_drained [simp]:
  "drained (jr_request (restoreRecord now r))" "jr_extinct (restoreRecord now r)"
  using restoreRecord_settled [of now r] by (simp_all add: settled_def)

lemma restoreRecord_refs [simp]:
  "cq_routing_refs (jr_request (restoreRecord now r)) = 0"
  "cq_attempt_refs (jr_request (restoreRecord now r)) = 0"
  "cq_observer_refs (jr_request (restoreRecord now r)) = 0"
  using restoreRecord_drained(1) [of now r] by (simp_all add: drained_def)

lemma restoreRecord_state:
  "jr_state (restoreRecord now r) = (if jr_state r = LeaseReserving then LeaseFailedUnadmitted
     else if orphanedByRestart r then LeaseOrphaned else jr_state r)"
  by (auto simp: restoreRecord_def recordChanged_def)

lemma restoreRecord_pinned:
  "jr_non_migratable (restoreRecord now r) \<longleftrightarrow> jr_non_migratable r \<or> attemptUncertain r"
  by (auto simp: restoreRecord_def recordChanged_def)





section \<open>The lanes after all records\<close>

abbreviation laneAfter :: "gotime \<Rightarrow> journal_record list \<Rightarrow> journal_lane \<Rightarrow> journal_lane" where
  "laneAfter now rs l \<equiv> fold (restoreLane now) rs l"

lemma restoreLane_same [simp]:
  "ln_redistribution_requested (restoreLane now r l) = ln_redistribution_requested l"
  "ln_redistribution_completed (restoreLane now r l) = ln_redistribution_completed l"
  "ln_session (restoreLane now r l) = ln_session l" "ln_thread (restoreLane now r l) = ln_thread l"
  "ln_namespace (restoreLane now r l) = ln_namespace l"
  "ln_last_turn (restoreLane now r l) = ln_last_turn l" "ln_last_epoch (restoreLane now r l) = ln_last_epoch l"
  "ln_last_auth (restoreLane now r l) = ln_last_auth l"
  "ln_admitted_account (restoreLane now r l) = ln_admitted_account l"
  "ln_admitted_turn (restoreLane now r l) = ln_admitted_turn l"
  "ln_admitted_epoch (restoreLane now r l) = ln_admitted_epoch l"
  "ln_admitted_auth (restoreLane now r l) = ln_admitted_auth l"
  "ln_admission_generation (restoreLane now r l) = ln_admission_generation l"
  "ln_refresh_generation (restoreLane now r l) = ln_refresh_generation l"
  "ln_admitted_at (restoreLane now r l) = ln_admitted_at l"
  "ln_cache_admitted_at (restoreLane now r l) = ln_cache_admitted_at l"
  "ln_cache_model (restoreLane now r l) = ln_cache_model l"
  "ln_unavailable (restoreLane now r l) = ln_unavailable l" "ln_exhausted (restoreLane now r l) = ln_exhausted l"
  by (simp_all add: restoreLane_def touchLane_def clearReservedLane_def)

lemma fold_same: "(\<And>r l. f (g r l) = f l) \<Longrightarrow> f (fold g rs l) = f l"
  by (induction rs arbitrary: l) simp_all

lemma laneAfter_same [simp]:
  "ln_redistribution_requested (laneAfter now rs l) = ln_redistribution_requested l"
  "ln_redistribution_completed (laneAfter now rs l) = ln_redistribution_completed l"
  "ln_session (laneAfter now rs l) = ln_session l" "ln_thread (laneAfter now rs l) = ln_thread l"
  "ln_namespace (laneAfter now rs l) = ln_namespace l"
  "ln_last_turn (laneAfter now rs l) = ln_last_turn l" "ln_last_epoch (laneAfter now rs l) = ln_last_epoch l"
  "ln_last_auth (laneAfter now rs l) = ln_last_auth l"
  "ln_admitted_account (laneAfter now rs l) = ln_admitted_account l"
  "ln_admitted_turn (laneAfter now rs l) = ln_admitted_turn l"
  "ln_admitted_epoch (laneAfter now rs l) = ln_admitted_epoch l"
  "ln_admitted_auth (laneAfter now rs l) = ln_admitted_auth l"
  "ln_admission_generation (laneAfter now rs l) = ln_admission_generation l"
  "ln_refresh_generation (laneAfter now rs l) = ln_refresh_generation l"
  "ln_admitted_at (laneAfter now rs l) = ln_admitted_at l"
  "ln_cache_admitted_at (laneAfter now rs l) = ln_cache_admitted_at l"
  "ln_cache_model (laneAfter now rs l) = ln_cache_model l"
  "ln_unavailable (laneAfter now rs l) = ln_unavailable l" "ln_exhausted (laneAfter now rs l) = ln_exhausted l"
  by (rule fold_same; simp)+

lemma laneAfter_digest [simp]:
  "laneDigestOf cr (laneAfter now rs l) = laneDigestOf cr l"
  "laneKey (laneAfter now rs l) = laneKey l"
  "codexLaneAffinityIsZero (laneAfter now rs l) = codexLaneAffinityIsZero l"
  "affinitySource cr (laneAfter now rs l) = affinitySource cr l"
  "laneTuple cr (laneAfter now rs l) False = laneTuple cr l False"
  by (simp_all add: laneDigestOf_def laneKey_def codexLaneAffinityIsZero_def affinitySource_def laneTuple_def)

lemma laneAfter_inLane [simp]:
  "codexLeaseRecordInLane r (laneAfter now rs l) = codexLeaseRecordInLane r l"
  by (simp add: codexLeaseRecordInLane_def)

lemma restoreLane_inLane [simp]:
  "codexLeaseRecordInLane r' (restoreLane now r l) = codexLeaseRecordInLane r' l"
  by (simp add: codexLeaseRecordInLane_def)






section \<open>A settled record is valid\<close>


lemma attempt_changes_record:
  assumes "a \<in> set (cq_attempts (jr_request r))" "restoreAttempt now (cq_current (jr_request r)) a \<noteq> a"
  shows "recordChanged r"
  using assms attempt_unchanged by blast






section \<open>The settled journal\<close>

definition settledJournal :: "gotime \<Rightarrow> journal \<Rightarrow> journal" where
  "settledJournal now j = (fst (restoredEnvelope now j))\<lparr>jn_generation := jn_generation j + 1\<rparr>"

lemma settledJournal_eq [simp]:
  "jn_records (settledJournal now j) = map (restoreRecord now) (jn_records j)"
  "jn_lanes (settledJournal now j) = map (laneAfter now (jn_records j)) (jn_lanes j)"
  "jn_generation (settledJournal now j) = jn_generation j + 1"
  "jn_cutover (settledJournal now j) = jn_cutover j" "jn_events (settledJournal now j) = jn_events j"
  "jn_version (settledJournal now j) = jn_version j"
  "jn_hash_version (settledJournal now j) = jn_hash_version j"
  "jn_invalidation (settledJournal now j) = jn_invalidation j" "jn_mac (settledJournal now j) = jn_mac j"
  by (simp_all add: settledJournal_def restoredEnvelope_eq)




text \<open>
  Lanes are told apart by their digests: SHA-256 does not map the names of a record's lane
  and of another lane of the journal to one digest.
\<close>

definition laneDigestsSeparate :: "crypto \<Rightarrow> journal \<Rightarrow> bool" where
  "laneDigestsSeparate cr j \<longleftrightarrow> list_all (\<lambda>r. list_all (\<lambda>l.
     ri_lane (Identity cr r) = laneDigestOf cr l \<longrightarrow> codexLeaseRecordInLane r l) (jn_lanes j)) (jn_records j)"

text \<open>A successor's link names the version of its predecessor, which must not change any more.\<close>

definition predecessorsSettled :: "crypto \<Rightarrow> journal \<Rightarrow> bool" where
  "predecessorsSettled cr j \<longleftrightarrow> list_all (\<lambda>r. jr_pred_turn r \<noteq> [] \<longrightarrow>
     (case lookupRecord cr (jn_records j) (predecessorIdentity cr r) of None \<Rightarrow> True | Some p \<Rightarrow> settled p))
     (jn_records j)"










section \<open>A restart\<close>

text \<open>
  C15. A restart settles everything at once: after it no record has a socket, a reference or
  an attempt in flight, none is reserving or waits for a continuation, and a second restart
  finds nothing to do. Identity, account, admission evidence and request plan of every record
  are kept; a record becomes pinned exactly if its attempt may have reached the provider.
\<close>

theorem restart_settles:
  assumes "normaliseRestored now j = Some next"
  shows "(\<forall>r \<in> set (jn_records next). settled r) \<and> normaliseRestored now' next = None \<and>
    list_all2 (\<lambda>r r'. Identity cr r' = Identity cr r \<and> jr_account r' = jr_account r \<and>
      admissionEvidence r' = admissionEvidence r \<and>
      jr_request r' = (jr_request r)\<lparr>cq_routing_refs := 0, cq_attempt_refs := 0,
        cq_observer_refs := 0, cq_attempts := cq_attempts (jr_request r')\<rparr> \<and>
      (jr_non_migratable r' \<longleftrightarrow> jr_non_migratable r \<or> attemptUncertain r) \<and>
      (jr_state r' = jr_state r \<or> jr_state r = LeaseReserving \<and> jr_state r' = LeaseFailedUnadmitted \<or>
       jr_state r' = LeaseOrphaned)) (jn_records j) (jn_records next)"
proof -
  from assms have nx: "jn_records next = map (restoreRecord (utc now)) (jn_records j)"
    "cu_state (jn_cutover next) = CodexLeaseCutoverComplete"
    by (auto simp: normaliseRestored_def restoredEnvelope_eq split: if_splits)
  then have "\<forall>r \<in> set (jn_records next). settled r" by (simp add: restoreRecord_settled)
  moreover from this have "normaliseRestored now' next = None"
    by (simp add: normaliseRestored_def restoredEnvelope_eq settled_iff)
  moreover have "jr_request (restoreRecord now r) = (jr_request r)\<lparr>cq_routing_refs := 0,
      cq_attempt_refs := 0, cq_observer_refs := 0, cq_attempts := cq_attempts (jr_request (restoreRecord now r))\<rparr>"
    for now r
    by (rule current_request.equality) simp_all
  ultimately show ?thesis
    by (auto simp: nx(1) list_all2_conv_all_nth admissionEvidence_def restoreRecord_pinned restoreRecord_state
      simp del: restoreRecord_attempts)
qed






definition restartedJournal :: journal where
  "restartedJournal = the (normaliseRestored (GoTime 90 True) liveJournal)"

lemma liveJournal_restart:
  "normaliseRestored (GoTime 90 True) liveJournal = Some restartedJournal"
  "laneDigestsSeparate plainCrypto liveJournal" "predecessorsSettled plainCrypto liveJournal"
  by code_simp+

theorem restart_settles_witness:
  "settled (hd (jn_records restartedJournal)) \<and> \<not> settled liveRecord \<and>
   jr_non_migratable (hd (jn_records restartedJournal))"
proof -
  have "jn_records restartedJournal \<noteq> []" "\<not> settled liveRecord"
    "jr_non_migratable (hd (jn_records restartedJournal))" by code_simp+
  moreover from this restart_settles [OF liveJournal_restart(1)]
  have "settled (hd (jn_records restartedJournal))" by (metis list.set_sel(1))
  ultimately show ?thesis by blast
qed







end
