(* ===== verification/LeaseStore.thy ===== *)
theory LeaseStore
  imports LeaseRestore
begin

text \<open>
  The durable lease store (\<open>CodexLeaseStore\<close>): the journal in memory, the bytes it was written
  as, the retained mode epochs and the flags that stop it. Its operations are those of
  \<open>codex_lease_v2_cas.go\<close> (\<open>commitLane\<close>), \<open>codex_lease_v2.go\<close> (\<open>commitV2Locked\<close>, opening and
  closing), \<open>codex_lease_v2_retention.go\<close>, \<open>codex_lease_redistribution.go\<close>,
  \<open>codex_lease_invalidation.go\<close> and \<open>codex_lease_v2_cutover.go\<close>. The disk is the content of the
  journal file; what the file system, the clock and the process that owns the store answer
  during one operation is an argument of it.
\<close>

section \<open>The world of one operation\<close>

text \<open>
  \<open>encoding/json\<close> on the journal: \<open>cd_encode\<close> is \<open>json.Marshal\<close>, \<open>cd_parse\<close> the decoder that
  refuses unknown fields and trailing data.
\<close>

record codec =
  cd_encode :: "journal \<Rightarrow> string"
  cd_parse :: "string \<Rightarrow> journal option"

text \<open>
  A durable write fails before the precondition, or gets as far as replacing the file, which
  fails, ends without a definite outcome (and may or may not have replaced it), or succeeds.
\<close>

datatype rename_outcome = RenameFails string | RenameUncertain string bool | RenameDone

datatype write_attempt = WriteFails string | WriteReaches rename_outcome

datatype write_error = NotCommitted lease_error | Indeterminate lease_error

record io =
  io_owner :: "lease_error option" \<comment> \<open>the writer authority's refusal\<close>
  io_now :: gotime
  io_sweep_now :: gotime
  io_revalidate :: "lease_error option" \<comment> \<open>a replaced directory, key or archive\<close>
  io_write :: write_attempt
  io_cleanup_uncertain :: bool
  io_readback :: "string \<Rightarrow> string option"
  io_archive :: "lease_error option" \<comment> \<open>the verdict on the legacy archive\<close>

record store =
  st_journal :: "journal option"
  st_generation :: u64
  st_bytes :: string
  st_modes :: "u64 list option"
  st_retention :: int
  st_has_clock :: bool
  st_last_sweep :: gotime
  st_poisoned :: "lease_error option"
  st_closed :: bool

definition isTrustLost :: "lease_error \<Rightarrow> bool" where
  "isTrustLost e = (case e of ErrTrustLost _ \<Rightarrow> True | _ \<Rightarrow> False)"

fun writeCause :: "write_error \<Rightarrow> lease_error" where
  "writeCause (NotCommitted e) = e"
| "writeCause (Indeterminate e) = e"

definition poisons :: "write_error \<Rightarrow> bool" where
  "poisons e \<longleftrightarrow> (case e of Indeterminate _ \<Rightarrow> True | NotCommitted c \<Rightarrow> isTrustLost c)"

text \<open>\<open>SecureAtomicWriteInDirectoryChecked\<close>: the precondition runs right before the replacement.\<close>

definition atomicWrite ::
  "io \<Rightarrow> lease_error + unit \<Rightarrow> string \<Rightarrow> string \<Rightarrow> write_error option \<times> string" where
  "atomicWrite w beforeReplace data disk =
     (let failed = (\<lambda>e. if io_cleanup_uncertain w then Indeterminate e else NotCommitted e)
      in case io_write w of
           WriteFails m \<Rightarrow> (Some (failed (ErrStoreIO m)), disk)
         | WriteReaches outcome \<Rightarrow>
             (case beforeReplace of
                Inl e \<Rightarrow> (Some (failed e), disk)
              | Inr _ \<Rightarrow>
                  (case outcome of
                     RenameFails m \<Rightarrow> (Some (failed (ErrStoreIO m)), disk)
                   | RenameUncertain m replaced \<Rightarrow>
                       (Some (Indeterminate (ErrStoreIO m)), if replaced then data else disk)
                   | RenameDone \<Rightarrow> (None, data))))"

section \<open>Opening the gate\<close>

definition beginOperation :: "io \<Rightarrow> store \<Rightarrow> lease_error + unit" where
  "beginOperation w s =
     (if st_closed s then Inl ErrWriterUnavailable
      else case io_owner w of None \<Rightarrow> Inr () | Some _ \<Rightarrow> Inl ErrWriterUnavailable)"

definition revalidateV2InstalledLocked :: "io \<Rightarrow> store \<Rightarrow> string \<Rightarrow> lease_error + unit" where
  "revalidateV2InstalledLocked w s disk =
     (case io_revalidate w of
        Some e \<Rightarrow> Inl e
      | None \<Rightarrow> failIf (disk \<noteq> st_bytes s) (ErrTrustLost ''Codex lease journal replaced''))"

definition cutoverComplete :: "journal \<Rightarrow> bool" where
  "cutoverComplete j \<longleftrightarrow>
     cu_state (jn_cutover j) = CodexLeaseCutoverComplete \<and> cu_no_legacy_authority (jn_cutover j)"

section \<open>Mode epochs\<close>

text \<open>\<open>sort.Search\<close>: binary search for the first index whose element satisfies a predicate.\<close>

function searchFrom :: "(nat \<Rightarrow> bool) \<Rightarrow> nat \<Rightarrow> nat \<Rightarrow> nat" where
  "searchFrom f i k =
     (if i < k then let h = (i + k) div 2 in if f h then searchFrom f i h else searchFrom f (h + 1) k
      else i)"
  by pat_completeness auto
termination
  by (relation "measure (\<lambda>(f, i, k). k - i)") auto

declare searchFrom.simps [simp del]

definition containsCodexLeaseEpoch :: "u64 list \<Rightarrow> u64 \<Rightarrow> bool" where
  "containsCodexLeaseEpoch epochs epoch \<longleftrightarrow>
     (let index = searchFrom (\<lambda>i. epochs ! i \<ge> epoch) 0 (length epochs)
      in index < length epochs \<and> epochs ! index = epoch)"

definition sortedCodexEpochSet :: "u64 list \<Rightarrow> u64 list" where
  "sortedCodexEpochSet epochs = sortBy (<) (remdups epochs)"

definition representedCodexLeaseAuthoritativeEpochs :: "journal_record list \<Rightarrow> u64 list" where
  "representedCodexLeaseAuthoritativeEpochs rs =
     sortedCodexEpochSet (map jr_epoch (filter jr_auth rs))"

definition validateCodexLeaseRepresentedModes :: "u64 list \<Rightarrow> u64 list \<Rightarrow> lease_error + unit" where
  "validateCodexLeaseRepresentedModes represented recognised =
     andThen (failIf (\<not> validSortedCodexEpochs recognised) ErrAuthorityMismatch) (\<lambda>_.
     forE (\<lambda>epoch. failIf (\<not> containsCodexLeaseEpoch recognised epoch) ErrAuthorityMismatch) represented)"

definition modeEpochs :: "store \<Rightarrow> u64 list" where
  "modeEpochs s = (case st_modes s of None \<Rightarrow> [] | Some epochs \<Rightarrow> epochs)"

section \<open>Preparing and installing a journal\<close>

definition emptyMACSuffix :: string where
  "emptyMACSuffix = [CHR 0x22] @ ''mac'' @ [CHR 0x22] @ '':'' @ [CHR 0x22, CHR 0x22] @ ''}''"

definition hasSuffix :: "string \<Rightarrow> string \<Rightarrow> bool" where
  "hasSuffix s suffix \<longleftrightarrow> length suffix \<le> length s \<and> drop (length s - length suffix) s = suffix"

definition v2PayloadMAC :: "crypto \<Rightarrow> string \<Rightarrow> string" where
  "v2PayloadMAC cr payload = rawURLEncode (cr_hmac cr payload)"

definition insertMAC :: "string \<Rightarrow> string \<Rightarrow> string" where
  "insertMAC payload mac = take (length payload - 2) payload @ mac @ drop (length payload - 2) payload"

definition marshalCanonicalV2Envelope :: "crypto \<Rightarrow> codec \<Rightarrow> journal \<Rightarrow> lease_error + (journal \<times> string)" where
  "marshalCanonicalV2Envelope cr cd j =
     (let payload = cd_encode cd (j\<lparr>jn_mac := []\<rparr>); mac = v2PayloadMAC cr payload
      in if \<not> hasSuffix payload emptyMACSuffix
         then Inl (ErrStoreIO ''Codex lease v2 MAC field is not canonical'')
         else Inr (j\<lparr>jn_mac := mac\<rparr>, insertMAC payload mac))"

definition prepareV2Envelope :: "crypto \<Rightarrow> codec \<Rightarrow> journal \<Rightarrow> lease_error + (journal \<times> string)" where
  "prepareV2Envelope cr cd j =
     (let signed = (canonicaliseCodexLeaseV2 j)\<lparr>jn_mac := []\<rparr>
      in andThen (validateCodexLeaseEnvelope cr (cd_encode cd) signed codexLeaseJournalVersionV3
           compatCurrentEpoch CurrentCodexLeaseSchema True False) (\<lambda>_.
         marshalCanonicalV2Envelope cr cd signed))"

definition decodeCodexLeaseV2StrictJSON :: "codec \<Rightarrow> string \<Rightarrow> lease_error + journal" where
  "decodeCodexLeaseV2StrictJSON cd data =
     (case cd_parse cd data of
        None \<Rightarrow> Inl (ErrTrustLost ''decode Codex lease journal v2'')
      | Some j \<Rightarrow>
          if cd_encode cd j \<noteq> data
          then Inl (ErrTrustLost ''Codex lease v2 JSON has non-canonical member order or encoding'')
          else Inr j)"

type_synonym world = "store \<times> string"

definition codexLeaseJournalMaxBytes :: int where "codexLeaseJournalMaxBytes = 16 * 2 ^ 20"

text \<open>A read of the journal file fails beyond the size limit; other faults are the world's.\<close>

definition readJournal :: "io \<Rightarrow> string \<Rightarrow> string option" where
  "readJournal w disk = (if int (length disk) > codexLeaseJournalMaxBytes then None else io_readback w disk)"

text \<open>The write, the read-back and the installation that end every commit.\<close>

definition installPrepared ::
  "io \<Rightarrow> lease_error + unit \<Rightarrow> journal \<Rightarrow> string \<Rightarrow> world \<Rightarrow> (lease_error + unit) \<times> world" where
  "installPrepared w beforeReplace installedEnvelope data sd =
     (case sd of (s, disk) \<Rightarrow>
        (case atomicWrite w beforeReplace data disk of
           (Some e, disk') \<Rightarrow>
             (Inl (writeCause e),
              if poisons e then s\<lparr>st_poisoned := Some (writeCause e)\<rparr> else s, disk')
         | (None, disk') \<Rightarrow>
             (case readJournal w disk' of
                Some installed \<Rightarrow>
                  if installed = data
                  then (Inr (), s\<lparr>st_journal := Some installedEnvelope,
                      st_generation := jn_generation installedEnvelope, st_bytes := installed\<rparr>, disk')
                  else (Inl (ErrStorePoisoned ''installed bytes differ from committed bytes''),
                    s\<lparr>st_poisoned := Some (ErrStoreIO ''verify committed Codex lease journal'')\<rparr>, disk')
              | None \<Rightarrow> (Inl (ErrStorePoisoned ''verify committed Codex lease journal''),
                  s\<lparr>st_poisoned := Some (ErrStoreIO ''verify committed Codex lease journal'')\<rparr>, disk'))))"

definition commitV2LockedWithPrecondition ::
  "crypto \<Rightarrow> codec \<Rightarrow> io \<Rightarrow> u64 \<Rightarrow> journal \<Rightarrow> (store \<Rightarrow> string \<Rightarrow> lease_error + unit) \<Rightarrow> world \<Rightarrow>
   (lease_error + unit) \<times> world" where
  "commitV2LockedWithPrecondition cr cd w expectedGeneration envelope beforeWrite sd =
     (case sd of (s, disk) \<Rightarrow>
        (case st_journal s of
           None \<Rightarrow> (Inl ErrWriterUnavailable, sd)
         | Some j \<Rightarrow>
             if st_closed s then (Inl ErrWriterUnavailable, sd)
             else case st_poisoned s of
               Some e \<Rightarrow> (Inl (ErrStorePoisoned ''poisoned''), sd)
             | None \<Rightarrow>
                 if expectedGeneration \<noteq> jn_generation j \<or> expectedGeneration = MaxUint64
                 then (Inl (ErrStaleMutation ''journal generation''), sd)
                 else (case prepareV2Envelope cr cd (envelope\<lparr>jn_version := codexLeaseJournalVersionV3,
                         jn_hash_version := codexLeaseHashVersion,
                         jn_generation := expectedGeneration + 1\<rparr>) of
                     Inl e \<Rightarrow> (Inl e, sd)
                   | Inr (installedEnvelope, data) \<Rightarrow>
                       installPrepared w (beforeWrite s disk) installedEnvelope data sd)))"

definition commitV2Locked ::
  "crypto \<Rightarrow> codec \<Rightarrow> io \<Rightarrow> u64 \<Rightarrow> journal \<Rightarrow> world \<Rightarrow> (lease_error + unit) \<times> world" where
  "commitV2Locked cr cd w expectedGeneration envelope sd =
     commitV2LockedWithPrecondition cr cd w expectedGeneration envelope (revalidateV2InstalledLocked w) sd"

section \<open>Committing a lane\<close>

definition codexLeaseRetentionSweepInterval :: int where
  "codexLeaseRetentionSweepInterval = 3600 * 10 ^ 9"

text \<open>The retention sweep a commit takes along once an hour, with its time.\<close>

definition sweepWithCommit ::
  "crypto \<Rightarrow> io \<Rightarrow> store \<Rightarrow> journal \<Rightarrow> lease_error + journal \<times> gotime option" where
  "sweepWithCommit cr w s next =
     (let now = utc (io_sweep_now w)
      in if st_retention s > 0 \<and> st_has_clock s \<and> (isZeroTime (st_last_sweep s) \<or>
           \<not> before now (timeAdd (st_last_sweep s) codexLeaseRetentionSweepInterval))
         then (case compactCodexLeaseV2Envelope cr next now (st_retention s) of
             Inl e \<Rightarrow> Inl (ErrInvalidMutation ''retention sweep'')
           | Inr (swept, _) \<Rightarrow> Inr (swept, Some now))
         else Inr (next, None))"

text \<open>What a lane commit is about to write, and the fence it is going to return.\<close>

definition laneCandidate ::
  "crypto \<Rightarrow> codec \<Rightarrow> io \<Rightarrow> store \<Rightarrow> journal \<Rightarrow> generation_fence \<Rightarrow> lane_mutation \<Rightarrow>
   lease_error + journal \<times> string \<times> generation_fence \<times> gotime option" where
  "laneCandidate cr cd w s j expected mt =
     andThen (applyCodexLaneMutationLocked cr j (io_now w) (st_retention s) expected mt) (\<lambda>(next, post).
     andThen (sweepWithCommit cr w s next) (\<lambda>(swept, sweptAt).
     case validateCodexLeaseRepresentedModes
         (representedCodexLeaseAuthoritativeEpochs (jn_records swept)) (modeEpochs s) of
       Inl e \<Rightarrow> Inl (ErrInvalidMutation ''strict candidate validation'')
     | Inr _ \<Rightarrow>
         (case prepareV2Envelope cr cd swept of
            Inl e \<Rightarrow> Inl (ErrInvalidMutation ''strict candidate validation'')
          | Inr (installedEnvelope, data) \<Rightarrow> Inr (installedEnvelope, data, post, sweptAt))))"

definition commitLane ::
  "crypto \<Rightarrow> codec \<Rightarrow> io \<Rightarrow> generation_fence \<Rightarrow> lane_mutation \<Rightarrow> world \<Rightarrow>
   (lease_error + generation_fence) \<times> world" where
  "commitLane cr cd w expected mt sd =
     (case sd of (s, disk) \<Rightarrow>
        (case beginOperation w s of
           Inl e \<Rightarrow> (Inl e, sd)
         | Inr _ \<Rightarrow>
        (case st_poisoned s of
           Some e \<Rightarrow> (Inl (ErrStorePoisoned ''poisoned''), sd)
         | None \<Rightarrow>
        (case st_journal s of
           None \<Rightarrow> (Inl (ErrTrustLost ''schema-v2 journal unavailable''), sd)
         | Some j \<Rightarrow>
             if \<not> cutoverComplete j then (Inl ErrLegacyQuarantine, sd)
             else (case laneCandidate cr cd w s j expected mt of
                 Inl e \<Rightarrow> (Inl e, sd)
               | Inr (installedEnvelope, data, post, sweptAt) \<Rightarrow>
                   (let beforeReplace = andThen (revalidateV2InstalledLocked w s disk) (\<lambda>_.
                          failIf (jn_generation j \<noteq> gf_journal expected) (ErrStaleMutation ''journal_generation''))
                    in case installPrepared w beforeReplace installedEnvelope data sd of
                         (Inl e, sd') \<Rightarrow> (Inl e, sd')
                       | (Inr _, (s', disk')) \<Rightarrow>
                           (Inr post, (case sweptAt of None \<Rightarrow> s' | Some t \<Rightarrow> s'\<lparr>st_last_sweep := t\<rparr>, disk'))))))))"

section \<open>Compaction, invalidation and redistribution\<close>

text \<open>The guards the journal-wide operations share: the store is open, sound and cut over.\<close>

definition openJournal :: "io \<Rightarrow> store \<Rightarrow> lease_error + journal" where
  "openJournal w s =
     andThen (beginOperation w s) (\<lambda>_.
     case st_journal s of
       None \<Rightarrow> Inl ErrWriterUnavailable
     | Some j \<Rightarrow>
         (case st_poisoned s of Some e \<Rightarrow> Inl (ErrStorePoisoned ''poisoned'')
          | None \<Rightarrow> Inr j))"

definition validateCodexLeaseV2CandidateLocked ::
  "crypto \<Rightarrow> codec \<Rightarrow> store \<Rightarrow> journal \<Rightarrow> journal \<Rightarrow> lease_error + unit" where
  "validateCodexLeaseV2CandidateLocked cr cd s j candidate =
     andThen (validateCodexLeaseRepresentedModes
       (representedCodexLeaseAuthoritativeEpochs (jn_records candidate)) (modeEpochs s)) (\<lambda>_.
     andThen (prepareV2Envelope cr cd (candidate\<lparr>jn_generation := jn_generation j + 1\<rparr>)) (\<lambda>_. Inr ()))"

definition compactV2 :: "crypto \<Rightarrow> codec \<Rightarrow> io \<Rightarrow> world \<Rightarrow> (lease_error + unit) \<times> world" where
  "compactV2 cr cd w sd =
     (case sd of (s, disk) \<Rightarrow>
        (case openJournal w s of
           Inl e \<Rightarrow> (Inl e, sd)
         | Inr j \<Rightarrow>
             if st_retention s \<le> 0 \<or> \<not> st_has_clock s then (Inl ErrWriterUnavailable, sd)
             else (case revalidateV2InstalledLocked w s disk of
                 Inl e \<Rightarrow> (Inl e, (s\<lparr>st_poisoned := Some e\<rparr>, disk))
               | Inr _ \<Rightarrow>
                   if \<not> cutoverComplete j then (Inl ErrLegacyQuarantine, sd)
                   else let now = utc (io_now w) in
                     (case compactCodexLeaseV2Locked cr j now (st_retention s) of
                         Inl e \<Rightarrow> (Inl e, sd)
                       | Inr (next, changed) \<Rightarrow>
                           if \<not> changed then (Inr (), (s\<lparr>st_last_sweep := now\<rparr>, disk))
                           else (case validateCodexLeaseV2CandidateLocked cr cd s j next of
                               Inl e \<Rightarrow> (Inl e, sd)
                             | Inr _ \<Rightarrow>
                                 (case commitV2Locked cr cd w (jn_generation j) next sd of
                                    (Inl e, sd') \<Rightarrow> (Inl e, sd')
                                  | (Inr _, (s', disk')) \<Rightarrow> (Inr (), (s'\<lparr>st_last_sweep := now\<rparr>, disk'))))))))"

definition codexLeaseLaneAffinityRequiresAccount :: "crypto \<Rightarrow> journal \<Rightarrow> journal_lane \<Rightarrow> bool" where
  "codexLeaseLaneAffinityRequiresAccount cr j l \<longleftrightarrow>
     \<not> codexLaneAffinityIsZero l \<and>
     (case lookupRecord cr (jn_records j) (RecordIdentity (laneDigestOf cr l) (ln_admitted_turn l)
         (ln_admitted_epoch l) (ln_admitted_auth l)) of
        Some r \<Rightarrow> codexLeaseRecordRequiresAccount r
      | None \<Rightarrow> True)"

definition invalidatedLane :: "crypto \<Rightarrow> journal \<Rightarrow> journal_lane \<Rightarrow> bool" where
  "invalidatedLane cr j l \<longleftrightarrow> \<not> codexLaneAffinityIsZero l \<and>
     codexLaneAffinityJournalGeneration l > jn_invalidation j \<and>
     \<not> codexLeaseLaneAffinityRequiresAccount cr j l"

text \<open>The generation after a successful commit, where the store's journal is the new one.\<close>

definition journalGeneration :: "store \<Rightarrow> u64" where
  "journalGeneration s = (case st_journal s of None \<Rightarrow> 0 | Some j \<Rightarrow> jn_generation j)"

definition invalidateTaskAffinities ::
  "crypto \<Rightarrow> codec \<Rightarrow> io \<Rightarrow> world \<Rightarrow> (lease_error + nat \<times> u64) \<times> world" where
  "invalidateTaskAffinities cr cd w sd =
     (case sd of (s, disk) \<Rightarrow>
        (case openJournal w s of
           Inl e \<Rightarrow> (Inl e, sd)
         | Inr j \<Rightarrow>
             if \<not> cutoverComplete j then (Inl ErrLegacyQuarantine, sd)
             else if jn_generation j = MaxUint64
             then (Inl (ErrInvalidMutation ''journal generation overflow''), sd)
             else (let invalidated = length (filter (invalidatedLane cr j) (jn_lanes j))
                   in case commitV2Locked cr cd w (jn_generation j)
                          (j\<lparr>jn_invalidation := jn_generation j + 1\<rparr>) sd of
                        (Inl e, sd') \<Rightarrow> (Inl e, sd')
                      | (Inr _, (s', disk')) \<Rightarrow> (Inr (invalidated, journalGeneration s'), (s', disk')))))"

definition maxResetEvents :: nat where "maxResetEvents = 128"

text \<open>
  A confirmed reset is remembered once per account: a repeated event is \<open>None\<close>, a newer one
  of the account replaces the old, and the oldest account gives way when the list is full.
\<close>

definition noteResetEvent :: "u64 \<Rightarrow> string \<Rightarrow> string \<Rightarrow> reset_event list \<Rightarrow> reset_event list option" where
  "noteResetEvent generation accountHash eventHash events =
     (let fresh = \<lparr>ev_account = accountHash, ev_event = eventHash, ev_generation = generation + 1\<rparr>
      in case findIndex (\<lambda>e. ev_account e = accountHash) events of
           Some i \<Rightarrow> if ev_event (events ! i) = eventHash then None else Some (events[i := fresh])
         | None \<Rightarrow>
             Some ((if length events = maxResetEvents
                then drop 1 (sortBy (\<lambda>a b. ev_generation a < ev_generation b) events) else events) @ [fresh]))"

definition redistributionInUse :: "journal \<Rightarrow> journal_lane \<Rightarrow> u64 \<Rightarrow> bool" where
  "redistributionInUse j l pending \<longleftrightarrow> (\<exists>r \<in> set (jn_records j).
     codexLeaseRecordInLane r l \<and> codexLeaseLaneCurrentMatchesRecord l r \<and>
     cq_redistribution (jr_request r) = pending \<and> \<not> codexLeaseRuntimeCanBeginRequest r)"

definition schedulable :: "journal_lane \<Rightarrow> bool" where
  "schedulable l \<longleftrightarrow> \<not> (codexLaneAffinityIsZero l \<and> ln_current_turn l = [] \<and> ln_last_turn l = [])"

definition needsSchedule :: "journal \<Rightarrow> journal_lane \<Rightarrow> bool" where
  "needsSchedule j l \<longleftrightarrow> schedulable l \<and>
     (let pending = codexLaneRedistributionPending l
      in pending = 0 \<or> redistributionInUse j l pending)"

definition scheduleLane :: "journal \<Rightarrow> journal_lane \<Rightarrow> journal_lane" where
  "scheduleLane j l =
     (if needsSchedule j l then l\<lparr>ln_redistribution_requested := jn_generation j + 1\<rparr> else l)"

record redistribution_result =
  rr_scheduled :: nat
  rr_deferred :: nat
  rr_generation :: u64

text \<open>\<open>account\<close> and \<open>eventID\<close> are empty for the manual control.\<close>

definition redistributeTaskAffinities ::
  "crypto \<Rightarrow> codec \<Rightarrow> io \<Rightarrow> string \<Rightarrow> string \<Rightarrow> world \<Rightarrow> (lease_error + redistribution_result) \<times> world" where
  "redistributeTaskAffinities cr cd w account eventID sd =
     (case sd of (s, disk) \<Rightarrow>
        (case openJournal w s of
           Inl e \<Rightarrow> (Inl e, sd)
         | Inr j \<Rightarrow>
             if \<not> cutoverComplete j then (Inl ErrLegacyQuarantine, sd)
             else if jn_generation j = MaxUint64
             then (Inl (ErrInvalidMutation ''journal generation overflow''), sd)
             else (case (if account = [] then Some (jn_events j)
                   else noteResetEvent (jn_generation j) (storeHash cr ''account'' account)
                     (storeHash cr ''reset-redistribution'' eventID) (jn_events j)) of
                 None \<Rightarrow> (Inr \<lparr>rr_scheduled = 0, rr_deferred = 0, rr_generation = jn_generation j\<rparr>, sd)
               | Some events \<Rightarrow>
                   (let scheduled = filter schedulable (jn_lanes j);
                        result = \<lparr>rr_scheduled = length scheduled,
                          rr_deferred = length (filter (codexLeaseLaneAffinityRequiresAccount cr j) scheduled),
                          rr_generation = jn_generation j\<rparr>;
                        next = j\<lparr>jn_events := events, jn_lanes := map (scheduleLane j) (jn_lanes j)\<rparr>
                    in if account = [] \<and> \<not> (\<exists>l \<in> set (jn_lanes j). needsSchedule j l) then (Inr result, sd)
                       else case commitV2Locked cr cd w (jn_generation j) next sd of
                          (Inl e, sd') \<Rightarrow> (Inl e, sd')
                        | (Inr _, (s', disk')) \<Rightarrow>
                            (Inr (result\<lparr>rr_generation := journalGeneration s'\<rparr>), (s', disk'))))))"

section \<open>The legacy cutover\<close>

definition validateCodexLeaseAuthorityStoreLocked ::
  "io \<Rightarrow> world \<Rightarrow> (lease_error + journal) \<times> world" where
  "validateCodexLeaseAuthorityStoreLocked w sd =
     (case sd of (s, disk) \<Rightarrow>
        (case openJournal w s of
           Inl e \<Rightarrow> (Inl e, sd)
         | Inr j \<Rightarrow>
             (case revalidateV2InstalledLocked w s disk of
                Inl e \<Rightarrow> (Inl e, (s\<lparr>st_poisoned := Some e\<rparr>, disk))
              | Inr _ \<Rightarrow> (Inr j, sd))))"

definition poison :: "lease_error \<Rightarrow> world \<Rightarrow> (lease_error + 'a) \<times> world" where
  "poison e sd = (Inl e, ((fst sd)\<lparr>st_poisoned := Some e\<rparr>, snd sd))"

definition validateCodexLeaseCompletionModes :: "lease_cutover \<Rightarrow> u64 list option \<Rightarrow> lease_error + unit" where
  "validateCodexLeaseCompletionModes cutover modes =
     (case modes of
        None \<Rightarrow> Inl ErrLegacyQuarantine
      | Some recognised \<Rightarrow>
          andThen (failIf (\<not> validSortedCodexEpochs recognised) ErrLegacyQuarantine) (\<lambda>_.
          forE (\<lambda>epoch. failIf (\<not> containsCodexLeaseEpoch recognised epoch) ErrLegacyQuarantine)
            (cu_authoritative_epochs cutover)))"

definition validateCodexLeaseCompletionTuple :: "journal \<Rightarrow> lease_error + unit" where
  "validateCodexLeaseCompletionTuple j =
     (let c = jn_cutover j
      in andThen (failIf (\<not> cutoverComplete j \<or> isZeroTime (cu_completed_at c) \<or>
           cu_completion_generation c = 0 \<or> cu_completion_generation c > jn_generation j)
           (ErrTrustLost ''incomplete lease cutover tuple'')) (\<lambda>_.
         failIf (cu_source_version c = 1 \<and> (before (cu_completed_at c) (cu_quarantine_until c) \<or>
           cu_journal_generation c = MaxUint64 \<or>
           cu_completion_generation c \<noteq> cu_journal_generation c + 1))
           (ErrTrustLost ''invalid legacy completion fence'')))"

definition completedCutover :: "journal \<Rightarrow> gotime \<Rightarrow> journal" where
  "completedCutover j now = j\<lparr>jn_cutover := (jn_cutover j)\<lparr>cu_state := CodexLeaseCutoverComplete,
     cu_completed_at := now, cu_completion_generation := jn_generation j + 1,
     cu_no_legacy_authority := True\<rparr>\<rparr>"

text \<open>Copying a snapshot by appending to \<open>nil\<close> loses the difference between empty and absent.\<close>

definition cloneCodexModeAuthoritySnapshot :: "u64 list option \<Rightarrow> u64 list option" where
  "cloneCodexModeAuthoritySnapshot modes = (case modes of Some [] \<Rightarrow> None | _ \<Rightarrow> modes)"

definition CompleteLegacyCutover ::
  "crypto \<Rightarrow> codec \<Rightarrow> io \<Rightarrow> u64 \<Rightarrow> u64 list option \<Rightarrow> world \<Rightarrow> (lease_error + u64) \<times> world" where
  "CompleteLegacyCutover cr cd w expected modes sd =
     (case cloneCodexModeAuthoritySnapshot modes of
        None \<Rightarrow> (Inl ErrLegacyQuarantine, sd)
      | Some recognised \<Rightarrow>
          if \<not> validSortedCodexEpochs recognised then (Inl ErrLegacyQuarantine, sd)
          else (case validateCodexLeaseAuthorityStoreLocked w sd of
              (Inl e, sd') \<Rightarrow> (Inl e, sd')
            | (Inr j, _) \<Rightarrow>
                (let c = jn_cutover j; s = fst sd
                 in if expected \<noteq> jn_generation j \<or> expected = MaxUint64
                    then (Inl (ErrStaleMutation ''journal generation''), sd)
                    else if cu_source_version c \<noteq> 1
                    then (if cutoverComplete j then (Inr (jn_generation j), sd)
                      else (Inl (ErrTrustLost ''legacy completion requires source version 1''), sd))
                    else (case io_archive w of
                        Some e \<Rightarrow> poison (ErrTrustLost ''invalid legacy archive'') sd
                      | None \<Rightarrow>
                    (case andThen (validateCodexLeaseCompletionModes c (Some recognised)) (\<lambda>_.
                        validateCodexLeaseRepresentedModes
                          (representedCodexLeaseAuthoritativeEpochs (jn_records j)) recognised) of
                       Inl e \<Rightarrow> (Inl e, sd)
                     | Inr _ \<Rightarrow>
                         if cu_state c = CodexLeaseCutoverComplete
                         then (case validateCodexLeaseCompletionTuple j of
                             Inl e \<Rightarrow> poison e sd
                           | Inr _ \<Rightarrow> (Inr (jn_generation j), (s\<lparr>st_modes := Some recognised\<rparr>, snd sd)))
                         else if cu_state c \<noteq> CodexLeaseCutoverLegacyQuarantine \<or> cu_no_legacy_authority c
                         then poison (ErrTrustLost ''invalid legacy cutover state'') sd
                         else if before (utc (io_now w)) (cu_quarantine_until c) \<or>
                           jn_lanes j \<noteq> [] \<or> jn_records j \<noteq> []
                         then (Inl ErrLegacyQuarantine, sd)
                         else (case commitV2Locked cr cd w expected (completedCutover j (utc (io_now w))) sd of
                             (Inl e, sd') \<Rightarrow> (Inl e, sd')
                           | (Inr _, (s', disk')) \<Rightarrow>
                               (Inr (journalGeneration s'), (s'\<lparr>st_modes := Some recognised\<rparr>, disk'))))))))"

record authority_evidence =
  ev_schema_version :: int
  ev_hash_version :: int
  ev_compatibility :: int
  ev_source :: int
  ev_journal_generation :: u64
  ev_authoritative :: "u64 list"
  ev_shadow :: "u64 list"
  ev_represented :: "u64 list"
  ev_cutover_state :: string
  ev_cutover_at :: gotime
  ev_completed_at :: gotime
  ev_completion_generation :: u64
  ev_no_legacy :: bool
  ev_horizon :: gotime
  ev_archive_digest :: string

definition evidenceOf :: "journal \<Rightarrow> authority_evidence" where
  "evidenceOf j = (let c = jn_cutover j in
     \<lparr>ev_schema_version = jn_version j, ev_hash_version = jn_hash_version j,
      ev_compatibility = cu_compatibility_epoch c, ev_source = cu_source_version c,
      ev_journal_generation = jn_generation j, ev_authoritative = cu_authoritative_epochs c,
      ev_shadow = cu_shadow_epochs c,
      ev_represented = representedCodexLeaseAuthoritativeEpochs (jn_records j),
      ev_cutover_state = cu_state c, ev_cutover_at = cu_at c, ev_completed_at = cu_completed_at c,
      ev_completion_generation = cu_completion_generation c, ev_no_legacy = cu_no_legacy_authority c,
      ev_horizon = cu_quarantine_until c, ev_archive_digest = cu_legacy_sha256 c\<rparr>)"

definition AuthorityEvidence :: "io \<Rightarrow> world \<Rightarrow> (lease_error + authority_evidence) \<times> world" where
  "AuthorityEvidence w sd =
     (case validateCodexLeaseAuthorityStoreLocked w sd of
        (Inl e, sd') \<Rightarrow> (Inl e, sd')
      | (Inr j, _) \<Rightarrow>
          if cu_source_version (jn_cutover j) = 1 \<and> io_archive w \<noteq> None
          then poison (ErrTrustLost ''invalid legacy archive'') sd
          else if cu_state (jn_cutover j) \<noteq> CodexLeaseCutoverComplete then (Inr (evidenceOf j), sd)
          else (case validateCodexLeaseCompletionTuple j of
              Inl e \<Rightarrow> poison e sd
            | Inr _ \<Rightarrow>
                (case validateCodexLeaseRepresentedModes
                    (representedCodexLeaseAuthoritativeEpochs (jn_records j)) (modeEpochs (fst sd)) of
                   Inl e \<Rightarrow> (Inl e, sd)
                 | Inr _ \<Rightarrow>
                     (case validateCodexLeaseCompletionModes (jn_cutover j) (st_modes (fst sd)) of
                        Inl e \<Rightarrow> (Inl ErrAuthorityMismatch, sd)
                      | Inr _ \<Rightarrow> (Inr (evidenceOf j), sd)))))"

section \<open>Opening and closing\<close>

definition loadV2Locked :: "crypto \<Rightarrow> codec \<Rightarrow> io \<Rightarrow> string \<Rightarrow> lease_error + journal" where
  "loadV2Locked cr cd w data =
     andThen (decodeCodexLeaseV2StrictJSON cd data) (\<lambda>j.
     andThen (validateCodexLeaseEnvelope cr (cd_encode cd) j codexLeaseJournalVersionV3
       compatCurrentEpoch CurrentCodexLeaseSchema True True) (\<lambda>_.
     andThen (failIf (cu_source_version (jn_cutover j) = 1 \<and> io_archive w \<noteq> None)
       (ErrTrustLost ''validate legacy Codex lease archive'')) (\<lambda>_. Inr j)))"

definition loadedStore :: "u64 list option \<Rightarrow> int \<Rightarrow> journal \<Rightarrow> string \<Rightarrow> store" where
  "loadedStore modes retention j data = \<lparr>st_journal = Some j, st_generation = jn_generation j,
     st_bytes = data, st_modes = modes, st_retention = retention, st_has_clock = True,
     st_last_sweep = zeroTime, st_poisoned = None, st_closed = False\<rparr>"

definition normaliseRestoredV2Locked ::
  "crypto \<Rightarrow> codec \<Rightarrow> io \<Rightarrow> journal \<Rightarrow> world \<Rightarrow> (lease_error + unit) \<times> world" where
  "normaliseRestoredV2Locked cr cd w j sd =
     (case normaliseRestored (io_now w) j of
        None \<Rightarrow> (Inr (), sd)
      | Some next \<Rightarrow> commitV2Locked cr cd w (jn_generation j) next sd)"

text \<open>Opening a store on a journal of the current version.\<close>

definition openRefusal :: "io \<Rightarrow> u64 list option \<Rightarrow> int \<Rightarrow> lease_error option" where
  "openRefusal w modes retention =
     (if retention \<le> 0 then Some (ErrStoreIO ''Codex lease policy requires positive retention and a clock'')
      else if (case modes of None \<Rightarrow> True | Some epochs \<Rightarrow> \<not> validSortedCodexEpochs epochs)
      then Some (ErrTrustLost ''missing or non-canonical mode authority snapshot'')
      else if io_owner w \<noteq> None then Some ErrWriterUnavailable else None)"

definition openStore ::
  "crypto \<Rightarrow> codec \<Rightarrow> io \<Rightarrow> u64 list option \<Rightarrow> int \<Rightarrow> string \<Rightarrow> (lease_error + store) \<times> string" where
  "openStore cr cd w modes retention disk =
     (case openRefusal w modes retention of
        Some e \<Rightarrow> (Inl e, disk)
      | None \<Rightarrow>
     (case readJournal w disk of
        None \<Rightarrow> (Inl (ErrTrustLost ''read Codex lease journal''), disk)
      | Some data \<Rightarrow>
          (case loadV2Locked cr cd w data of
             Inl e \<Rightarrow> (Inl e, disk)
           | Inr j \<Rightarrow>
               (case normaliseRestoredV2Locked cr cd w j (loadedStore modes retention j data, disk) of
                  (Inl e, (s, disk')) \<Rightarrow> (Inl e, disk')
                | (Inr _, (s, disk')) \<Rightarrow> (Inr s, disk')))))"

definition closeStore :: "world \<Rightarrow> world" where
  "closeStore sd = (case sd of (s, disk) \<Rightarrow>
     (if st_closed s then sd
      else (s\<lparr>st_journal := None, st_bytes := [], st_modes := None, st_retention := 0,
        st_has_clock := False, st_last_sweep := zeroTime, st_poisoned := None, st_closed := True\<rparr>, disk)))"

section \<open>Commands\<close>

text \<open>Every operation a client can call, for statements about all of them.\<close>

datatype command =
    CommitLane generation_fence lane_mutation
  | Compact
  | Invalidate
  | Redistribute string string
  | CompleteCutover u64 "u64 list option"
  | Evidence
  | Close

definition errorOf :: "(lease_error + 'a) \<times> world \<Rightarrow> lease_error option \<times> world" where
  "errorOf r = (case r of (Inl e, sd) \<Rightarrow> (Some e, sd) | (Inr _, sd) \<Rightarrow> (None, sd))"

fun runCommand :: "crypto \<Rightarrow> codec \<Rightarrow> io \<Rightarrow> command \<Rightarrow> world \<Rightarrow> lease_error option \<times> world" where
  "runCommand cr cd w (CommitLane expected mt) sd = errorOf (commitLane cr cd w expected mt sd)"
| "runCommand cr cd w Compact sd = errorOf (compactV2 cr cd w sd)"
| "runCommand cr cd w Invalidate sd = errorOf (invalidateTaskAffinities cr cd w sd)"
| "runCommand cr cd w (Redistribute account event) sd =
     errorOf (redistributeTaskAffinities cr cd w account event sd)"
| "runCommand cr cd w (CompleteCutover expected modes) sd =
     errorOf (CompleteLegacyCutover cr cd w expected modes sd)"
| "runCommand cr cd w Evidence sd = errorOf (AuthorityEvidence w sd)"
| "runCommand cr cd w Close sd = (None, closeStore sd)"

section \<open>What a commit can leave behind\<close>


definition validJournal :: "crypto \<Rightarrow> codec \<Rightarrow> journal \<Rightarrow> bool" where
  "validJournal cr cd j \<longleftrightarrow> validateCodexLeaseEnvelope cr (cd_encode cd) j codexLeaseJournalVersionV3
     compatCurrentEpoch CurrentCodexLeaseSchema True True = Inr ()"


lemma semantic_mac [simp]:
  "validateV2SemanticStateForSchema cr (j\<lparr>jn_mac := m\<rparr>) schema = validateV2SemanticStateForSchema cr j schema"
proof -
  have "validateEvent (j\<lparr>jn_mac := m\<rparr>) = validateEvent j"
    by (simp add: fun_eq_iff validateEvent_def Let_def cong: if_cong)
  moreover have "validateLane cr (j\<lparr>jn_mac := m\<rparr>) = validateLane cr j"
    by (simp add: fun_eq_iff validateLane_def Let_def cong: if_cong)
  moreover have "validateV2Record cr (j\<lparr>jn_mac := m\<rparr>) = validateV2Record cr j"
    by (simp add: fun_eq_iff validateV2Record_def Let_def cong: if_cong)
  moreover have "recordEvidence (j\<lparr>jn_mac := m\<rparr>) = recordEvidence j"
    by (simp add: fun_eq_iff recordEvidence_def Let_def cong: if_cong)
  moreover have "laneEvidence cr (j\<lparr>jn_mac := m\<rparr>) = laneEvidence cr j"
    by (simp add: fun_eq_iff laneEvidence_def Let_def cong: if_cong)
  moreover from calculation have "validateListedRecord cr (j\<lparr>jn_mac := m\<rparr>) = validateListedRecord cr j"
    by (simp add: fun_eq_iff validateListedRecord_def cong: option.case_cong)
  ultimately show ?thesis
    by (simp add: validateV2SemanticStateForSchema_def validateCodexLeaseAdmissionEvidence_def)
qed

lemma legacyCutover_mac [simp]: "legacyCutover (j\<lparr>jn_mac := m\<rparr>) = legacyCutover j"
  by (simp add: legacyCutover_def Let_def cong: if_cong)

lemma canonicalise_keeps [simp]:
  "jn_generation (canonicaliseCodexLeaseV2 j) = jn_generation j"
  "jn_version (canonicaliseCodexLeaseV2 j) = jn_version j"
  "jn_invalidation (canonicaliseCodexLeaseV2 j) = jn_invalidation j"
  by (simp_all add: canonicaliseCodexLeaseV2_def)




text \<open>
  The outcome of an operation on an open store: nothing that counts changed, the store moved
  to a valid journal of the next generation on disk and in memory, or it is poisoned and the
  disk holds the old bytes or the new ones.
\<close>

definition keepsJournal :: "store \<Rightarrow> store \<Rightarrow> bool" where
  "keepsJournal s s' \<longleftrightarrow> st_journal s' = st_journal s \<and> st_generation s' = st_generation s \<and>
     st_bytes s' = st_bytes s \<and> st_closed s' = st_closed s"

definition movesTo :: "crypto \<Rightarrow> codec \<Rightarrow> store \<Rightarrow> journal \<Rightarrow> bool" where
  "movesTo cr cd s j' \<longleftrightarrow> (\<exists>j. st_journal s = Some j \<and> jn_generation j \<noteq> MaxUint64 \<and>
     jn_generation j' = jn_generation j + 1) \<and> validJournal cr cd j'"

definition outcome :: "crypto \<Rightarrow> codec \<Rightarrow> world \<Rightarrow> lease_error option \<Rightarrow> world \<Rightarrow> bool" where
  "outcome cr cd sd failed sd' \<longleftrightarrow> (case (sd, sd') of ((s, disk), (s', disk')) \<Rightarrow>
     (keepsJournal s s' \<and> disk' = disk \<and>
       (st_poisoned s' = st_poisoned s \<or> (failed \<noteq> None \<and> st_poisoned s' \<noteq> None))) \<or>
     (\<exists>j'. movesTo cr cd s j' \<and> failed = None \<and> st_journal s' = Some j' \<and>
       st_generation s' = jn_generation j' \<and> st_bytes s' = cd_encode cd j' \<and> disk' = cd_encode cd j' \<and>
       int (length disk') \<le> codexLeaseJournalMaxBytes \<and>
       st_poisoned s = None \<and> st_poisoned s' = None \<and> \<not> st_closed s \<and> \<not> st_closed s') \<or>
     (\<exists>j'. movesTo cr cd s j' \<and> failed \<noteq> None \<and> keepsJournal s s' \<and> st_poisoned s = None \<and>
       st_poisoned s' \<noteq> None \<and> disk' = cd_encode cd j'))"

definition failure :: "(lease_error + 'a) \<Rightarrow> lease_error option" where
  "failure r = (case r of Inl e \<Rightarrow> Some e | Inr _ \<Rightarrow> None)"

lemma failure_simps [simp]: "failure (Inl e) = Some e" "failure (Inr x) = None"
  by (simp_all add: failure_def)


lemma outcome_refl [simp, intro]: "outcome cr cd sd failed sd"
  by (cases sd) (simp add: outcome_def keepsJournal_def)



lemma openJournal_ok:
  "openJournal w s = Inr j \<Longrightarrow> st_journal s = Some j \<and> st_poisoned s = None \<and> \<not> st_closed s"
  by (auto simp: openJournal_def go_simps beginOperation_def split: option.splits if_splits)


















section \<open>Reachable stores\<close>










lemma closeStore_closed: "st_closed (fst (closeStore sd))" "snd (closeStore sd) = snd sd"
  by (auto simp: closeStore_def split: prod.splits)




section \<open>The file of another writer\<close>

lemma foreign_revalidate:
  "disk \<noteq> st_bytes s \<Longrightarrow> \<exists>e. revalidateV2InstalledLocked w s disk = Inl e"
  by (auto simp: revalidateV2InstalledLocked_def failIf_def split: option.splits)

lemma foreign_install:
  "installPrepared w (Inl e) j data (s, disk) = (r, sd') \<Longrightarrow> (\<exists>e. r = Inl e) \<and> snd sd' = disk"
  by (auto simp: installPrepared_def atomicWrite_def Let_def
    split: option.splits prod.splits if_splits write_attempt.splits rename_outcome.splits)

lemma foreign_commit:
  assumes "commitV2Locked cr cd w g c (s, disk) = (r, sd')" and "disk \<noteq> st_bytes s"
  shows "(\<exists>e. r = Inl e) \<and> snd sd' = disk"
proof -
  obtain e where "revalidateV2InstalledLocked w s disk = Inl e" using foreign_revalidate [OF assms(2)] by blast
  then show ?thesis
    using assms(1)
    by (auto simp: commitV2Locked_def commitV2LockedWithPrecondition_def dest: foreign_install
      split: option.splits if_splits sum.splits prod.splits)
qed

text \<open>
  C31. A journal file that is no longer the one the store installed is never overwritten, by no
  operation and whatever the file system answers; everything but a redistribution that has
  nothing to write, and closing, then fails.
\<close>

theorem foreign_journal_kept:
  assumes "runCommand cr cd w c (s, disk) = (failed, (s', disk'))" and "disk \<noteq> st_bytes s"
  shows "disk' = disk \<and>
    (failed = None \<longrightarrow> c = Close \<or> (\<exists>account event. c = Redistribute account event \<and> s' = s))"
proof -
  obtain e where e: "revalidateV2InstalledLocked w s disk = Inl e" using foreign_revalidate [OF assms(2)] by blast
  show ?thesis
  proof (cases c)
    case (CommitLane expected m)
    then show ?thesis using assms(1) e
      by (auto simp: commitLane_def errorOf_def Let_def dest!: foreign_install
        split: option.splits if_splits sum.splits prod.splits)
  next
    case Close
    then show ?thesis using assms(1) closeStore_closed(2) [of "(s, disk)"] by simp
  qed (use assms(1) e in \<open>auto dest!: foreign_commit [OF _ assms(2)] simp: errorOf_def compactV2_def invalidateTaskAffinities_def redistributeTaskAffinities_def
        CompleteLegacyCutover_def AuthorityEvidence_def validateCodexLeaseAuthorityStoreLocked_def Let_def
        poison_def split: option.split_asm if_splits sum.split_asm prod.split_asm\<close>)
qed


section \<open>Journals beyond the size limit\<close>

text \<open>
  C32. The size limit of the journal file is checked when reading only: a commit whose encoding
  exceeds it replaces the good journal, then fails, poisons the store, and from then on every
  open of the file fails.
\<close>

theorem oversized_commit_bricks:
  assumes "st_journal s = Some j" and "st_poisoned s = None" and "\<not> st_closed s"
    and "jn_generation j \<noteq> MaxUint64" and "io_revalidate w = None" and "disk = st_bytes s"
    and "io_write w = WriteReaches RenameDone"
    and "prepareV2Envelope cr cd (nxt\<lparr>jn_version := codexLeaseJournalVersionV3,
      jn_hash_version := codexLeaseHashVersion, jn_generation := jn_generation j + 1\<rparr>) = Inr (j', data)"
    and "int (length data) > codexLeaseJournalMaxBytes"
  shows "\<exists>e s'. commitV2Locked cr cd w (jn_generation j) nxt (s, disk) = (Inl e, (s', data)) \<and>
    st_poisoned s' \<noteq> None \<and> st_journal s' = Some j \<and>
    (\<exists>e. openStore cr cd w' modes retention data = (Inl e, data))"
  using assms
  by (simp add: commitV2Locked_def commitV2LockedWithPrecondition_def installPrepared_def atomicWrite_def
    readJournal_def revalidateV2InstalledLocked_def failIf_def openStore_def split: option.splits)

section \<open>Witnesses\<close>

text \<open>A codec that tells apart two journals, and an empty store whose affinities are invalidated.\<close>

definition quietMAC :: string where "quietMAC = v2PayloadMAC plainCrypto []"

definition quietJournal :: journal where
  "quietJournal = liveJournal\<lparr>jn_lanes := [], jn_records := [], jn_mac := quietMAC\<rparr>"

definition quietNext :: journal where
  "quietNext = quietJournal\<lparr>jn_generation := 10, jn_invalidation := 10\<rparr>"

definition taggedCodec :: codec where
  "taggedCodec = \<lparr>cd_encode = (\<lambda>j. (if jn_generation j = 9 then CHR ''a'' else CHR ''b'') #
       insertMAC emptyMACSuffix (jn_mac j)),
     cd_parse = (\<lambda>d. Some (if hd d = CHR ''a'' then quietJournal else quietNext))\<rparr>"

definition calm :: io where
  "calm = \<lparr>io_owner = None, io_now = GoTime 90 True, io_sweep_now = GoTime 90 True, io_revalidate = None,
     io_write = WriteReaches RenameDone, io_cleanup_uncertain = False, io_readback = Some, io_archive = None\<rparr>"

definition quietBytes :: string where "quietBytes = cd_encode taggedCodec quietJournal"

definition quietStore :: store where "quietStore = loadedStore (Some []) 3600 quietJournal quietBytes"






lemma quietStore_open: "\<not> st_closed quietStore" "st_poisoned quietStore = None"
  "st_journal quietStore = Some quietJournal" "st_bytes quietStore = quietBytes"
  by (simp_all add: quietStore_def loadedStore_def)


theorem foreign_journal_kept_witness:
  "snd (snd (runCommand plainCrypto taggedCodec calm Invalidate (quietStore, []))) = [] \<and>
   fst (runCommand plainCrypto taggedCodec calm Invalidate (quietStore, [])) \<noteq> None"
proof -
  obtain failed s' disk' where r:
    "runCommand plainCrypto taggedCodec calm Invalidate (quietStore, []) = (failed, (s', disk'))"
    by (metis prod.exhaust)
  have "[] \<noteq> st_bytes quietStore" by (simp add: quietStore_open quietBytes_def taggedCodec_def)
  from foreign_journal_kept [OF r this] r show ?thesis by (cases failed) simp_all
qed


definition hugeCodec :: codec where
  "hugeCodec = \<lparr>cd_encode = (\<lambda>j. replicate (16 * 2 ^ 20) CHR ''x'' @ insertMAC emptyMACSuffix (jn_mac j)),
     cd_parse = (\<lambda>_. None)\<rparr>"

lemma huge_prepared:
  "\<exists>j' data. prepareV2Envelope plainCrypto hugeCodec (liveJournal\<lparr>jn_version := codexLeaseJournalVersionV3,
      jn_hash_version := codexLeaseHashVersion, jn_generation := jn_generation liveJournal + 1\<rparr>) = Inr (j', data) \<and>
    int (length data) > codexLeaseJournalMaxBytes"
proof -
  have valid: "validateCodexLeaseEnvelope plainCrypto encode ((canonicaliseCodexLeaseV2
      (liveJournal\<lparr>jn_version := codexLeaseJournalVersionV3, jn_hash_version := codexLeaseHashVersion,
       jn_generation := jn_generation liveJournal + 1\<rparr>))\<lparr>jn_mac := []\<rparr>) codexLeaseJournalVersionV3
      compatCurrentEpoch CurrentCodexLeaseSchema True False = Inr ()" for encode
    by code_simp
  have suffix: "hasSuffix (xs @ emptyMACSuffix) emptyMACSuffix" for xs by (simp add: hasSuffix_def)
  have mac: "jn_mac (k\<lparr>jn_mac := []\<rparr>) = []" for k :: journal by simp
  have "insertMAC emptyMACSuffix [] = emptyMACSuffix" by (simp add: insertMAC_def)
  then have "cd_encode hugeCodec (k\<lparr>jn_mac := []\<rparr>) = replicate (16 * 2 ^ 20) CHR ''x'' @ emptyMACSuffix" for k
    by (simp only: hugeCodec_def codec.select_convs mac)
  then show ?thesis
    by (simp only: prepareV2Envelope_def Let_def valid andThen_simps marshalCanonicalV2Envelope_def suffix)
      (simp add: insertMAC_def emptyMACSuffix_def codexLeaseJournalMaxBytes_def)
qed

theorem oversized_commit_bricks_witness:
  "\<exists>e s' data. commitV2Locked plainCrypto hugeCodec calm 9 liveJournal
      (loadedStore (Some []) 3600 liveJournal [], []) = (Inl e, (s', data)) \<and> st_poisoned s' \<noteq> None \<and>
    (\<exists>e. openStore plainCrypto hugeCodec calm (Some []) 3600 data = (Inl e, data))"
proof -
  let ?s = "loadedStore (Some []) 3600 liveJournal []"
  have s: "st_journal ?s = Some liveJournal" "st_poisoned ?s = None" "\<not> st_closed ?s" "[] = st_bytes ?s"
    by (simp_all add: loadedStore_def)
  have g: "jn_generation liveJournal = 9" by (simp add: liveJournal_def)
  have w: "io_revalidate calm = None" "io_write calm = WriteReaches RenameDone" by (simp_all add: calm_def)
  obtain j' data where p: "prepareV2Envelope plainCrypto hugeCodec
      (liveJournal\<lparr>jn_version := codexLeaseJournalVersionV3, jn_hash_version := codexLeaseHashVersion,
        jn_generation := jn_generation liveJournal + 1\<rparr>) = Inr (j', data)"
    "int (length data) > codexLeaseJournalMaxBytes" using huge_prepared by blast
  have "jn_generation liveJournal \<noteq> MaxUint64" by (simp add: g)
  from oversized_commit_bricks [OF s(1-3) this w(1) s(4) w(2) p] show ?thesis unfolding g by blast
qed

end
