(* ===== verification/LaneLoad.thy ===== *)
theory LaneLoad
  imports LeaseStore
begin

text \<open>
  Reading a lane back from the durable store (\<open>internal/proxy/codex_lease_v2_lane.go\<close>): the
  records of one conversation lane with the accounts that can still be resolved, how the
  requested turn stands in it, and the fences a mutation of it has to carry. Copies of values
  (\<open>clone\<close>) are the values.
\<close>

section \<open>Errors of the lease runtime\<close>

text \<open>
  A failure of the journal, of the turn rules, of request continuity with its reason, of a
  socket generation, of the account revalidator, or the end of the caller's context.
\<close>

datatype continuity_reason =
    ContinuityUnexpectedTurnState
  | ContinuityTurnStatePresenceMismatch
  | ContinuityTurnStateMismatch
  | ContinuityPreviousResponseMismatch
  | ContinuityEncryptedAffinityMissing
  | ContinuityAccountAffinityMismatch

datatype runtime_error =
    LeaseFault lease_error
  | TurnFault turn_error
  | ContinuityFault continuity_reason
  | StaleSocketGeneration
  | RevalidationFault string
  | Cancelled string

definition liftLease :: "lease_error + 'a \<Rightarrow> runtime_error + 'a" where
  "liftLease r = map_sum LeaseFault id r"

lemma liftLease_Inr [simp]: "liftLease r = Inr x \<longleftrightarrow> r = Inr x"
  by (cases r) (simp_all add: liftLease_def)

lemma liftLease_simps [simp]: "liftLease (Inr x) = Inr x" "liftLease (Inl e) = Inl (LeaseFault e)"
  by (simp_all add: liftLease_def)

section \<open>Resolving accounts\<close>

text \<open>
  The journal holds account digests only; the resolver pairs the digests of the accounts at
  hand with their keys. Two different accounts of one digest resolve to none.
\<close>

type_synonym account_resolver = "(string \<times> account_key) list"

definition newCodexLeaseAccountResolver :: "crypto \<Rightarrow> account_key list \<Rightarrow> account_resolver" where
  "newCodexLeaseAccountResolver cr accounts =
     map (\<lambda>a. (storeHash cr ''account'' a, a)) (filter (\<lambda>a. a \<noteq> []) accounts)"

fun resolveEntries :: "string \<Rightarrow> account_key option \<Rightarrow> account_resolver \<Rightarrow> account_key option" where
  "resolveEntries h found [] = found"
| "resolveEntries h found ((digest, account) # entries) =
     (if \<not> constantTimeCodexLeaseDigestEqual h digest then resolveEntries h found entries
      else case found of
        None \<Rightarrow> resolveEntries h (Some account) entries
      | Some a \<Rightarrow> if a \<noteq> account then None else resolveEntries h (Some account) entries)"

definition resolveAccountHash :: "account_resolver \<Rightarrow> string \<Rightarrow> account_key option" where
  "resolveAccountHash resolver h = (if h = [] then None else resolveEntries h None resolver)"

definition resolveCodexLeaseAccount :: "crypto \<Rightarrow> string \<Rightarrow> account_key list \<Rightarrow> account_key option" where
  "resolveCodexLeaseAccount cr h accounts = resolveAccountHash (newCodexLeaseAccountResolver cr accounts) h"

section \<open>Authority policies\<close>

record authority_policy =
  ap_epoch :: u64
  ap_auth :: bool
  ap_retained :: "u64 list"

fun retainedEpochs :: "u64 \<Rightarrow> u64 \<Rightarrow> u64 list \<Rightarrow> lease_error + unit" where
  "retainedEpochs modeEpoch previous [] = Inr ()"
| "retainedEpochs modeEpoch previous (epoch # epochs) =
     (if epoch = 0 \<or> epoch \<ge> modeEpoch \<or> epoch \<le> previous then Inl ErrAuthorityMismatch
      else retainedEpochs modeEpoch epoch epochs)"

definition validateCodexLeaseAuthorityPolicy :: "authority_policy \<Rightarrow> lease_error + unit" where
  "validateCodexLeaseAuthorityPolicy p =
     (if ap_epoch p = 0 then Inl ErrAuthorityMismatch else retainedEpochs (ap_epoch p) 0 (ap_retained p))"

definition codexLeaseRecordAllowedByPolicy :: "journal_record \<Rightarrow> authority_policy \<Rightarrow> bool" where
  "codexLeaseRecordAllowedByPolicy r p \<longleftrightarrow>
     (if jr_auth r
      then (ap_auth p \<and> jr_epoch r = ap_epoch p) \<or> containsCodexLeaseEpoch (ap_retained p) (jr_epoch r)
      else \<not> ap_auth p \<and> jr_epoch r = ap_epoch p)"

definition policyRetained :: "u64 list \<Rightarrow> authority_policy \<Rightarrow> lease_error + unit" where
  "policyRetained modes p =
     andThen (failIf (ap_auth p \<and> \<not> containsCodexLeaseEpoch modes (ap_epoch p)) ErrAuthorityMismatch) (\<lambda>_.
     forE (\<lambda>epoch. failIf (\<not> containsCodexLeaseEpoch modes epoch) ErrAuthorityMismatch) (ap_retained p))"

section \<open>The restored lane\<close>

datatype lane_classification =
  RestoredCurrent | RestoredHistorical | RestoredUnseen | RestoredShadowOnly | RestoredRecoveryBlocked

record affinity_hint =
  ah_resolved :: bool
  ah_account :: account_key
  ah_source :: record_identity
  ah_generation :: u64
  ah_admitted_at :: gotime
  ah_cache_admitted_at :: gotime
  ah_cache_model :: string

record restored_record =
  rd_identity :: record_identity
  rd_record :: journal_record
  rd_account :: account_key
  rd_choice :: route_choice
  rd_fence :: record_fence

record restored_lane =
  rl_class :: lane_classification
  rl_requested :: record_identity
  rl_requested_record :: journal_record
  rl_lane :: journal_lane
  rl_records :: "journal_record list"
  rl_resolved :: "restored_record list"
  rl_affinity :: "affinity_hint option"
  rl_invalidation :: u64
  rl_fence :: generation_fence

definition codexLeaseRecordRequiresResolvedAccount :: "journal_record \<Rightarrow> bool" where
  "codexLeaseRecordRequiresResolvedAccount r \<longleftrightarrow>
     codexLeaseCurrentAttemptState r \<noteq> AttemptAccountUnavailable \<and>
     (case jr_state r of
        LeaseProvisional \<Rightarrow> jr_admitted r \<or> jr_non_migratable r \<or>
          codexLeaseCurrentAttemptState r \<noteq> AttemptAbandonedBeforeDispatch
      | LeaseBoundActive \<Rightarrow> True
      | LeaseContinuationPending \<Rightarrow> True
      | LeaseBoundQuiescent \<Rightarrow> True
      | LeaseOrphaned \<Rightarrow> True
      | _ \<Rightarrow> False)"

definition codexLeaseFenceForRestoredRecord :: "crypto \<Rightarrow> journal_record \<Rightarrow> record_fence" where
  "codexLeaseFenceForRestoredRecord cr r =
     \<lparr>rf_record = Identity cr r, rf_revision = jr_generation r, rf_lease = jr_lease_generation r,
      rf_request = cq_generation (jr_request r), rf_current = cq_current (jr_request r),
      rf_attempts = map (\<lambda>a. \<lparr>af_request = cq_generation (jr_request r), af_generation = at_generation a,
        af_revision = at_revision a\<rparr>) (cq_attempts (jr_request r))\<rparr>"

definition codexLeaseFenceContainsRecord :: "record_fence list \<Rightarrow> record_identity \<Rightarrow> bool" where
  "codexLeaseFenceContainsRecord fences i \<longleftrightarrow> (\<exists>f \<in> set fences. rf_record f = i)"

section \<open>Hydrating a lane\<close>

text \<open>The digests of the requested key, by which lanes and records are found.\<close>

record key_hashes =
  kh_session :: string
  kh_thread :: string
  kh_namespace :: string
  kh_turn :: string

definition keyHashes :: "crypto \<Rightarrow> lease_key \<Rightarrow> key_hashes" where
  "keyHashes cr key =
     \<lparr>kh_session = storeHash cr ''session'' (lk_session (key_lane key)),
      kh_thread = storeHash cr ''thread'' (lk_thread (key_lane key)),
      kh_namespace = storeHash cr ''namespace'' (lk_namespace (key_lane key)),
      kh_turn = storeHash cr ''turn'' (key_turn key)\<rparr>"

definition inRequestedLane :: "key_hashes \<Rightarrow> string \<Rightarrow> string \<Rightarrow> string \<Rightarrow> bool" where
  "inRequestedLane k session thread namespace \<longleftrightarrow>
     constantTimeCodexLeaseDigestEqual session (kh_session k) \<and>
     constantTimeCodexLeaseDigestEqual thread (kh_thread k) \<and>
     constantTimeCodexLeaseDigestEqual namespace (kh_namespace k)"

definition requestedIdentity :: "crypto \<Rightarrow> key_hashes \<Rightarrow> authority_policy \<Rightarrow> record_identity" where
  "requestedIdentity cr k p = RecordIdentity
     (codexJournalLaneDigest cr (kh_session k) (kh_thread k) (kh_namespace k)) (kh_turn k) (ap_epoch p) (ap_auth p)"

definition requestedRecord :: "key_hashes \<Rightarrow> authority_policy \<Rightarrow> journal_record" where
  "requestedRecord k p = zeroRecord\<lparr>jr_session := kh_session k, jr_thread := kh_thread k,
     jr_namespace := kh_namespace k, jr_turn := kh_turn k, jr_epoch := ap_epoch p, jr_auth := ap_auth p,
     jr_schema := CurrentCodexLeaseSchema\<rparr>"

definition unseenLane :: "crypto \<Rightarrow> journal \<Rightarrow> key_hashes \<Rightarrow> authority_policy \<Rightarrow> restored_lane" where
  "unseenLane cr j k p =
     \<lparr>rl_class = RestoredUnseen, rl_requested = requestedIdentity cr k p,
      rl_requested_record = requestedRecord k p, rl_lane = zeroLane, rl_records = [], rl_resolved = [],
      rl_affinity = None, rl_invalidation = jn_invalidation j,
      rl_fence = \<lparr>gf_journal = jn_generation j, gf_lane = 0, gf_current = zeroIdentity, gf_last = zeroIdentity,
        gf_records = [zeroFence\<lparr>rf_record := requestedIdentity cr k p\<rparr>]\<rparr>\<rparr>"

definition findRequestedLane :: "key_hashes \<Rightarrow> journal_lane list \<Rightarrow> lease_error + journal_lane option" where
  "findRequestedLane k lanes =
     (case filter (\<lambda>l. inRequestedLane k (ln_session l) (ln_thread l) (ln_namespace l)) lanes of
        [] \<Rightarrow> Inr None
      | [l] \<Rightarrow> Inr (Some l)
      | _ \<Rightarrow> Inl (ErrTrustLost ''duplicate matching lane''))"

definition affinityHint ::
  "account_resolver \<Rightarrow> record_identity \<Rightarrow> journal_lane \<Rightarrow> affinity_hint option" where
  "affinityHint resolver requested l =
     (if codexLaneAffinityIsZero l then None
      else let account = resolveAccountHash resolver (ln_admitted_account l) in
        Some \<lparr>ah_resolved = (account \<noteq> None), ah_account = (case account of None \<Rightarrow> [] | Some a \<Rightarrow> a),
          ah_source = RecordIdentity (ri_lane requested) (ln_admitted_turn l) (ln_admitted_epoch l)
            (ln_admitted_auth l),
          ah_generation = ln_admission_generation l, ah_admitted_at = ln_admitted_at l,
          ah_cache_admitted_at = ln_cache_admitted_at l, ah_cache_model = ln_cache_model l\<rparr>)"

record lane_scan =
  lc_resolved :: "restored_record list"
  lc_current :: bool
  lc_historical :: bool
  lc_shadow :: bool
  lc_unrecognised :: bool

definition restoredRecordOf :: "crypto \<Rightarrow> account_resolver \<Rightarrow> journal_record \<Rightarrow> restored_record" where
  "restoredRecordOf cr resolver r =
     (let account = resolveAccountHash resolver (jr_account r) in
      \<lparr>rd_identity = Identity cr r, rd_record = r, rd_account = (case account of None \<Rightarrow> [] | Some a \<Rightarrow> a),
       rd_choice = (case account of None \<Rightarrow> emptyChoice
         | Some a \<Rightarrow> \<lparr>rc_account = a, rc_requested_model = [],
             rc_effective_model = cq_effective_model (jr_request r), rc_buckets = cq_buckets (jr_request r)\<rparr>),
       rd_fence = codexLeaseFenceForRestoredRecord cr r\<rparr>)"

text \<open>How a record of the requested turn counts.\<close>

definition noteTurn ::
  "crypto \<Rightarrow> authority_policy \<Rightarrow> record_identity \<Rightarrow> journal_record \<Rightarrow> lane_scan \<Rightarrow> lane_scan" where
  "noteTurn cr p current r s =
     (if codexLeaseRecordAllowedByPolicy r p
      then (if Identity cr r = current then s\<lparr>lc_current := True\<rparr> else s\<lparr>lc_historical := True\<rparr>)
      else if ap_auth p \<and> \<not> jr_auth r \<and> jr_epoch r = ap_epoch p then s\<lparr>lc_shadow := True\<rparr>
      else if jr_auth r then s\<lparr>lc_unrecognised := True\<rparr> else s)"

definition hydrateRecord ::
  "crypto \<Rightarrow> account_resolver \<Rightarrow> key_hashes \<Rightarrow> authority_policy \<Rightarrow> bool \<Rightarrow> record_identity \<Rightarrow> lane_scan \<Rightarrow>
   journal_record \<Rightarrow> lease_error + lane_scan" where
  "hydrateRecord cr resolver k p requireResolvedCurrent current s r =
     (if \<not> inRequestedLane k (jr_session r) (jr_thread r) (jr_namespace r) then Inr s
      else let sameTurn = constantTimeCodexLeaseDigestEqual (jr_turn r) (kh_turn k);
               s' = s\<lparr>lc_resolved := lc_resolved s @ [restoredRecordOf cr resolver r]\<rparr>
           in if requireResolvedCurrent \<and> jr_account r \<noteq> [] \<and> resolveAccountHash resolver (jr_account r) = None \<and>
                sameTurn \<and> codexLeaseRecordAllowedByPolicy r p \<and> codexLeaseRecordRequiresResolvedAccount r
              then Inl ErrAuthorityMismatch
              else Inr (if sameTurn then noteTurn cr p current r s' else s'))"

definition addAbsent :: "record_fence list \<Rightarrow> record_identity \<Rightarrow> record_fence list" where
  "addAbsent fences i =
     (if codexLeaseFenceContainsRecord fences i then fences else fences @ [zeroFence\<lparr>rf_record := i\<rparr>])"

definition addPredecessor :: "crypto \<Rightarrow> record_fence list \<Rightarrow> journal_record \<Rightarrow> record_fence list" where
  "addPredecessor cr fences r =
     (if jr_pred_turn r = [] then fences else addAbsent fences (predecessorIdentity cr r))"

definition scanClass :: "lane_scan \<Rightarrow> lease_error + lane_classification" where
  "scanClass s =
     (if lc_current s then Inr RestoredCurrent
      else if lc_historical s then Inr RestoredHistorical
      else if lc_unrecognised s then Inl ErrAuthorityMismatch
      else if lc_shadow s then Inr RestoredShadowOnly
      else Inr RestoredUnseen)"

definition laneFences :: "crypto \<Rightarrow> record_identity \<Rightarrow> restored_record list \<Rightarrow> record_fence list" where
  "laneFences cr requested resolved =
     sortBy (\<lambda>a b. codexRecordIdentityLess (rf_record a) (rf_record b))
       (addAbsent (foldl (addPredecessor cr) (map rd_fence resolved) (map rd_record resolved)) requested)"

definition hydrateLane ::
  "crypto \<Rightarrow> journal \<Rightarrow> lease_key \<Rightarrow> account_key list \<Rightarrow> authority_policy \<Rightarrow> bool \<Rightarrow> lease_error + restored_lane" where
  "hydrateLane cr j key accounts p requireResolvedCurrent =
     (let k = keyHashes cr key; requested = requestedIdentity cr k p;
          resolver = newCodexLeaseAccountResolver cr accounts; start = unseenLane cr j k p
      in andThen (findRequestedLane k (jn_lanes j)) (\<lambda>found.
         case found of None \<Rightarrow> Inr start
         | Some l \<Rightarrow>
             (let current = codexLaneTupleIdentity cr l True in
              andThen (foldE (hydrateRecord cr resolver k p requireResolvedCurrent current)
                \<lparr>lc_resolved = [], lc_current = False, lc_historical = False, lc_shadow = False,
                  lc_unrecognised = False\<rparr> (jn_records j)) (\<lambda>s.
              andThen (scanClass s) (\<lambda>class.
              Inr (start\<lparr>rl_class := class, rl_lane := l, rl_affinity := affinityHint resolver requested l,
                rl_records := map rd_record (lc_resolved s), rl_resolved := lc_resolved s,
                rl_fence := \<lparr>gf_journal = jn_generation j, gf_lane = ln_generation l, gf_current = current,
                  gf_last = codexLaneTupleIdentity cr l False,
                  gf_records = laneFences cr requested (lc_resolved s)\<rparr>\<rparr>))))))"

section \<open>Loading from the store\<close>

definition readLane ::
  "crypto \<Rightarrow> store \<Rightarrow> lease_key \<Rightarrow> account_key list \<Rightarrow> authority_policy \<Rightarrow> bool \<Rightarrow> lease_error + restored_lane" where
  "readLane cr s key accounts p requireResolvedCurrent =
     (case st_journal s of
        None \<Rightarrow> Inl (ErrTrustLost ''schema-v2 journal unavailable'')
      | Some j \<Rightarrow>
          if cu_state (jn_cutover j) = CodexLeaseCutoverLegacyQuarantine \<or> \<not> cu_no_legacy_authority (jn_cutover j)
          then Inl ErrLegacyQuarantine
          else andThen (validateCodexLeaseRepresentedModes
              (representedCodexLeaseAuthoritativeEpochs (jn_records j)) (modeEpochs s)) (\<lambda>_.
            andThen (policyRetained (modeEpochs s) p) (\<lambda>_.
            hydrateLane cr j key accounts p requireResolvedCurrent)))"

definition loadRefusal :: "io \<Rightarrow> lease_key \<Rightarrow> authority_policy \<Rightarrow> store \<Rightarrow> runtime_error + unit" where
  "loadRefusal w key p s =
     (case validateLeaseKey key of
        Inl e \<Rightarrow> Inl (TurnFault (ErrCodexContinuity ''invalid lease key''))
      | Inr _ \<Rightarrow>
          andThen (liftLease (validateCodexLeaseAuthorityPolicy p)) (\<lambda>_.
          andThen (liftLease (beginOperation w s)) (\<lambda>_.
          case st_poisoned s of None \<Rightarrow> Inr () | Some e \<Rightarrow> Inl (LeaseFault (ErrStorePoisoned ''poisoned'')))))"

definition loadLane ::
  "crypto \<Rightarrow> io \<Rightarrow> lease_key \<Rightarrow> account_key list \<Rightarrow> authority_policy \<Rightarrow> bool \<Rightarrow> bool \<Rightarrow> world \<Rightarrow>
   (runtime_error + restored_lane) \<times> world" where
  "loadLane cr w key accounts p requireResolvedCurrent revalidateInstalled sd =
     (case sd of (s, disk) \<Rightarrow>
        (case loadRefusal w key p s of
           Inl e \<Rightarrow> (Inl e, sd)
         | Inr _ \<Rightarrow>
             (case (if revalidateInstalled then revalidateV2InstalledLocked w s disk else Inr ()) of
                Inl e \<Rightarrow> (Inl (LeaseFault e), (s\<lparr>st_poisoned := Some e\<rparr>, disk))
              | Inr _ \<Rightarrow> (liftLease (readLane cr s key accounts p requireResolvedCurrent), sd))))"

definition LoadLane ::
  "crypto \<Rightarrow> io \<Rightarrow> lease_key \<Rightarrow> account_key list \<Rightarrow> authority_policy \<Rightarrow> world \<Rightarrow>
   (runtime_error + restored_lane) \<times> world" where
  "LoadLane cr w key accounts p sd = loadLane cr w key accounts p True True sd"

definition loadLaneForIngress ::
  "crypto \<Rightarrow> io \<Rightarrow> lease_key \<Rightarrow> authority_policy \<Rightarrow> world \<Rightarrow> (runtime_error + restored_lane) \<times> world" where
  "loadLaneForIngress cr w key p sd = loadLane cr w key [] p False False sd"

text \<open>Planning reads the last authenticated generation in memory, without the file.\<close>

definition loadLaneSnapshot ::
  "crypto \<Rightarrow> io \<Rightarrow> lease_key \<Rightarrow> account_key list \<Rightarrow> authority_policy \<Rightarrow> store \<Rightarrow> runtime_error + restored_lane" where
  "loadLaneSnapshot cr w key accounts p s = fst (loadLane cr w key accounts p True False (s, []))"

section \<open>Narrowing the fence\<close>

definition narrowFence ::
  "record_fence list \<Rightarrow> record_identity list \<times> record_fence list \<Rightarrow> record_identity \<Rightarrow>
   lease_error + record_identity list \<times> record_fence list" where
  "narrowFence touched s i =
     (case s of (seen, fences) \<Rightarrow>
        if i = zeroIdentity then Inl (ErrInvalidMutation ''zero requested mutation fence'')
        else if i \<in> set seen then Inl (ErrInvalidMutation ''duplicate requested mutation fence'')
        else (case find (\<lambda>f. rf_record f = i) touched of
            None \<Rightarrow> Inl (ErrInvalidMutation ''requested record is outside hydrated lane'')
          | Some f \<Rightarrow> Inr (i # seen, fences @ [f])))"

definition MutationFence :: "restored_lane \<Rightarrow> record_identity list \<Rightarrow> lease_error + generation_fence" where
  "MutationFence r identities =
     andThen (foldE (narrowFence (gf_records (rl_fence r))) ([], []) identities) (\<lambda>(seen, fences).
     Inr ((rl_fence r)\<lparr>gf_records :=
       sortBy (\<lambda>a b. codexRecordIdentityLess (rf_record a) (rf_record b)) fences\<rparr>))"

definition restoredRecordFor :: "restored_lane \<Rightarrow> record_identity \<Rightarrow> restored_record option" where
  "restoredRecordFor r i = find (\<lambda>x. rd_identity x = i) (rl_resolved r)"

section \<open>What validity gives a reader\<close>

lemma scanE_distinct:
  assumes "scanE f [] xs = Inr ()" and "\<And>prior x. f prior x = Inr () \<Longrightarrow> g x \<notin> g ` set prior"
  shows "distinct (map g xs)"
proof -
  have "distinct (map g (rev xs @ []))"
    by (rule scanE_invariant [OF assms(1), where I = "\<lambda>ys. distinct (map g ys)"]) (use assms(2) in auto)
  then show ?thesis by (simp add: rev_map [symmetric])
qed

lemma valid_record:
  assumes "validateV2SemanticStateForSchema cr j schema = Inr ()" and "r \<in> set (jn_records j)"
  shows "validCodexLeaseDigest (jr_session r)" "validCodexLeaseDigest (jr_thread r)"
    "jr_namespace r = storeHash cr ''namespace'' CodexResponsesNamespace" "validCodexLeaseDigest (jr_turn r)"
    "\<exists>l. lookupLane cr (jn_lanes j) (ri_lane (Identity cr r)) = Some l"
    "jr_pred_turn r \<noteq> [] \<Longrightarrow> predecessorIdentity cr r \<noteq> Identity cr r" "jr_generation r \<noteq> 0"
    "Identity cr r \<noteq> zeroIdentity"
proof -
  obtain prior where "validateListedRecord cr j schema prior r = Inr ()"
    using scanE_each [OF semanticD(4) [OF assms(1)] assms(2)] .
  then obtain l where l: "lookupLane cr (jn_lanes j) (ri_lane (Identity cr r)) = Some l"
    and v: "validateV2Record cr j l schema r = Inr ()" by (rule listedRecordE)
  show "validCodexLeaseDigest (jr_session r)" "validCodexLeaseDigest (jr_thread r)"
    "jr_namespace r = storeHash cr ''namespace'' CodexResponsesNamespace" "validCodexLeaseDigest (jr_turn r)"
    "jr_generation r \<noteq> 0"
    using validateV2RecordD [OF v] by simp_all
  show "Identity cr r \<noteq> zeroIdentity"
    using validateV2RecordD(11) [OF v] by (auto simp: Identity_def zeroIdentity_def)
  show "\<exists>l. lookupLane cr (jn_lanes j) (ri_lane (Identity cr r)) = Some l" using l by blast
  show "jr_pred_turn r \<noteq> [] \<Longrightarrow> predecessorIdentity cr r \<noteq> Identity cr r"
    using semanticD(6) [OF assms(1,2)] by (auto simp: validatePredecessorLink_def)
qed

lemma valid_lane:
  assumes "validateV2SemanticStateForSchema cr j schema = Inr ()" and "l \<in> set (jn_lanes j)"
  shows "validCodexLeaseDigest (ln_session l)" "validCodexLeaseDigest (ln_thread l)"
    "ln_namespace l = storeHash cr ''namespace'' CodexResponsesNamespace" "ln_generation l \<noteq> 0"
  using validateLaneD(1,2,3,6) scanE_each [OF semanticD(3) [OF assms(1)] assms(2)] by metis+

lemma valid_distinct:
  assumes "validateV2SemanticStateForSchema cr j schema = Inr ()"
  shows "distinctIds cr (jn_records j)" "distinct (map (laneDigestOf cr) (jn_lanes j))"
  using scanE_distinct [OF semanticD(4) [OF assms], of "Identity cr"]
    scanE_distinct [OF semanticD(3) [OF assms], of "laneDigestOf cr"]
  by (auto elim: listedRecordE dest: validateLaneD(12))

section \<open>Which records are in the requested lane\<close>

definition sameLane :: "key_hashes \<Rightarrow> string \<Rightarrow> string \<Rightarrow> string \<Rightarrow> bool" where
  "sameLane k session thread namespace \<longleftrightarrow>
     session = kh_session k \<and> thread = kh_thread k \<and> namespace = kh_namespace k"

definition laneMember :: "crypto \<Rightarrow> lease_key \<Rightarrow> journal_record \<Rightarrow> bool" where
  "laneMember cr key r \<longleftrightarrow> sameLane (keyHashes cr key) (jr_session r) (jr_thread r) (jr_namespace r)"

text \<open>The records of the requested turn.\<close>

definition turnRecords :: "crypto \<Rightarrow> lease_key \<Rightarrow> journal \<Rightarrow> journal_record list" where
  "turnRecords cr key j =
     filter (\<lambda>r. laneMember cr key r \<and> jr_turn r = kh_turn (keyHashes cr key)) (jn_records j)"

definition requestedDigest :: "crypto \<Rightarrow> lease_key \<Rightarrow> string" where
  "requestedDigest cr key = codexJournalLaneDigest cr (kh_session (keyHashes cr key))
     (kh_thread (keyHashes cr key)) (kh_namespace (keyHashes cr key))"

text \<open>No two lanes of the journal, nor the requested one, share a lane digest.\<close>

definition digestsSeparate :: "crypto \<Rightarrow> journal \<Rightarrow> lease_key \<Rightarrow> bool" where
  "digestsSeparate cr j key \<longleftrightarrow> laneDigestsSeparate cr j \<and>
     list_all (\<lambda>l. laneDigestOf cr l = requestedDigest cr key \<longrightarrow>
       sameLane (keyHashes cr key) (ln_session l) (ln_thread l) (ln_namespace l)) (jn_lanes j)"

lemma key_valid:
  assumes "hmacBytes cr"
  shows "validCodexLeaseDigest (kh_session (keyHashes cr key))" "validCodexLeaseDigest (kh_thread (keyHashes cr key))"
    "validCodexLeaseDigest (kh_namespace (keyHashes cr key))" "validCodexLeaseDigest (kh_turn (keyHashes cr key))"
  using storeHash_valid [OF assms] by (simp_all add: keyHashes_def)

lemma requestedLane_iff:
  assumes "hmacBytes cr" and "validCodexLeaseDigest s" "validCodexLeaseDigest t" "validCodexLeaseDigest n"
  shows "inRequestedLane (keyHashes cr key) s t n \<longleftrightarrow> sameLane (keyHashes cr key) s t n"
  using assms(2-) by (simp add: inRequestedLane_def sameLane_def digestEqual_valid_iff key_valid [OF assms(1)])

lemma record_requested:
  assumes "validateV2SemanticStateForSchema cr j schema = Inr ()" and "hmacBytes cr" and "r \<in> set (jn_records j)"
  shows "inRequestedLane (keyHashes cr key) (jr_session r) (jr_thread r) (jr_namespace r) \<longleftrightarrow> laneMember cr key r"
    "constantTimeCodexLeaseDigestEqual (jr_turn r) (kh_turn (keyHashes cr key)) \<longleftrightarrow>
       jr_turn r = kh_turn (keyHashes cr key)"
  unfolding laneMember_def using requestedLane_iff [OF assms(2)] valid_record [OF assms(1,3)]
    storeHash_valid [OF assms(2)] digestEqual_valid_iff key_valid [OF assms(2)] by metis+

lemma member_digest: "laneMember cr key r \<Longrightarrow> ri_lane (Identity cr r) = requestedDigest cr key"
  by (simp add: laneMember_def sameLane_def Identity_def requestedDigest_def)

lemma lane_digest: "sameLane (keyHashes cr key) (ln_session l) (ln_thread l) (ln_namespace l) \<Longrightarrow>
    laneDigestOf cr l = requestedDigest cr key"
  by (simp add: sameLane_def laneDigestOf_def requestedDigest_def)

lemma requested_simps [simp]:
  "ri_lane (requestedIdentity cr (keyHashes cr key) p) = requestedDigest cr key"
  "ri_turn (requestedIdentity cr k p) = kh_turn k" "ri_epoch (requestedIdentity cr k p) = ap_epoch p"
  "ri_auth (requestedIdentity cr k p) = ap_auth p"
  by (simp_all add: requestedIdentity_def requestedDigest_def)

text \<open>A record whose identity has the digest of the lane that was found is a record of that lane.\<close>

lemma digest_member:
  assumes sep: "digestsSeparate cr j key" and sem: "validateV2SemanticStateForSchema cr j schema = Inr ()"
    and r: "r \<in> set (jn_records j)" and "ri_lane (Identity cr r) = requestedDigest cr key"
  shows "laneMember cr key r"
proof -
  obtain l where "lookupLane cr (jn_lanes j) (ri_lane (Identity cr r)) = Some l" using valid_record(5) [OF sem r] ..
  then have l: "l \<in> set (jn_lanes j)" "laneDigestOf cr l = requestedDigest cr key" using lookupLane_mem assms(4) by metis+
  then have "sameLane (keyHashes cr key) (ln_session l) (ln_thread l) (ln_namespace l)" "codexLeaseRecordInLane r l"
    using sep r assms(4) by (auto simp: digestsSeparate_def laneDigestsSeparate_def list_all_iff)
  then show ?thesis by (simp add: laneMember_def sameLane_def codexLeaseRecordInLane_def)
qed

section \<open>The class of the requested turn\<close>

text \<open>
  How the records of the requested turn classify it: one the policy allows makes it current or
  history, otherwise one of an unknown authority refuses it, one of the shadow of the policy's
  own epoch makes it a shadow, and what is left are old shadows, which do not count.
\<close>

definition turnClass ::
  "crypto \<Rightarrow> authority_policy \<Rightarrow> record_identity \<Rightarrow> journal_record list \<Rightarrow> lane_classification option" where
  "turnClass cr p current rs =
     (let allowed = filter (\<lambda>r. codexLeaseRecordAllowedByPolicy r p) rs in
      if current \<in> Identity cr ` set allowed then Some RestoredCurrent
      else if allowed \<noteq> [] then Some RestoredHistorical
      else if \<exists>r \<in> set rs. jr_auth r then None
      else if ap_auth p \<and> (\<exists>r \<in> set rs. jr_epoch r = ap_epoch p) then Some RestoredShadowOnly
      else Some RestoredUnseen)"

definition inLane :: "key_hashes \<Rightarrow> journal_record \<Rightarrow> bool" where
  "inLane k r \<longleftrightarrow> inRequestedLane k (jr_session r) (jr_thread r) (jr_namespace r)"

definition ofTurn :: "key_hashes \<Rightarrow> journal_record \<Rightarrow> bool" where
  "ofTurn k r \<longleftrightarrow> inLane k r \<and> constantTimeCodexLeaseDigestEqual (jr_turn r) (kh_turn k)"

lemma hydrateRecord_cases:
  assumes "hydrateRecord cr resolver k p rq current s r = Inr s'"
  shows "s' = (if \<not> inLane k r then s
    else let s1 = s\<lparr>lc_resolved := lc_resolved s @ [restoredRecordOf cr resolver r]\<rparr>
      in if ofTurn k r then noteTurn cr p current r s1 else s1)"
  using assms by (auto simp: hydrateRecord_def inLane_def ofTurn_def Let_def split: if_splits)

lemma noteTurn_resolved [simp]: "lc_resolved (noteTurn cr p current r s) = lc_resolved s"
  by (simp add: noteTurn_def)

lemma noteTurn_flags:
  "lc_current (noteTurn cr p current r s) \<longleftrightarrow>
     lc_current s \<or> codexLeaseRecordAllowedByPolicy r p \<and> Identity cr r = current"
  "lc_historical (noteTurn cr p current r s) \<longleftrightarrow>
     lc_historical s \<or> codexLeaseRecordAllowedByPolicy r p \<and> Identity cr r \<noteq> current"
  "lc_shadow (noteTurn cr p current r s) \<longleftrightarrow>
     lc_shadow s \<or> \<not> codexLeaseRecordAllowedByPolicy r p \<and> ap_auth p \<and> \<not> jr_auth r \<and> jr_epoch r = ap_epoch p"
  "lc_unrecognised (noteTurn cr p current r s) \<longleftrightarrow>
     lc_unrecognised s \<or> \<not> codexLeaseRecordAllowedByPolicy r p \<and> jr_auth r"
  by (auto simp: noteTurn_def)

lemma hydrate_step:
  assumes "hydrateRecord cr resolver k p rq current s r = Inr s'"
  shows "lc_resolved s' = lc_resolved s @ map (restoredRecordOf cr resolver) (filter (inLane k) [r])"
    "lc_current s' \<longleftrightarrow> lc_current s \<or> ofTurn k r \<and> codexLeaseRecordAllowedByPolicy r p \<and> Identity cr r = current"
    "lc_historical s' \<longleftrightarrow> lc_historical s \<or> ofTurn k r \<and> codexLeaseRecordAllowedByPolicy r p \<and> Identity cr r \<noteq> current"
    "lc_shadow s' \<longleftrightarrow> lc_shadow s \<or> ofTurn k r \<and> \<not> codexLeaseRecordAllowedByPolicy r p \<and> ap_auth p \<and>
       \<not> jr_auth r \<and> jr_epoch r = ap_epoch p"
    "lc_unrecognised s' \<longleftrightarrow> lc_unrecognised s \<or> ofTurn k r \<and> \<not> codexLeaseRecordAllowedByPolicy r p \<and> jr_auth r"
proof -
  have lane: "ofTurn k r \<Longrightarrow> inLane k r" by (simp add: ofTurn_def)
  note s' = hydrateRecord_cases [OF assms]
  show "lc_resolved s' = lc_resolved s @ map (restoredRecordOf cr resolver) (filter (inLane k) [r])"
    by (simp add: s' Let_def)
  show "lc_current s' \<longleftrightarrow> lc_current s \<or> ofTurn k r \<and> codexLeaseRecordAllowedByPolicy r p \<and> Identity cr r = current"
    "lc_historical s' \<longleftrightarrow> lc_historical s \<or> ofTurn k r \<and> codexLeaseRecordAllowedByPolicy r p \<and> Identity cr r \<noteq> current"
    "lc_shadow s' \<longleftrightarrow> lc_shadow s \<or> ofTurn k r \<and> \<not> codexLeaseRecordAllowedByPolicy r p \<and> ap_auth p \<and>
       \<not> jr_auth r \<and> jr_epoch r = ap_epoch p"
    "lc_unrecognised s' \<longleftrightarrow> lc_unrecognised s \<or> ofTurn k r \<and> \<not> codexLeaseRecordAllowedByPolicy r p \<and> jr_auth r"
    using lane by (auto simp: s' Let_def noteTurn_flags)
qed

text \<open>The scan as a filter: a flag is up when a record of the turn raises it.\<close>

lemma hydrate_resolved:
  "foldE (hydrateRecord cr resolver k p rq current) s rs = Inr t \<Longrightarrow>
   lc_resolved t = lc_resolved s @ map (restoredRecordOf cr resolver) (filter (inLane k) rs)"
  by (induction rs arbitrary: s) (auto dest!: hydrate_step(1))

lemma hydrate_flag:
  assumes "foldE (hydrateRecord cr resolver k p rq current) s rs = Inr t"
    and "\<And>s r s'. hydrateRecord cr resolver k p rq current s r = Inr s' \<Longrightarrow> flag s' \<longleftrightarrow> flag s \<or> ofTurn k r \<and> raises r"
  shows "flag t \<longleftrightarrow> flag s \<or> (\<exists>r \<in> set (filter (ofTurn k) rs). raises r)"
  using assms(1)
proof (induction rs arbitrary: s)
  case Nil
  then show ?case by simp
next
  case (Cons r rs)
  then obtain s1 where step: "hydrateRecord cr resolver k p rq current s r = Inr s1"
    and rest: "foldE (hydrateRecord cr resolver k p rq current) s1 rs = Inr t" by auto
  show ?case using Cons.IH [OF rest] assms(2) [OF step] by auto
qed

lemma hydrate_class:
  assumes "foldE (hydrateRecord cr resolver k p rq current)
      \<lparr>lc_resolved = [], lc_current = False, lc_historical = False, lc_shadow = False, lc_unrecognised = False\<rparr> rs = Inr t"
  shows "turnClass cr p current (filter (ofTurn k) rs) = (case scanClass t of Inl _ \<Rightarrow> None | Inr c \<Rightarrow> Some c)"
proof -
  note flag = hydrate_flag [OF assms, simplified]
  note flags = flag [where flag = lc_current, OF hydrate_step(2), simplified]
    flag [where flag = lc_historical, OF hydrate_step(3), simplified]
    flag [where flag = lc_shadow, OF hydrate_step(4), simplified]
    flag [where flag = lc_unrecognised, OF hydrate_step(5), simplified]
  let ?rs = "filter (ofTurn k) rs"
  show ?thesis
  proof (cases "\<exists>r \<in> set ?rs. codexLeaseRecordAllowedByPolicy r p")
    case True
    then have "filter (\<lambda>r. codexLeaseRecordAllowedByPolicy r p) ?rs \<noteq> []" by (auto simp: filter_empty_conv)
    moreover have "current \<in> Identity cr ` set (filter (\<lambda>r. codexLeaseRecordAllowedByPolicy r p) ?rs) \<longleftrightarrow> lc_current t"
      by (auto simp: flags)
    moreover have "lc_current t \<or> lc_historical t" using True by (auto simp: flags)
    ultimately show ?thesis by (auto simp: turnClass_def scanClass_def Let_def)
  next
    case False
    then have "filter (\<lambda>r. codexLeaseRecordAllowedByPolicy r p) ?rs = []" by (simp add: filter_empty_conv)
    moreover have "\<not> lc_current t" "\<not> lc_historical t" "lc_unrecognised t \<longleftrightarrow> (\<exists>r \<in> set ?rs. jr_auth r)"
      "\<not> (\<exists>r \<in> set ?rs. jr_auth r) \<Longrightarrow> lc_shadow t \<longleftrightarrow> ap_auth p \<and> (\<exists>r \<in> set ?rs. jr_epoch r = ap_epoch p)"
      using False by (auto simp: flags)
    ultimately show ?thesis by (auto simp: turnClass_def scanClass_def Let_def)
  qed
qed

lemma hydrateLane_cases:
  assumes "hydrateLane cr j key accounts p rq = Inr r"
  obtains (unseen) "r = unseenLane cr j (keyHashes cr key) p" "findRequestedLane (keyHashes cr key) (jn_lanes j) = Inr None"
  | (found) l s c where "findRequestedLane (keyHashes cr key) (jn_lanes j) = Inr (Some l)"
      "foldE (hydrateRecord cr (newCodexLeaseAccountResolver cr accounts) (keyHashes cr key) p rq
         (codexLaneTupleIdentity cr l True))
       \<lparr>lc_resolved = [], lc_current = False, lc_historical = False, lc_shadow = False, lc_unrecognised = False\<rparr>
       (jn_records j) = Inr s"
      "scanClass s = Inr c"
      "rl_class r = c" "rl_lane r = l" "rl_requested r = requestedIdentity cr (keyHashes cr key) p"
      "rl_records r = map rd_record (lc_resolved s)" "rl_resolved r = lc_resolved s"
      "rl_fence r = \<lparr>gf_journal = jn_generation j, gf_lane = ln_generation l,
         gf_current = codexLaneTupleIdentity cr l True, gf_last = codexLaneTupleIdentity cr l False,
         gf_records = laneFences cr (requestedIdentity cr (keyHashes cr key) p) (lc_resolved s)\<rparr>"
proof -
  from assms obtain found where f: "findRequestedLane (keyHashes cr key) (jn_lanes j) = Inr found"
    by (auto simp: hydrateLane_def Let_def)
  show thesis
  proof (cases found)
    case None
    with assms f show thesis by (intro unseen) (simp_all add: hydrateLane_def Let_def)
  next
    case (Some l)
    with assms f obtain s c where
      "foldE (hydrateRecord cr (newCodexLeaseAccountResolver cr accounts) (keyHashes cr key) p rq
         (codexLaneTupleIdentity cr l True))
       \<lparr>lc_resolved = [], lc_current = False, lc_historical = False, lc_shadow = False, lc_unrecognised = False\<rparr>
       (jn_records j) = Inr s" "scanClass s = Inr c"
      by (auto simp: hydrateLane_def Let_def andThen_Inr_iff)
    with assms f Some show thesis
      by (intro found [of l s c]) (auto simp: hydrateLane_def Let_def unseenLane_def)
  qed
qed

lemma findRequestedLane_cases:
  "findRequestedLane k lanes = Inr None \<Longrightarrow>
     \<forall>l \<in> set lanes. \<not> inRequestedLane k (ln_session l) (ln_thread l) (ln_namespace l)"
  "findRequestedLane k lanes = Inr (Some l) \<Longrightarrow>
     l \<in> set lanes \<and> inRequestedLane k (ln_session l) (ln_thread l) (ln_namespace l)"
proof -
  show "findRequestedLane k lanes = Inr None \<Longrightarrow>
     \<forall>l \<in> set lanes. \<not> inRequestedLane k (ln_session l) (ln_thread l) (ln_namespace l)"
    by (auto simp: findRequestedLane_def filter_empty_conv split: list.splits)
  assume "findRequestedLane k lanes = Inr (Some l)"
  then have "filter (\<lambda>l. inRequestedLane k (ln_session l) (ln_thread l) (ln_namespace l)) lanes = [l]"
    by (auto simp: findRequestedLane_def split: list.splits)
  then have "l \<in> set (filter (\<lambda>l. inRequestedLane k (ln_session l) (ln_thread l) (ln_namespace l)) lanes)" by simp
  then show "l \<in> set lanes \<and> inRequestedLane k (ln_session l) (ln_thread l) (ln_namespace l)" by simp
qed

text \<open>The facts of a successful load that its clients use.\<close>

lemma loadLane_journal:
  assumes "loadLane cr w key accounts p rq rv (s, disk) = (Inr r, sd')"
  obtains j where "st_journal s = Some j" "hydrateLane cr j key accounts p rq = Inr r" "sd' = (s, disk)"
    "cu_no_legacy_authority (jn_cutover j)"
  using assms by (auto simp: loadLane_def readLane_def split: sum.splits option.splits if_splits)

lemma unseen_no_record:
  assumes "findRequestedLane (keyHashes cr key) (jn_lanes j) = Inr None" and "digestsSeparate cr j key"
    and sem: "validateV2SemanticStateForSchema cr j schema = Inr ()" and "hmacBytes cr" and "r \<in> set (jn_records j)"
  shows "ri_lane (Identity cr r) \<noteq> requestedDigest cr key"
proof
  assume d: "ri_lane (Identity cr r) = requestedDigest cr key"
  obtain l where "lookupLane cr (jn_lanes j) (ri_lane (Identity cr r)) = Some l" using valid_record(5) [OF sem assms(5)] ..
  then have l: "l \<in> set (jn_lanes j)" "laneDigestOf cr l = requestedDigest cr key" using lookupLane_mem d by metis+
  then have "sameLane (keyHashes cr key) (ln_session l) (ln_thread l) (ln_namespace l)"
    using assms(2) by (auto simp: digestsSeparate_def list_all_iff)
  moreover have "validCodexLeaseDigest (ln_namespace l)"
    using valid_lane(3) [OF sem l(1)] storeHash_valid [OF assms(4)] by metis
  ultimately show False
    using findRequestedLane_cases(1) [OF assms(1)] l(1) valid_lane(1,2) [OF sem l(1)] requestedLane_iff [OF assms(4)] by metis
qed

lemma turn_filter:
  assumes "validateV2SemanticStateForSchema cr j schema = Inr ()" and "hmacBytes cr"
  shows "filter (ofTurn (keyHashes cr key)) (jn_records j) = turnRecords cr key j"
    "filter (inLane (keyHashes cr key)) (jn_records j) = filter (laneMember cr key) (jn_records j)"
  unfolding turnRecords_def
  by (auto intro!: filter_cong simp: ofTurn_def inLane_def record_requested [OF assms]
    digestEqual_refl key_valid [OF assms(2)])

text \<open>
  C16. Classification of the requested turn. A lane loaded from a valid journal has the class
  that the journal's records of the turn give it: current when the policy allows the one the
  lane points at, history when it allows another, a shadow when only one of the policy's own
  epoch is there, and unseen only when nothing but old shadows is left. A turn known at an
  authority the policy does not know is never unseen: loading it fails.
\<close>

theorem loaded_turn_class:
  assumes "loadLane cr w key accounts p rq rv (s, disk) = (Inr r, sd')" and "st_journal s = Some j"
    and "validateV2SemanticStateForSchema cr j CurrentCodexLeaseSchema = Inr ()"
    and "hmacBytes cr" and "digestsSeparate cr j key"
  shows "turnClass cr p (gf_current (rl_fence r)) (turnRecords cr key j) = Some (rl_class r) \<and> sd' = (s, disk)"
proof -
  from assms(1,2) have h: "hydrateLane cr j key accounts p rq = Inr r" and sd: "sd' = (s, disk)"
    by (auto elim: loadLane_journal)
  from h show ?thesis
  proof (cases rule: hydrateLane_cases)
    case unseen
    have "turnRecords cr key j = []"
      using unseen_no_record [OF unseen(2) assms(5,3,4)] member_digest by (auto simp: turnRecords_def filter_empty_conv)
    then show ?thesis using sd unseen(1) by (simp add: turnClass_def unseenLane_def)
  next
    case (found l t c)
    with hydrate_class [OF found(2)] sd show ?thesis by (simp add: turn_filter [OF assms(3,4)])
  qed
qed

section \<open>The fences of a loaded lane\<close>

lemma addAbsent_cases:
  "f \<in> set (addAbsent fences i) \<Longrightarrow> f \<in> set fences \<or> f = zeroFence\<lparr>rf_record := i\<rparr> \<and> i \<notin> rf_record ` set fences"
  "set fences \<subseteq> set (addAbsent fences i)"
  by (auto simp: addAbsent_def codexLeaseFenceContainsRecord_def split: if_splits)

lemma addPredecessors_cases:
  "set fences \<subseteq> set (foldl (addPredecessor cr) fences rs)"
  "f \<in> set (foldl (addPredecessor cr) fences rs) \<Longrightarrow> f \<in> set fences \<or>
     (\<exists>r \<in> set rs. jr_pred_turn r \<noteq> [] \<and> f = zeroFence\<lparr>rf_record := predecessorIdentity cr r\<rparr> \<and>
        predecessorIdentity cr r \<notin> rf_record ` set fences)"
proof -
  have "set fences \<subseteq> set (foldl (addPredecessor cr) fences rs) \<and>
    (f \<in> set (foldl (addPredecessor cr) fences rs) \<longrightarrow> f \<in> set fences \<or>
     (\<exists>r \<in> set rs. jr_pred_turn r \<noteq> [] \<and> f = zeroFence\<lparr>rf_record := predecessorIdentity cr r\<rparr> \<and>
        predecessorIdentity cr r \<notin> rf_record ` set fences))"
  proof (induction rs arbitrary: fences)
    case Nil
    then show ?case by simp
  next
    case (Cons r rs)
    have sub: "set fences \<subseteq> set (addPredecessor cr fences r)"
      by (simp add: addPredecessor_def addAbsent_cases(2))
    have new: "g \<in> set (addPredecessor cr fences r) \<Longrightarrow> g \<in> set fences \<or> jr_pred_turn r \<noteq> [] \<and>
        g = zeroFence\<lparr>rf_record := predecessorIdentity cr r\<rparr> \<and> predecessorIdentity cr r \<notin> rf_record ` set fences" for g
      using addAbsent_cases(1) by (auto simp: addPredecessor_def split: if_splits)
    have ids: "i \<notin> rf_record ` set (addPredecessor cr fences r) \<Longrightarrow> i \<notin> rf_record ` set fences" for i
      using sub by blast
    show ?case
    proof (intro conjI impI)
      show "set fences \<subseteq> set (foldl (addPredecessor cr) fences (r # rs))"
        using Cons.IH [of "addPredecessor cr fences r"] sub by (simp only: foldl.simps) (rule subset_trans, auto)
    next
      assume "f \<in> set (foldl (addPredecessor cr) fences (r # rs))"
      then have "f \<in> set (addPredecessor cr fences r) \<or> (\<exists>r' \<in> set rs. jr_pred_turn r' \<noteq> [] \<and>
          f = zeroFence\<lparr>rf_record := predecessorIdentity cr r'\<rparr> \<and>
          predecessorIdentity cr r' \<notin> rf_record ` set (addPredecessor cr fences r))"
        using Cons.IH [of "addPredecessor cr fences r"] by simp
      then show "f \<in> set fences \<or> (\<exists>r' \<in> set (r # rs). jr_pred_turn r' \<noteq> [] \<and>
          f = zeroFence\<lparr>rf_record := predecessorIdentity cr r'\<rparr> \<and>
          predecessorIdentity cr r' \<notin> rf_record ` set fences)"
      proof (elim disjE bexE)
        assume "f \<in> set (addPredecessor cr fences r)"
        from new [OF this] show ?thesis by (rule disj_forward) auto
      next
        fix r' assume r': "r' \<in> set rs" "jr_pred_turn r' \<noteq> [] \<and>
          f = zeroFence\<lparr>rf_record := predecessorIdentity cr r'\<rparr> \<and>
          predecessorIdentity cr r' \<notin> rf_record ` set (addPredecessor cr fences r)"
        show ?thesis by (intro disjI2 bexI [of _ r'] conjI) (use r' ids in simp_all)
      qed
    qed
  qed
  then show "set fences \<subseteq> set (foldl (addPredecessor cr) fences rs)"
    "f \<in> set (foldl (addPredecessor cr) fences rs) \<Longrightarrow> f \<in> set fences \<or>
     (\<exists>r \<in> set rs. jr_pred_turn r \<noteq> [] \<and> f = zeroFence\<lparr>rf_record := predecessorIdentity cr r\<rparr> \<and>
        predecessorIdentity cr r \<notin> rf_record ` set fences)"
    by blast+
qed

lemma restored_fence [simp]:
  "rd_fence (restoredRecordOf cr resolver r) = codexLeaseFenceForRestoredRecord cr r"
  "rd_record (restoredRecordOf cr resolver r) = r" "rd_identity (restoredRecordOf cr resolver r) = Identity cr r"
  by (simp_all add: restoredRecordOf_def Let_def)

text \<open>A fence of a loaded lane is that of a record of the lane, or of one that is not there.\<close>

lemma laneFences_cases:
  assumes "f \<in> set (laneFences cr requested (map (restoredRecordOf cr resolver) rs))"
  obtains (held) r where "r \<in> set rs" "f = codexLeaseFenceForRestoredRecord cr r"
  | (absent) i where "f = zeroFence\<lparr>rf_record := i\<rparr>" "i \<notin> Identity cr ` set rs"
      "i = requested \<or> (\<exists>r \<in> set rs. jr_pred_turn r \<noteq> [] \<and> i = predecessorIdentity cr r)"
proof -
  let ?held = "map (codexLeaseFenceForRestoredRecord cr) rs"
  let ?linked = "foldl (addPredecessor cr) ?held rs"
  have ids: "rf_record ` set ?held = Identity cr ` set rs" 
    by (auto simp: codexLeaseFenceForRestoredRecord_def image_iff)
  have maps: "map rd_fence (map (restoredRecordOf cr resolver) rs) = ?held"
    "map rd_record (map (restoredRecordOf cr resolver) rs) = rs" by (simp_all add: comp_def)
  from assms have f: "f \<in> set (addAbsent ?linked requested)" unfolding laneFences_def maps by simp
  from addAbsent_cases(1) [OF f] show thesis
  proof
    assume "f \<in> set ?linked"
    from addPredecessors_cases(2) [OF this] show thesis
    proof
      assume "f \<in> set ?held"
      then show thesis by (auto intro: held)
    next
      assume "\<exists>r \<in> set rs. jr_pred_turn r \<noteq> [] \<and> f = zeroFence\<lparr>rf_record := predecessorIdentity cr r\<rparr> \<and>
        predecessorIdentity cr r \<notin> rf_record ` set ?held"
      then show thesis unfolding ids by (auto intro: absent)
    qed
  next
    assume a: "f = zeroFence\<lparr>rf_record := requested\<rparr> \<and> requested \<notin> rf_record ` set ?linked"
    have "rf_record ` set ?held \<subseteq> rf_record ` set ?linked" using addPredecessors_cases(1) by (rule image_mono)
    with a show thesis unfolding ids by (intro absent [of requested]) auto
  qed
qed

lemma zeroFence_absent: "checkRecordFence (zeroFence\<lparr>rf_record := i\<rparr>) None = Inr ()"
  by (simp add: checkRecordFence_def zeroFence_def)

lemma restoredFence_exact: "checkRecordFence (codexLeaseFenceForRestoredRecord cr r) (Some r) = Inr ()"
  by (simp add: checkRecordFence_def codexLeaseFenceForRestoredRecord_def)

lemma predecessor_digest [simp]: "ri_lane (predecessorIdentity cr r) = ri_lane (Identity cr r)"
  by (simp add: predecessorIdentity_def)

lemma hydrated_fences:
  assumes h: "hydrateLane cr j key accounts p rq = Inr r"
    and sem: "validateV2SemanticStateForSchema cr j CurrentCodexLeaseSchema = Inr ()"
    and cr: "hmacBytes cr" and sep: "digestsSeparate cr j key" and f: "f \<in> set (gf_records (rl_fence r))"
  shows "rf_record f \<noteq> zeroIdentity" "checkRecordFence f (lookupRecord cr (jn_records j) (rf_record f)) = Inr ()"
    "ri_lane (rf_record f) = requestedDigest cr key"
proof -
  let ?k = "keyHashes cr key" and ?mem = "filter (laneMember cr key) (jn_records j)"
  note dist = valid_distinct(1) [OF sem]
  have turn: "kh_turn ?k \<noteq> []" using key_valid(4) [OF cr] digest_not_Nil by blast
  have "rf_record f \<noteq> zeroIdentity \<and> checkRecordFence f (lookupRecord cr (jn_records j) (rf_record f)) = Inr () \<and>
    ri_lane (rf_record f) = requestedDigest cr key"
    using h
  proof (cases rule: hydrateLane_cases)
    case unseen
    then have f: "f = zeroFence\<lparr>rf_record := requestedIdentity cr ?k p\<rparr>" using f by (simp add: unseenLane_def)
    have "lookupRecord cr (jn_records j) (requestedIdentity cr ?k p) = None"
      unfolding lookup_None using unseen_no_record [OF unseen(2) sep sem cr] by (metis imageE requested_simps(1))
    then show ?thesis using turn by (auto simp: f zeroFence_absent zeroIdentity_def requestedIdentity_def
        requestedDigest_def)
  next
    case (found l t c)
    have "lc_resolved t = map (restoredRecordOf cr (newCodexLeaseAccountResolver cr accounts)) ?mem"
      using hydrate_resolved [OF found(2)] turn_filter(2) [OF sem cr] by simp
    with f found(9) have "f \<in> set (laneFences cr (requestedIdentity cr ?k p)
        (map (restoredRecordOf cr (newCodexLeaseAccountResolver cr accounts)) ?mem))" by simp
    then show ?thesis
    proof (cases rule: laneFences_cases)
      case (held x)
      then have "lookupRecord cr (jn_records j) (Identity cr x) = Some x" by (simp add: lookup_iff [OF dist])
      with held valid_record(8) [OF sem, of x] member_digest show ?thesis
        using restoredFence_exact by (auto simp: codexLeaseFenceForRestoredRecord_def)
    next
      case (absent i)
      have i: "ri_lane i = requestedDigest cr key \<and> i \<noteq> zeroIdentity"
        using absent(3)
      proof
        assume "\<exists>x \<in> set ?mem. jr_pred_turn x \<noteq> [] \<and> i = predecessorIdentity cr x"
        then show ?thesis using member_digest by (auto simp: predecessorIdentity_def zeroIdentity_def)
      qed (use turn in \<open>auto simp: zeroIdentity_def requestedIdentity_def requestedDigest_def\<close>)
      have "lookupRecord cr (jn_records j) i = None"
        using absent(2) digest_member [OF sep sem] i by (auto simp: lookup_None)
      with i absent(1) show ?thesis by (simp add: zeroFence_absent)
    qed
  qed
  then show "rf_record f \<noteq> zeroIdentity" "checkRecordFence f (lookupRecord cr (jn_records j) (rf_record f)) = Inr ()"
    "ri_lane (rf_record f) = requestedDigest cr key" by simp_all
qed

section \<open>Narrowed fences\<close>

lemma narrow_step:
  assumes "foldE (narrowFence touched) (seen, fences) ids = Inr (seen', fences')"
    and "rf_record ` set fences = set seen" "distinct (map rf_record fences)"
  shows "rf_record ` set fences' = set seen \<union> set ids \<and> distinct (map rf_record fences') \<and>
    set fences' \<subseteq> set fences \<union> set touched"
  using assms
proof (induction ids arbitrary: seen fences)
  case Nil
  then show ?case by auto
next
  case (Cons i ids)
  from Cons.prems(1) obtain t where t: "narrowFence touched (seen, fences) i = Inr t"
    and more: "foldE (narrowFence touched) t ids = Inr (seen', fences')" by auto
  from t obtain f where f: "i \<notin> set seen" "find (\<lambda>f. rf_record f = i) touched = Some f"
    and "t = (i # seen, fences @ [f])"
    by (auto simp: narrowFence_def split: if_splits option.splits)
  with more have rest: "foldE (narrowFence touched) (i # seen, fences @ [f]) ids = Inr (seen', fences')" by simp
  have "f \<in> set touched" "rf_record f = i" using f(2) find_Some_mem by fastforce+
  with Cons.IH [OF rest] Cons.prems(2,3) f(1) show ?case by auto
qed

lemma MutationFence_facts:
  assumes "MutationFence r ids = Inr fence"
  shows "gf_journal fence = gf_journal (rl_fence r)" "gf_lane fence = gf_lane (rl_fence r)"
    "gf_current fence = gf_current (rl_fence r)" "gf_last fence = gf_last (rl_fence r)"
    "rf_record ` set (gf_records fence) = set ids" "distinct (map rf_record (gf_records fence))"
    "set (gf_records fence) \<subseteq> set (gf_records (rl_fence r))"
proof -
  let ?sort = "sortBy (\<lambda>a b. codexRecordIdentityLess (rf_record a) (rf_record b))"
  from assms obtain seen fences where n: "foldE (narrowFence (gf_records (rl_fence r))) ([], []) ids = Inr (seen, fences)"
    and fence: "fence = (rl_fence r)\<lparr>gf_records := ?sort fences\<rparr>"
    by (auto simp: MutationFence_def)
  have "rf_record ` set fences = set ids" "distinct (map rf_record fences)"
    "set fences \<subseteq> set (gf_records (rl_fence r))"
    using narrow_step [OF n] by simp_all
  moreover have "distinct (map rf_record (?sort fences)) = distinct (map rf_record fences)"
    by (rule mset_eq_imp_distinct_iff) simp
  ultimately show "gf_journal fence = gf_journal (rl_fence r)" "gf_lane fence = gf_lane (rl_fence r)"
    "gf_current fence = gf_current (rl_fence r)" "gf_last fence = gf_last (rl_fence r)"
    "rf_record ` set (gf_records fence) = set ids" "distinct (map rf_record (gf_records fence))"
    "set (gf_records fence) \<subseteq> set (gf_records (rl_fence r))"
    by (simp_all add: fence)
qed

lemma hydrated_lane:
  assumes h: "hydrateLane cr j key accounts p rq = Inr r"
    and sem: "validateV2SemanticStateForSchema cr j CurrentCodexLeaseSchema = Inr ()"
    and cr: "hmacBytes cr" and sep: "digestsSeparate cr j key"
  shows "gf_journal (rl_fence r) = jn_generation j"
    "case lookupLane cr (jn_lanes j) (requestedDigest cr key) of
       None \<Rightarrow> gf_lane (rl_fence r) = 0 \<and> gf_current (rl_fence r) = zeroIdentity \<and> gf_last (rl_fence r) = zeroIdentity
     | Some l \<Rightarrow> gf_lane (rl_fence r) = ln_generation l \<and>
         gf_current (rl_fence r) = codexLaneTupleIdentity cr l True \<and>
         gf_last (rl_fence r) = codexLaneTupleIdentity cr l False"
proof -
  have lane: "inRequestedLane (keyHashes cr key) (ln_session l) (ln_thread l) (ln_namespace l) \<longleftrightarrow>
      laneDigestOf cr l = requestedDigest cr key" if "l \<in> set (jn_lanes j)" for l
  proof -
    have "validCodexLeaseDigest (ln_namespace l)" using valid_lane(3) [OF sem that] storeHash_valid [OF cr] by simp
    then have "inRequestedLane (keyHashes cr key) (ln_session l) (ln_thread l) (ln_namespace l) \<longleftrightarrow>
        sameLane (keyHashes cr key) (ln_session l) (ln_thread l) (ln_namespace l)"
      by (rule requestedLane_iff [OF cr valid_lane(1,2) [OF sem that]])
    moreover have "laneDigestOf cr l = requestedDigest cr key \<Longrightarrow>
        sameLane (keyHashes cr key) (ln_session l) (ln_thread l) (ln_namespace l)"
      using sep that by (simp add: digestsSeparate_def list_all_iff)
    ultimately show ?thesis using lane_digest by blast
  qed
  have "gf_journal (rl_fence r) = jn_generation j \<and>
    (case lookupLane cr (jn_lanes j) (requestedDigest cr key) of
       None \<Rightarrow> gf_lane (rl_fence r) = 0 \<and> gf_current (rl_fence r) = zeroIdentity \<and> gf_last (rl_fence r) = zeroIdentity
     | Some l \<Rightarrow> gf_lane (rl_fence r) = ln_generation l \<and>
         gf_current (rl_fence r) = codexLaneTupleIdentity cr l True \<and>
         gf_last (rl_fence r) = codexLaneTupleIdentity cr l False)"
    using h
  proof (cases rule: hydrateLane_cases)
    case unseen
    have "lookupLane cr (jn_lanes j) (requestedDigest cr key) = None"
      using findRequestedLane_cases(1) [OF unseen(2)] lane lookupLane_mem by (metis not_None_eq)
    then show ?thesis by (simp add: unseen(1) unseenLane_def)
  next
    case (found l t c)
    have "lookupLane cr (jn_lanes j) (requestedDigest cr key) = Some l"
      unfolding lookupLane_iff [OF valid_distinct(2) [OF sem]]
      using findRequestedLane_cases(2) [OF found(1)] lane by blast
    then show ?thesis by (simp add: found(9))
  qed
  then show "gf_journal (rl_fence r) = jn_generation j"
    "case lookupLane cr (jn_lanes j) (requestedDigest cr key) of
       None \<Rightarrow> gf_lane (rl_fence r) = 0 \<and> gf_current (rl_fence r) = zeroIdentity \<and> gf_last (rl_fence r) = zeroIdentity
     | Some l \<Rightarrow> gf_lane (rl_fence r) = ln_generation l \<and>
         gf_current (rl_fence r) = codexLaneTupleIdentity cr l True \<and>
         gf_last (rl_fence r) = codexLaneTupleIdentity cr l False" by simp_all
qed

text \<open>
  C18. A mutation built on a loaded lane is never stale by itself: a fence narrowed from the lane
  names the journal's generation, passes the lane fence and every record fence of the commit
  against that journal, and fences exactly the records it was asked for, those that do not
  exist included.
\<close>

theorem loaded_fence_exact:
  assumes "loadLane cr w key accounts p rq rv (s, disk) = (Inr r, sd')" and "st_journal s = Some j"
    and "MutationFence r ids = Inr fence"
    and "validateV2SemanticStateForSchema cr j CurrentCodexLeaseSchema = Inr ()"
    and "hmacBytes cr" and "digestsSeparate cr j key"
  shows "gf_journal fence = jn_generation j \<and>
    (let lane = lookupLane cr (jn_lanes j) (requestedDigest cr key);
         stored = (case lane of None \<Rightarrow> zeroLane | Some l \<Rightarrow> l)
     in laneFence fence lane (codexLaneTupleIdentity cr stored True) (codexLaneTupleIdentity cr stored False) = Inr ()) \<and>
    validateCodexLeaseRecordFences cr (gf_records fence) (jn_records j) = Inr () \<and>
    rf_record ` set (gf_records fence) = set ids \<and>
    (\<forall>i \<in> set ids. ri_lane i = requestedDigest cr key)"
proof -
  from assms(1,2) have h: "hydrateLane cr j key accounts p rq = Inr r" by (auto elim: loadLane_journal)
  note lane = hydrated_lane [OF h assms(4-6)] and facts = MutationFence_facts [OF assms(3)]
    and fences = hydrated_fences [OF h assms(4-6)]
  have "validateCodexLeaseRecordFences cr (gf_records fence) (jn_records j) = Inr ()"
    unfolding validateCodexLeaseRecordFences_def checkRecordFences_iff using facts(6,7) fences(1,2) by auto
  moreover have "\<forall>i \<in> set ids. ri_lane i = requestedDigest cr key"
    using facts(5,7) fences(3) by (metis (no_types, lifting) image_iff subset_iff)
  ultimately show ?thesis
    using lane facts(1-5) by (auto simp: laneFence_def Let_def split: option.splits)
qed

section \<open>A loaded lane\<close>

definition liveKey :: lease_key where
  "liveKey = \<lparr>key_lane = \<lparr>lk_session = ''s'', lk_thread = ''t'', lk_namespace = CodexResponsesNamespace\<rparr>, key_turn = ''u''\<rparr>"

definition livePolicy :: authority_policy where
  "livePolicy = \<lparr>ap_epoch = 1, ap_auth = True, ap_retained = []\<rparr>"

definition liveStore :: store where
  "liveStore = loadedStore (Some [1]) 3600 liveJournal []"

definition liveRestored :: restored_lane where
  "liveRestored = projr (hydrateLane plainCrypto liveJournal liveKey [''a''] livePolicy True)"

lemma liveJournal_separate: "digestsSeparate plainCrypto liveJournal liveKey"
  by code_simp

lemma live_hydrated:
  "(case hydrateLane plainCrypto liveJournal liveKey [''a''] livePolicy True of Inl _ \<Rightarrow> False | Inr _ \<Rightarrow> True) \<and>
   (case MutationFence liveRestored [Identity plainCrypto liveRecord] of Inl _ \<Rightarrow> False | Inr _ \<Rightarrow> True)"
  unfolding liveRestored_def by code_simp

lemma live_guards: "loadRefusal calm liveKey livePolicy liveStore = Inr () \<and>
   validateCodexLeaseRepresentedModes (representedCodexLeaseAuthoritativeEpochs (jn_records liveJournal)) [1] = Inr () \<and>
   policyRetained [1] livePolicy = Inr ()"
  by code_simp

lemma isr_projr: "(case x of Inl _ \<Rightarrow> False | Inr _ \<Rightarrow> True) \<Longrightarrow> x = Inr (projr x)"
  by (cases x) auto

lemma live_loaded:
  "loadLane plainCrypto calm liveKey [''a''] livePolicy True False (liveStore, []) = (Inr liveRestored, (liveStore, []))"
proof -
  have "st_journal liveStore = Some liveJournal" "modeEpochs liveStore = [1]"
    by (simp_all add: liveStore_def loadedStore_def modeEpochs_def)
  moreover have "cu_state (jn_cutover liveJournal) = CodexLeaseCutoverComplete" "cu_no_legacy_authority (jn_cutover liveJournal)"
    by (simp_all add: liveJournal_def)
  moreover have "CodexLeaseCutoverComplete \<noteq> CodexLeaseCutoverLegacyQuarantine"
    by (simp add: CodexLeaseCutoverComplete_def CodexLeaseCutoverLegacyQuarantine_def)
  moreover have "hydrateLane plainCrypto liveJournal liveKey [''a''] livePolicy True = Inr liveRestored"
    using isr_projr [OF conjunct1 [OF live_hydrated]] by (simp add: liveRestored_def)
  ultimately have "readLane plainCrypto liveStore liveKey [''a''] livePolicy True = Inr liveRestored"
    using live_guards by (simp add: readLane_def)
  then show ?thesis using live_guards by (simp add: loadLane_def)
qed

lemma live_journal: "st_journal liveStore = Some liveJournal"
  by (simp add: liveStore_def loadedStore_def)

theorem loaded_turn_class_witness:
  "turnClass plainCrypto livePolicy (gf_current (rl_fence liveRestored)) (turnRecords plainCrypto liveKey liveJournal) =
   Some (rl_class liveRestored)"
  using loaded_turn_class [OF live_loaded live_journal liveJournal_valid(2) plainCrypto_bytes liveJournal_separate] by simp

theorem loaded_fence_exact_witness:
  "validateCodexLeaseRecordFences plainCrypto
     (gf_records (projr (MutationFence liveRestored [Identity plainCrypto liveRecord]))) (jn_records liveJournal) = Inr ()"
  using loaded_fence_exact [OF live_loaded live_journal isr_projr [OF conjunct2 [OF live_hydrated]]
      liveJournal_valid(2) plainCrypto_bytes liveJournal_separate] by simp

end
