(* ===== verification/LeaseHandle.thy ===== *)
theory LeaseHandle
  imports LaneLoad
begin

text \<open>
  The request handle of the durable lease runtime (\<open>CodexLeaseRequestHandle\<close> in
  \<open>internal/proxy/codex_lease_v2_runtime.go\<close>): a snapshot of one request with the fence it was
  taken under, and the transitions that carry the request through dispatch, admission,
  completion, failure and draining. Every transition refreshes the fence against the store,
  builds the record it wants and commits it; the handle it returns is made from the record the
  store installed. What contexts, gates, locks and the account revalidator answer during a call
  is its environment. A nil handle, runtime or context is refused by the code and not modelled.
\<close>

section \<open>The environment of a call\<close>

datatype check_site = AtEntry | AfterLock | AfterFence | InLifecycle | BeforeRevalidate | AfterRevalidate

record call_env =
  ce_context :: "check_site \<Rightarrow> string option" \<comment> \<open>what \<open>ctx.Err()\<close> returns there\<close>
  ce_lock :: "string option" \<comment> \<open>the context ended while waiting for the lifecycle lock\<close>
  ce_unavailable :: bool \<comment> \<open>the writer is closed\<close>
  ce_gate :: "account_key \<Rightarrow> runtime_error option"
  ce_revalidate :: "account_key \<Rightarrow> string option"
  ce_sink :: "bool option" \<comment> \<open>the admission sink, and whether it takes the observation\<close>
  ce_load :: io
  ce_reserve :: io
  ce_reload :: io
  ce_commit :: io

definition contextErr :: "call_env \<Rightarrow> check_site \<Rightarrow> runtime_error + unit" where
  "contextErr env site = (case ce_context env site of None \<Rightarrow> Inr () | Some m \<Rightarrow> Inl (Cancelled m))"

definition writerAvailable :: "call_env \<Rightarrow> runtime_error + unit" where
  "writerAvailable env = failIf (ce_unavailable env) (LeaseFault ErrWriterUnavailable)"

definition beginLifecycleMutation :: "call_env \<Rightarrow> runtime_error + unit" where
  "beginLifecycleMutation env = writerAvailable env"

definition beginLifecycleMutationContext :: "call_env \<Rightarrow> runtime_error + unit" where
  "beginLifecycleMutationContext env =
     (case ce_lock env of Some m \<Rightarrow> Inl (Cancelled m)
      | None \<Rightarrow> andThen (contextErr env InLifecycle) (\<lambda>_. writerAvailable env))"

definition acquireGate :: "call_env \<Rightarrow> account_key \<Rightarrow> runtime_error + unit" where
  "acquireGate env account = (case ce_gate env account of None \<Rightarrow> Inr () | Some e \<Rightarrow> Inl e)"

definition beginAccountMutation :: "call_env \<Rightarrow> account_key \<Rightarrow> runtime_error + unit" where
  "beginAccountMutation env account =
     (if account = [] then Inl (LeaseFault ErrWriterUnavailable)
      else andThen (acquireGate env account) (\<lambda>_. beginLifecycleMutationContext env))"

definition revalidateAccountForCommit :: "call_env \<Rightarrow> account_key \<Rightarrow> runtime_error + unit" where
  "revalidateAccountForCommit env account =
     andThen (contextErr env BeforeRevalidate) (\<lambda>_.
     case ce_revalidate env account of
       Some m \<Rightarrow> Inl (RevalidationFault m)
     | None \<Rightarrow> contextErr env AfterRevalidate)"

section \<open>Turn-state rotations\<close>

record turn_rotation =
  tr_identity :: record_identity
  tr_account :: string
  tr_request :: u64
  tr_attempt :: u64
  tr_before :: string
  tr_after :: string

type_synonym rotations = "record_identity \<Rightarrow> turn_rotation option"

definition rotationMatches ::
  "rotations \<Rightarrow> record_identity \<Rightarrow> journal_record \<Rightarrow> string \<Rightarrow> bool" where
  "rotationMatches m i r incoming \<longleftrightarrow> incoming \<noteq> [] \<and>
     (case m i of None \<Rightarrow> False
      | Some t \<Rightarrow> tr_identity t = i \<and> constantTimeCodexLeaseDigestEqual (tr_account t) (jr_account r) \<and>
          tr_request t = cq_generation (jr_request r) \<and> tr_attempt t = cq_current (jr_request r) \<and>
          constantTimeCodexLeaseDigestEqual (tr_before t) incoming \<and>
          constantTimeCodexLeaseDigestEqual (tr_after t) (jr_turn_state r))"

text \<open>
  A rotation is remembered while the same attempt of the same request on the same account
  keeps the turn state it rotated to, and until its socket lineage is extinct.
\<close>

definition reconcile :: "crypto \<Rightarrow> journal_record \<Rightarrow> journal_record \<Rightarrow> rotations \<Rightarrow> rotations" where
  "reconcile cr old new m =
     (let i = Identity cr new; oldQ = jr_request old; newQ = jr_request new in
      if i = zeroIdentity \<or> Identity cr old \<noteq> i \<or> jr_account old = [] \<or>
         \<not> constantTimeCodexLeaseDigestEqual (jr_account old) (jr_account new) \<or>
         cq_generation oldQ \<noteq> cq_generation newQ \<or> cq_current oldQ \<noteq> cq_current newQ \<or> jr_extinct new
      then m(i := None)
      else if jr_has_turn_state old \<and> jr_has_turn_state new \<and>
         \<not> constantTimeCodexLeaseDigestEqual (jr_turn_state old) (jr_turn_state new)
      then m(i \<mapsto> \<lparr>tr_identity = i, tr_account = jr_account new, tr_request = cq_generation newQ,
        tr_attempt = cq_current newQ, tr_before = jr_turn_state old, tr_after = jr_turn_state new\<rparr>)
      else case m i of
          None \<Rightarrow> m(i := None)
        | Some t \<Rightarrow>
            if \<not> constantTimeCodexLeaseDigestEqual (tr_account t) (jr_account new) \<or>
               tr_request t \<noteq> cq_generation newQ \<or> tr_attempt t \<noteq> cq_current newQ \<or>
               \<not> jr_has_turn_state new \<or> \<not> constantTimeCodexLeaseDigestEqual (tr_after t) (jr_turn_state new)
            then m(i := None) else m)"

definition clearRotation :: "record_identity \<Rightarrow> rotations \<Rightarrow> rotations" where
  "clearRotation i m = (if i = zeroIdentity then m else m(i := None))"

section \<open>Runtime and handle\<close>

record runtime_state =
  rt_world :: world
  rt_rotations :: rotations
  rt_observed :: "(u64 \<times> u64) list" \<comment> \<open>first admissions the sink was offered\<close>
  rt_blocked :: bool \<comment> \<open>promotion is blocked by a failing sink\<close>

record request_handle =
  rh_new_turn :: bool
  rh_relatch :: bool
  rh_key :: lease_key
  rh_accounts :: "account_key list"
  rh_authority :: authority_policy
  rh_identity :: record_identity
  rh_record :: journal_record
  rh_account :: account_key
  rh_slots :: "account_key list"
  rh_fence :: generation_fence

text \<open>A step that may fail and then leaves the runtime as it is.\<close>

definition ifOk ::
  "runtime_error + 'a \<Rightarrow> runtime_state \<Rightarrow> ('a \<Rightarrow> (runtime_error + 'b) \<times> runtime_state) \<Rightarrow>
   (runtime_error + 'b) \<times> runtime_state" where
  "ifOk r rt k = (case r of Inl e \<Rightarrow> (Inl e, rt) | Inr x \<Rightarrow> k x)"

lemma ifOk_simps [simp]: "ifOk (Inl e) rt k = (Inl e, rt)" "ifOk (Inr x) rt k = k x"
  by (simp_all add: ifOk_def)

lemma ifOk_Inr_iff [go_simps]: "ifOk r rt k = (Inr y, rt') \<longleftrightarrow> (\<exists>x. r = Inr x \<and> k x = (Inr y, rt'))"
  by (cases r) auto

definition trustLost :: "string \<Rightarrow> runtime_error + 'a" where "trustLost m = Inl (LeaseFault (ErrTrustLost m))"
definition staleFence :: "string \<Rightarrow> runtime_error + 'a" where "staleFence m = Inl (LeaseFault (ErrStaleMutation m))"
definition transitionFault :: "runtime_error + 'a" where "transitionFault = Inl (TurnFault ErrCodexLeaseTransition)"
definition invalidFault :: "string \<Rightarrow> runtime_error + 'a" where "invalidFault m = Inl (LeaseFault (ErrInvalidMutation m))"

lemmas fault_defs [simp] = trustLost_def staleFence_def transitionFault_def invalidFault_def

definition runtimeRecordFence :: "generation_fence \<Rightarrow> record_identity \<Rightarrow> record_fence option" where
  "runtimeRecordFence fence i = find (\<lambda>f. rf_record f = i) (gf_records fence)"

text \<open>A write through the pointer the code gets to the first fence of a record.\<close>

fun updateFirst :: "record_identity \<Rightarrow> (record_fence \<Rightarrow> record_fence) \<Rightarrow> record_fence list \<Rightarrow> record_fence list" where
  "updateFirst i g [] = []"
| "updateFirst i g (f # fs) = (if rf_record f = i then g f # fs else f # updateFirst i g fs)"

definition updateFence ::
  "record_identity \<Rightarrow> (attempt_fence list \<Rightarrow> attempt_fence list) \<Rightarrow> generation_fence \<Rightarrow> generation_fence" where
  "updateFence i g fence = fence\<lparr>gf_records := updateFirst i (\<lambda>f. f\<lparr>rf_attempts := g (rf_attempts f)\<rparr>) (gf_records fence)\<rparr>"

definition clearTouched :: "generation_fence \<Rightarrow> generation_fence" where
  "clearTouched fence = fence\<lparr>gf_records := map (\<lambda>f. f\<lparr>rf_attempts := []\<rparr>) (gf_records fence)\<rparr>"

definition codexLeaseRuntimeMutationRecord :: "journal_record \<Rightarrow> journal_record" where
  "codexLeaseRuntimeMutationRecord r = r\<lparr>jr_generation := 0, jr_lane_generation := 0, jr_pred_generation := 0,
     jr_lease_generation := 0, jr_admitted := False, jr_admission_generation := 0, jr_admission_request := 0,
     jr_admission_kind := [], jr_admission_phase := [], jr_admitted_at := zeroTime, jr_created := zeroTime,
     jr_observed := zeroTime,
     jr_request := (jr_request r)\<lparr>cq_attempts := map (\<lambda>a. a\<lparr>at_revision := 0, at_created := zeroTime,
       at_observed := zeroTime\<rparr>) (cq_attempts (jr_request r))\<rparr>\<rparr>"

text \<open>The loop that sets the state of the current attempt.\<close>

fun setAttemptState :: "u64 \<Rightarrow> attempt_state \<Rightarrow> journal_attempt list \<Rightarrow> journal_attempt list" where
  "setAttemptState g to [] = []"
| "setAttemptState g to (a # as) =
     (if at_generation a = g then a\<lparr>at_state := to\<rparr> # as else a # setAttemptState g to as)"

definition moveCurrent :: "attempt_state \<Rightarrow> journal_record \<Rightarrow> journal_record" where
  "moveCurrent to r = r\<lparr>jr_request := (jr_request r)\<lparr>cq_attempts :=
     setAttemptState (cq_current (jr_request r)) to (cq_attempts (jr_request r))\<rparr>\<rparr>"

definition setRefs :: "int \<Rightarrow> int \<Rightarrow> int \<Rightarrow> journal_record \<Rightarrow> journal_record" where
  "setRefs routing attempt observer r = r\<lparr>jr_request := (jr_request r)\<lparr>cq_routing_refs := routing,
     cq_attempt_refs := attempt, cq_observer_refs := observer\<rparr>\<rparr>"

definition appendSlot :: "u32 \<Rightarrow> journal_record \<Rightarrow> journal_record" where
  "appendSlot slot r = r\<lparr>jr_request := (jr_request r)\<lparr>cq_attempts := cq_attempts (jr_request r) @
     [zeroAttempt\<lparr>at_slot := slot, at_state := AttemptPrepared\<rparr>], cq_current := 0\<rparr>\<rparr>"

definition currentAttemptOf :: "request_handle \<Rightarrow> journal_attempt option" where
  "currentAttemptOf h = requestCurrentAttempt (jr_request (rh_record h))"

section \<open>Refreshing the fence\<close>

definition runtimeMutationFence :: "crypto \<Rightarrow> restored_lane \<Rightarrow> journal_record \<Rightarrow> lease_error + generation_fence" where
  "runtimeMutationFence cr restored r =
     MutationFence restored (Identity cr r # (if jr_pred_turn r \<noteq> [] then [predecessorIdentity cr r] else []))"

fun refreshAttempts :: "attempt_fence list \<Rightarrow> attempt_fence list \<Rightarrow> runtime_error + attempt_fence list" where
  "refreshAttempts fresh [] = Inr []"
| "refreshAttempts fresh (c # cs) =
     (case find (\<lambda>f. af_request f = af_request c \<and> af_generation f = af_generation c) fresh of
        None \<Rightarrow> staleFence ''attempt_generation''
      | Some f \<Rightarrow>
          if af_revision f \<noteq> af_revision c then staleFence ''attempt_revision''
          else andThen (refreshAttempts fresh cs) (\<lambda>rest. Inr (f # rest)))"

definition handlePredecessor :: "request_handle \<Rightarrow> record_identity" where
  "handlePredecessor h = (let r = rh_record h in
     if jr_pred_turn r = [] then zeroIdentity
     else RecordIdentity (ri_lane (rh_identity h)) (jr_pred_turn r) (jr_pred_epoch r) (jr_pred_auth r))"

definition sameVersions :: "record_fence \<Rightarrow> record_fence \<Rightarrow> bool" where
  "sameVersions a b \<longleftrightarrow> rf_revision a = rf_revision b \<and> rf_lease a = rf_lease b \<and>
     rf_request a = rf_request b \<and> rf_current a = rf_current b"

text \<open>The predecessor that retention deleted since the handle was made.\<close>

definition retentionDeletedPredecessor :: "restored_lane \<Rightarrow> request_handle \<Rightarrow> record_fence \<Rightarrow> record_fence \<Rightarrow> bool" where
  "retentionDeletedPredecessor restored h cached fresh \<longleftrightarrow>
     handlePredecessor h \<noteq> zeroIdentity \<and> rf_record cached = handlePredecessor h \<and>
     restoredRecordFor restored (rf_record cached) = None \<and>
     rf_revision cached = jr_pred_generation (rh_record h) \<and> rf_attempts cached = [] \<and>
     rf_revision fresh = 0 \<and> rf_lease fresh = 0 \<and> rf_request fresh = 0 \<and> rf_current fresh = 0 \<and>
     rf_attempts fresh = []"

definition refreshRecord ::
  "restored_lane \<Rightarrow> request_handle \<Rightarrow> generation_fence \<Rightarrow> record_fence \<Rightarrow> runtime_error + generation_fence" where
  "refreshRecord restored h fresh cached =
     (case runtimeRecordFence fresh (rf_record cached) of
        None \<Rightarrow> staleFence ''record_revision''
      | Some f \<Rightarrow>
          if \<not> sameVersions cached f
          then (if retentionDeletedPredecessor restored h cached f then Inr fresh else staleFence ''record_revision'')
          else andThen (refreshAttempts (rf_attempts f) (rf_attempts cached)) (\<lambda>touched.
            Inr (updateFence (rf_record cached) (\<lambda>_. touched) fresh)))"

definition refreshMutationFence ::
  "crypto \<Rightarrow> call_env \<Rightarrow> request_handle \<Rightarrow> runtime_state \<Rightarrow> runtime_error + generation_fence" where
  "refreshMutationFence cr env h rt =
     (if gf_records (rh_fence h) = [] then Inl (LeaseFault ErrWriterUnavailable)
      else andThen (loadLaneSnapshot cr (ce_load env) (rh_key h) (rh_accounts h) (rh_authority h) (fst (rt_world rt)))
        (\<lambda>restored.
         if rl_class restored \<noteq> RestoredCurrent \<or> gf_current (rl_fence restored) \<noteq> rh_identity h
         then (if gf_current (rl_fence restored) = zeroIdentity \<and> gf_last (rl_fence restored) = rh_identity h
           then staleFence ''lane_current'' else Inl (TurnFault ErrCodexStaleTurn))
         else case restoredRecordFor restored (rh_identity h) of
           None \<Rightarrow> trustLost ''current runtime record is absent''
         | Some current \<Rightarrow>
             andThen (liftLease (runtimeMutationFence cr restored (rd_record current))) (\<lambda>fresh.
             if length (gf_records fresh) \<noteq> length (gf_records (rh_fence h)) then staleFence ''record_set''
             else foldE (refreshRecord restored h) fresh (gf_records (rh_fence h)))))"

section \<open>The handle of an installed record\<close>

fun resolveSlots :: "crypto \<Rightarrow> account_key list \<Rightarrow> attempt_slot list \<Rightarrow> runtime_error + account_key list" where
  "resolveSlots cr accounts [] = Inr []"
| "resolveSlots cr accounts (s # ss) =
     (case resolveCodexLeaseAccount cr (sl_account s) accounts of
        None \<Rightarrow> Inl (LeaseFault ErrAuthorityMismatch)
      | Some a \<Rightarrow> andThen (resolveSlots cr accounts ss) (\<lambda>rest. Inr (a # rest)))"

text \<open>The account of the pending attempt, where it is not the bound one yet.\<close>

definition pendingAccountHash :: "journal_record \<Rightarrow> journal_attempt \<Rightarrow> string" where
  "pendingAccountHash r a =
     (if \<not> jr_non_migratable r \<and> (at_state a = AttemptPrepared \<or> at_state a = AttemptDispatched)
      then (case slotAccount (cq_envelope (jr_request r)) (at_slot a) of
          None \<Rightarrow> jr_account r
        | Some account \<Rightarrow>
            if constantTimeCodexLeaseDigestEqual account (jr_account r) then jr_account r else account)
      else jr_account r)"

definition exactRecordFence :: "nat \<Rightarrow> journal_record \<Rightarrow> record_fence \<Rightarrow> bool" where
  "exactRecordFence touched r f \<longleftrightarrow> length (rf_attempts f) = touched \<and> jr_generation r = rf_revision f \<and>
     jr_lease_generation r = rf_lease f \<and> cq_generation (jr_request r) = rf_request f \<and>
     cq_current (jr_request r) = rf_current f"

definition exactAttemptFences :: "journal_record \<Rightarrow> attempt_fence list \<Rightarrow> bool" where
  "exactAttemptFences r fences \<longleftrightarrow> list_all (\<lambda>f.
     case codexLeaseAttemptByGeneration (cq_attempts (jr_request r)) (af_generation f) of
       None \<Rightarrow> False
     | Some a \<Rightarrow> af_request f = cq_generation (jr_request r) \<and> af_revision f = at_revision a) fences"

definition committedRequestHandle ::
  "crypto \<Rightarrow> lease_key \<Rightarrow> account_key list \<Rightarrow> authority_policy \<Rightarrow> record_identity \<Rightarrow> generation_fence \<Rightarrow>
   journal_record \<Rightarrow> bool \<Rightarrow> nat \<Rightarrow> runtime_error + request_handle" where
  "committedRequestHandle cr key accounts authority i post r requireCurrent touched =
     (if Identity cr r \<noteq> i \<or> (requireCurrent \<and> gf_current post \<noteq> i) \<or> (\<not> requireCurrent \<and> gf_last post \<noteq> i)
      then trustLost ''committed request fence is not installed''
      else case runtimeRecordFence post i of
          None \<Rightarrow> trustLost ''committed request record fence mismatch''
        | Some f \<Rightarrow>
      if \<not> exactRecordFence touched r f then trustLost ''committed request record fence mismatch''
      else case requestCurrentAttempt (jr_request r) of
          None \<Rightarrow> trustLost ''committed request attempt fence mismatch''
        | Some a \<Rightarrow>
      if \<not> exactAttemptFences r (rf_attempts f) then trustLost ''committed request attempt fence mismatch''
      else andThen (resolveSlots cr accounts (ae_slots (cq_envelope (jr_request r)))) (\<lambda>slots.
        case resolveCodexLeaseAccount cr (pendingAccountHash r a) accounts of
          None \<Rightarrow> Inl (LeaseFault ErrAuthorityMismatch)
        | Some account \<Rightarrow>
            Inr \<lparr>rh_new_turn = False, rh_relatch = False, rh_key = key, rh_accounts = accounts,
              rh_authority = authority, rh_identity = i, rh_record = r, rh_account = account, rh_slots = slots,
              rh_fence = updateFence i (\<lambda>_. [\<lparr>af_request = cq_generation (jr_request r),
                af_generation = at_generation a, af_revision = at_revision a\<rparr>]) (clearTouched post)\<rparr>))"

section \<open>Committing\<close>

definition noMutation :: lane_mutation where
  "noMutation = \<lparr>lm_lane = None, lm_begin = None, lm_latch = None, lm_unavailable = None, lm_exhausted = None,
     lm_cycle = None, lm_upserts = [], lm_deletes = []\<rparr>"

definition installedRecord :: "crypto \<Rightarrow> world \<Rightarrow> record_identity \<Rightarrow> journal_record option" where
  "installedRecord cr sd i =
     (case st_journal (fst sd) of None \<Rightarrow> None | Some j \<Rightarrow> lookupRecord cr (jn_records j) i)"

definition commitRequestMutationWithLaneMutation ::
  "crypto \<Rightarrow> codec \<Rightarrow> call_env \<Rightarrow> request_handle \<Rightarrow> generation_fence \<Rightarrow> journal_record \<Rightarrow> bool \<Rightarrow> lane_mutation \<Rightarrow>
   runtime_state \<Rightarrow> (runtime_error + request_handle) \<times> runtime_state" where
  "commitRequestMutationWithLaneMutation cr cd env h fence desired requireCurrent mt rt =
     (case runtimeRecordFence fence (rh_identity h) of
        None \<Rightarrow> (trustLost ''request mutation fence is absent'', rt)
      | Some f \<Rightarrow>
          (case commitLane cr cd (ce_commit env) fence (mt\<lparr>lm_upserts := [desired]\<rparr>) (rt_world rt) of
             (Inl e, sd) \<Rightarrow> (Inl (LeaseFault e), rt\<lparr>rt_world := sd\<rparr>)
           | (Inr post, sd) \<Rightarrow>
               (let installed = installedRecord cr sd (rh_identity h);
                    rt' = rt\<lparr>rt_world := sd, rt_rotations := (case installed of None \<Rightarrow> rt_rotations rt
                      | Some r \<Rightarrow> reconcile cr (rh_record h) r (rt_rotations rt))\<rparr>
                in ifOk (committedRequestHandle cr (rh_key h) (rh_accounts h) (rh_authority h) (rh_identity h) post
                    (case installed of None \<Rightarrow> zeroRecord | Some r \<Rightarrow> r) requireCurrent (length (rf_attempts f))) rt'
                  (\<lambda>next. (Inr (next\<lparr>rh_relatch := rh_relatch h\<rparr>), rt')))))"

definition commitRequestMutation ::
  "crypto \<Rightarrow> codec \<Rightarrow> call_env \<Rightarrow> request_handle \<Rightarrow> generation_fence \<Rightarrow> journal_record \<Rightarrow> bool \<Rightarrow>
   runtime_state \<Rightarrow> (runtime_error + request_handle) \<times> runtime_state" where
  "commitRequestMutation cr cd env h fence desired requireCurrent rt =
     commitRequestMutationWithLaneMutation cr cd env h fence desired requireCurrent noMutation rt"

definition commitAccountUnavailableMutation ::
  "crypto \<Rightarrow> codec \<Rightarrow> call_env \<Rightarrow> request_handle \<Rightarrow> generation_fence \<Rightarrow> journal_record \<Rightarrow> bool \<Rightarrow> bool \<Rightarrow>
   runtime_state \<Rightarrow> (runtime_error + request_handle) \<times> runtime_state" where
  "commitAccountUnavailableMutation cr cd env h fence desired requireCurrent quotaExhausted rt =
     commitRequestMutationWithLaneMutation cr cd env h fence desired requireCurrent
       (noMutation\<lparr>lm_unavailable := Some (rh_identity h),
         lm_exhausted := (if quotaExhausted then Some (rh_identity h) else None)\<rparr>) rt"

definition transitionAttemptWithFence ::
  "crypto \<Rightarrow> codec \<Rightarrow> call_env \<Rightarrow> request_handle \<Rightarrow> generation_fence \<Rightarrow> attempt_state \<Rightarrow> attempt_state \<Rightarrow>
   (journal_record \<Rightarrow> runtime_error + journal_record) \<Rightarrow> runtime_state \<Rightarrow>
   (runtime_error + request_handle) \<times> runtime_state" where
  "transitionAttemptWithFence cr cd env h fence from to mutate rt =
     (if attemptState (currentAttemptOf h) \<noteq> from \<or> currentAttemptOf h = None then (transitionFault, rt)
      else ifOk (mutate (moveCurrent to (codexLeaseRuntimeMutationRecord (rh_record h)))) rt (\<lambda>desired.
        commitRequestMutation cr cd env h fence desired True rt))"

definition transitionAttempt ::
  "crypto \<Rightarrow> codec \<Rightarrow> call_env \<Rightarrow> request_handle \<Rightarrow> attempt_state \<Rightarrow> attempt_state \<Rightarrow>
   (journal_record \<Rightarrow> runtime_error + journal_record) \<Rightarrow> runtime_state \<Rightarrow>
   (runtime_error + request_handle) \<times> runtime_state" where
  "transitionAttempt cr cd env h from to mutate rt =
     ifOk (beginLifecycleMutation env) rt (\<lambda>_.
     ifOk (refreshMutationFence cr env h rt) rt (\<lambda>fence.
     transitionAttemptWithFence cr cd env h fence from to mutate rt))"

section \<open>Evidence of the provider\<close>

record admission_evidence =
  ha_turn_state :: string
  ha_has_turn_state :: bool

record response_evidence =
  hr_anchor :: string
  hr_has_anchor :: bool
  hr_has_encrypted :: bool

record socket_evidence =
  wa_downstream :: u64
  wa_upstream :: u64
  wa_turn_state :: string
  wa_has_turn_state :: bool
  wa_response :: string
  wa_created :: bool

definition codexTurnMetadataMaxBytes :: nat where "codexTurnMetadataMaxBytes = 64 * 1024"
definition codexTurnIDMaxBytes :: nat where "codexTurnIDMaxBytes = 4 * 1024"

definition validSocketEvidence :: "socket_evidence \<Rightarrow> lease_error + unit" where
  "validSocketEvidence e = failIf (wa_downstream e = 0 \<or> wa_upstream e = 0 \<or>
     (\<not> wa_has_turn_state e \<and> \<not> wa_created e) \<or> (\<not> wa_created e \<and> wa_response e \<noteq> []))
     (ErrInvalidMutation ''invalid WebSocket admission evidence'')"

definition applyAdmissionEvidence ::
  "crypto \<Rightarrow> request_handle \<Rightarrow> admission_evidence \<Rightarrow> journal_record \<Rightarrow> runtime_error + journal_record" where
  "applyAdmissionEvidence cr h e r =
     (if ha_has_turn_state e \<noteq> (ha_turn_state e \<noteq> []) \<or> length (ha_turn_state e) > codexTurnMetadataMaxBytes
      then invalidFault ''invalid HTTP admission evidence''
      else if \<not> ha_has_turn_state e
      then Inr (if codexLeaseAccountUnavailableAdmission (rh_record h) r
        then r\<lparr>jr_turn_state := [], jr_has_turn_state := False, jr_latch := False\<rparr> else r)
      else if jr_has_turn_state r \<and> \<not> rh_relatch h then Inr r
      else Inr (r\<lparr>jr_turn_state := storeHash cr ''turn-state'' (ha_turn_state e), jr_has_turn_state := True,
        jr_latch := True\<rparr>))"

definition applyResponseEvidence ::
  "crypto \<Rightarrow> response_evidence \<Rightarrow> journal_record \<Rightarrow> runtime_error + journal_record" where
  "applyResponseEvidence cr e r =
     (if hr_has_anchor e \<noteq> (hr_anchor e \<noteq> []) \<or> length (hr_anchor e) > codexTurnIDMaxBytes
      then invalidFault ''invalid HTTP response evidence''
      else let r1 = (if hr_has_anchor e
            then r\<lparr>jr_correlation := storeHash cr ''correlation'' (hr_anchor e), jr_has_anchor := True\<rparr> else r)
        in Inr (if hr_has_encrypted e then r1\<lparr>jr_has_encrypted := True\<rparr> else r1))"

definition applyAccountUnavailableRebind :: "request_handle \<Rightarrow> journal_record \<Rightarrow> runtime_error + journal_record" where
  "applyAccountUnavailableRebind h desired =
     (let r = rh_record h in
      case currentAttemptOf h of None \<Rightarrow> transitionFault
      | Some a \<Rightarrow>
      if at_state a \<noteq> AttemptDispatched then transitionFault
      else case slotAccount (cq_envelope (jr_request r)) (at_slot a) of None \<Rightarrow> transitionFault
      | Some account \<Rightarrow>
      if constantTimeCodexLeaseDigestEqual account (jr_account r) then Inr desired
      else if jr_non_migratable r then transitionFault
      else Inr (desired\<lparr>jr_account := account,
        jr_prev_turn_state := (if jr_prev_turn_state desired = [] \<and> jr_has_turn_state r
          then jr_turn_state r else jr_prev_turn_state desired),
        jr_correlation := [], jr_has_anchor := False\<rparr>))"

section \<open>Dispatch and abandonment\<close>

definition MarkDispatched ::
  "crypto \<Rightarrow> codec \<Rightarrow> call_env \<Rightarrow> request_handle \<Rightarrow> runtime_state \<Rightarrow> (runtime_error + request_handle) \<times> runtime_state" where
  "MarkDispatched cr cd env h rt =
     (if rh_account h = [] then (Inl (LeaseFault ErrWriterUnavailable), rt)
      else ifOk (beginAccountMutation env (rh_account h)) rt (\<lambda>_.
        ifOk (refreshMutationFence cr env h rt) rt (\<lambda>fence.
        ifOk (revalidateAccountForCommit env (rh_account h)) rt (\<lambda>_.
        transitionAttemptWithFence cr cd env h fence AttemptPrepared AttemptDispatched Inr rt))))"

definition markWebSocketReplacementDispatched ::
  "crypto \<Rightarrow> codec \<Rightarrow> call_env \<Rightarrow> u64 \<Rightarrow> u64 \<Rightarrow> request_handle \<Rightarrow> runtime_state \<Rightarrow>
   (runtime_error + request_handle) \<times> runtime_state" where
  "markWebSocketReplacementDispatched cr cd env downstream upstream h rt =
     (let r = rh_record h in
      if rh_account h = [] then (Inl (LeaseFault ErrWriterUnavailable), rt)
      else if downstream = 0 \<or> upstream = 0 \<or> \<not> jr_prewarm r \<or> jr_downstream r \<noteq> downstream \<or>
        jr_upstream r = 0 \<or> jr_upstream r = upstream then (Inl StaleSocketGeneration, rt)
      else ifOk (beginAccountMutation env (rh_account h)) rt (\<lambda>_.
        ifOk (refreshMutationFence cr env h rt) rt (\<lambda>fence.
        ifOk (revalidateAccountForCommit env (rh_account h)) rt (\<lambda>_.
        transitionAttemptWithFence cr cd env h fence AttemptPrepared AttemptDispatched
          (\<lambda>d. Inr (d\<lparr>jr_upstream := upstream, jr_extinct := False\<rparr>)) rt))))"

definition AbandonBeforeDispatch ::
  "crypto \<Rightarrow> codec \<Rightarrow> call_env \<Rightarrow> request_handle \<Rightarrow> runtime_state \<Rightarrow> (runtime_error + request_handle) \<times> runtime_state" where
  "AbandonBeforeDispatch cr cd env h rt =
     (let r = rh_record h in
      ifOk (contextErr env AtEntry) rt (\<lambda>_.
      ifOk (beginLifecycleMutationContext env) rt (\<lambda>_.
      ifOk (contextErr env AfterLock) rt (\<lambda>_.
      ifOk (refreshMutationFence cr env h rt) rt (\<lambda>fence.
      ifOk (contextErr env AfterFence) rt (\<lambda>_.
      if attemptState (currentAttemptOf h) \<noteq> AttemptPrepared \<or> currentAttemptOf h = None \<or>
        (jr_state r \<noteq> LeaseProvisional \<and> jr_state r \<noteq> LeaseBoundActive) then (transitionFault, rt)
      else commitRequestMutation cr cd env h fence
        (setRefs 0 0 0 ((moveCurrent AttemptAbandonedBeforeDispatch (codexLeaseRuntimeMutationRecord r))
          \<lparr>jr_state := (if jr_admitted r then LeaseOrphaned else LeaseProvisional), jr_extinct := True\<rparr>))
        True rt))))))"

section \<open>Rejection and replacement\<close>

definition slotUsed :: "u32 \<Rightarrow> journal_record \<Rightarrow> bool" where
  "slotUsed slot r \<longleftrightarrow> list_ex (\<lambda>a. at_slot a = slot) (cq_attempts (jr_request r))"

definition handleSlotAccount :: "request_handle \<Rightarrow> u32 \<Rightarrow> account_key" where
  "handleSlotAccount h slot = (if unat slot > length (rh_slots h) then [] else rh_slots h ! (unat slot - 1))"

text \<open>The fence of the record with the absent fence of the attempt about to be appended.\<close>

definition appendFence :: "request_handle \<Rightarrow> generation_fence \<Rightarrow> generation_fence" where
  "appendFence h fence = updateFence (rh_identity h)
     (\<lambda>touched. touched @ [\<lparr>af_request = cq_generation (jr_request (rh_record h)), af_generation = 0, af_revision = 0\<rparr>])
     fence"

definition replacementRecord :: "request_handle \<Rightarrow> u32 \<Rightarrow> journal_attempt \<Rightarrow> journal_record" where
  "replacementRecord h slot current =
     (let r = rh_record h; env = cq_envelope (jr_request r);
          desired = appendSlot slot (moveCurrent AttemptProviderFailed (codexLeaseRuntimeMutationRecord r));
          currentAccount = sl_account (ae_slots env ! (unat (at_slot current) - 1))
      in if \<not> jr_admitted r \<or> constantTimeCodexLeaseDigestEqual currentAccount (jr_account r)
         then desired\<lparr>jr_account := sl_account (ae_slots env ! (unat slot - 1))\<rparr> else desired)"

definition RejectAndPrepare ::
  "crypto \<Rightarrow> codec \<Rightarrow> call_env \<Rightarrow> u32 \<Rightarrow> request_handle \<Rightarrow> runtime_state \<Rightarrow>
   (runtime_error + request_handle) \<times> runtime_state" where
  "RejectAndPrepare cr cd env slot h rt =
     (let r = rh_record h; account = handleSlotAccount h slot;
          unadmittedRetry = (jr_state r = LeaseProvisional \<and> \<not> jr_admitted r);
          admittedRetry = (jr_state r = LeaseBoundActive \<and> jr_admitted r \<and> account = rh_account h)
      in if slot = 0 \<or> unat slot > length (ae_slots (cq_envelope (jr_request r)))
      then (invalidFault ''retry slot is outside the frozen envelope'', rt)
      else if account = [] then (Inl (LeaseFault ErrAuthorityMismatch), rt)
      else case currentAttemptOf h of None \<Rightarrow> (transitionFault, rt)
      | Some current \<Rightarrow>
      if at_state current \<noteq> AttemptDispatched \<or> (\<not> unadmittedRetry \<and> \<not> admittedRetry) \<or>
        (jr_non_migratable r \<and> account \<noteq> rh_account h) then (transitionFault, rt)
      else if slotUsed slot r then (invalidFault ''retry slot is already used'', rt)
      else ifOk (acquireGate env account) rt (\<lambda>_.
        ifOk (beginLifecycleMutationContext env) rt (\<lambda>_.
        ifOk (refreshMutationFence cr env h rt) rt (\<lambda>fence.
        case runtimeRecordFence fence (rh_identity h) of
          None \<Rightarrow> (trustLost ''current retry fence is absent'', rt)
        | Some _ \<Rightarrow>
        ifOk (revalidateAccountForCommit env account) rt (\<lambda>_.
        commitRequestMutation cr cd env h (appendFence h fence) (replacementRecord h slot current) True rt)))))"

definition recordAccountUnavailable ::
  "crypto \<Rightarrow> codec \<Rightarrow> call_env \<Rightarrow> u32 \<Rightarrow> bool \<Rightarrow> request_handle \<Rightarrow> runtime_state \<Rightarrow>
   (runtime_error + request_handle) \<times> runtime_state" where
  "recordAccountUnavailable cr cd env slot quotaExhausted h rt =
     (let r = rh_record h; st = attemptState (currentAttemptOf h); account = handleSlotAccount h slot;
          preAdmission = (st = AttemptPrepared \<or> st = AttemptDispatched);
          admittedTerminal = (st = AttemptStreaming \<and> slot = 0 \<and> jr_admitted r);
          unavailable = moveCurrent AttemptAccountUnavailable (codexLeaseRuntimeMutationRecord r)
      in if currentAttemptOf h = None \<or> (\<not> preAdmission \<and> \<not> admittedTerminal) \<or>
        (jr_state r \<noteq> LeaseProvisional \<and> jr_state r \<noteq> LeaseBoundActive) then (transitionFault, rt)
      else if slot \<noteq> 0 \<and> (unat slot > length (ae_slots (cq_envelope (jr_request r))) \<or> account = [])
      then (Inl (LeaseFault ErrAuthorityMismatch), rt)
      else if slot \<noteq> 0 \<and> jr_non_migratable r \<and> account \<noteq> rh_account h then (transitionFault, rt)
      else if slot \<noteq> 0 \<and> slotUsed slot r then (invalidFault ''replacement slot is already used'', rt)
      else ifOk (if slot \<noteq> 0 then acquireGate env account else Inr ()) rt (\<lambda>_.
        ifOk (beginLifecycleMutationContext env) rt (\<lambda>_.
        ifOk (refreshMutationFence cr env h rt) rt (\<lambda>fence.
        if slot \<noteq> 0 then
          (case runtimeRecordFence fence (rh_identity h) of
             None \<Rightarrow> (trustLost ''current replacement fence is absent'', rt)
           | Some _ \<Rightarrow>
             ifOk (revalidateAccountForCommit env account) rt (\<lambda>_.
             commitAccountUnavailableMutation cr cd env h (appendFence h fence) (appendSlot slot unavailable)
               True quotaExhausted rt))
        else commitAccountUnavailableMutation cr cd env h fence
          (setRefs 0 0 0 (unavailable\<lparr>jr_state := (if jr_admitted r then LeaseBoundQuiescent
            else LeaseFailedUnadmitted), jr_extinct := True\<rparr>)) (jr_admitted r) quotaExhausted rt))))"

definition CompleteAccountUnavailableCycle ::
  "crypto \<Rightarrow> codec \<Rightarrow> call_env \<Rightarrow> request_handle \<Rightarrow> runtime_state \<Rightarrow> (runtime_error + request_handle) \<times> runtime_state" where
  "CompleteAccountUnavailableCycle cr cd env h rt =
     (let r = rh_record h in
      if currentAttemptOf h = None \<or> \<not> jr_admitted r \<or> jr_state r \<noteq> LeaseBoundQuiescent \<or>
        attemptState (currentAttemptOf h) \<noteq> AttemptAccountUnavailable \<or> \<not> drained (jr_request r) \<or> \<not> jr_extinct r
      then (transitionFault, rt)
      else ifOk (beginLifecycleMutationContext env) rt (\<lambda>_.
        ifOk (refreshMutationFence cr env h rt) rt (\<lambda>fence.
        case commitLane cr cd (ce_commit env) fence (noMutation\<lparr>lm_cycle := Some (rh_identity h)\<rparr>) (rt_world rt) of
          (Inl e, sd) \<Rightarrow> (Inl (LeaseFault e), rt\<lparr>rt_world := sd\<rparr>)
        | (Inr post, sd) \<Rightarrow>
            (committedRequestHandle cr (rh_key h) (rh_accounts h) (rh_authority h) (rh_identity h) post r True 1,
             rt\<lparr>rt_world := sd\<rparr>))))"

definition FinishRejected ::
  "crypto \<Rightarrow> codec \<Rightarrow> call_env \<Rightarrow> request_handle \<Rightarrow> runtime_state \<Rightarrow> (runtime_error + request_handle) \<times> runtime_state" where
  "FinishRejected cr cd env h rt =
     (let r = rh_record h in
      ifOk (beginLifecycleMutation env) rt (\<lambda>_.
      ifOk (refreshMutationFence cr env h rt) rt (\<lambda>fence.
      if currentAttemptOf h = None \<or> attemptState (currentAttemptOf h) \<noteq> AttemptDispatched then (transitionFault, rt)
      else if \<not> jr_admitted r \<and> jr_state r \<noteq> LeaseProvisional then (transitionFault, rt)
      else commitRequestMutation cr cd env h fence
        (setRefs 0 0 0 ((moveCurrent AttemptProviderFailed (codexLeaseRuntimeMutationRecord r))
          \<lparr>jr_state := (if jr_admitted r then LeaseBoundQuiescent else LeaseFailedUnadmitted), jr_extinct := True\<rparr>))
        (jr_admitted r) rt)))"

definition IndeterminateContext ::
  "crypto \<Rightarrow> codec \<Rightarrow> call_env \<Rightarrow> response_evidence \<Rightarrow> request_handle \<Rightarrow> runtime_state \<Rightarrow>
   (runtime_error + request_handle) \<times> runtime_state" where
  "IndeterminateContext cr cd env e h rt =
     (let r = rh_record h; st = attemptState (currentAttemptOf h) in
      ifOk (if jr_admitted r then beginLifecycleMutationContext env else beginAccountMutation env (rh_account h)) rt (\<lambda>_.
      ifOk (refreshMutationFence cr env h rt) rt (\<lambda>fence.
      if currentAttemptOf h = None \<or> (st \<noteq> AttemptDispatched \<and> st \<noteq> AttemptStreaming) then (transitionFault, rt)
      else ifOk (if jr_admitted r then Inr () else revalidateAccountForCommit env (rh_account h)) rt (\<lambda>_.
        ifOk (applyResponseEvidence cr e (codexLeaseRuntimeMutationRecord r)) rt (\<lambda>d.
        commitRequestMutation cr cd env h fence
          (setRefs 0 0 (if cq_observer_refs (jr_request d) = 0 then 1 else cq_observer_refs (jr_request d))
            ((moveCurrent AttemptIndeterminate d)\<lparr>jr_state := LeaseOrphaned, jr_extinct := False\<rparr>)) True rt)))))"

section \<open>Admission\<close>

definition addRefs :: "journal_record \<Rightarrow> journal_record" where
  "addRefs r = setRefs (cq_routing_refs (jr_request r)) (cq_attempt_refs (jr_request r) + 1)
     (cq_observer_refs (jr_request r) + 1) r"

text \<open>The record an HTTP 2xx response admits, and whether it is the first admission to report.\<close>

definition admittedRecord ::
  "crypto \<Rightarrow> request_handle \<Rightarrow> admission_evidence \<Rightarrow> runtime_error + journal_record \<times> bool" where
  "admittedRecord cr h e =
     (let st = attemptState (currentAttemptOf h); first = (st = AttemptDispatched);
          d0 = codexLeaseRuntimeMutationRecord (rh_record h) in
      if currentAttemptOf h = None \<or> (st \<noteq> AttemptDispatched \<and> st \<noteq> AttemptStreaming) then transitionFault
      else andThen (if first then applyAccountUnavailableRebind h (moveCurrent AttemptStreaming d0) else Inr d0) (\<lambda>d.
        if first \<and> jr_state d \<noteq> LeaseProvisional \<and> jr_state d \<noteq> LeaseBoundActive then transitionFault
        else if \<not> first \<and> (jr_state d \<noteq> LeaseBoundActive \<or> cq_attempt_refs (jr_request d) \<le> 0 \<or>
          cq_observer_refs (jr_request d) \<le> 0) then transitionFault
        else andThen (applyAdmissionEvidence cr h e d) (\<lambda>d1.
          let d2 = d1\<lparr>jr_state := LeaseBoundActive\<rparr>; d3 = (if first then addRefs d2 else d2)
          in Inr (d3, first \<and> \<not> jr_admitted (rh_record h) \<and> jr_auth d3 \<and>
            codexLeaseCurrentRequestCacheEligible d3))))"

definition admitHTTP2xxWithFence ::
  "crypto \<Rightarrow> codec \<Rightarrow> call_env \<Rightarrow> request_handle \<Rightarrow> generation_fence \<Rightarrow> admission_evidence \<Rightarrow> runtime_state \<Rightarrow>
   (runtime_error + request_handle \<times> bool) \<times> runtime_state" where
  "admitHTTP2xxWithFence cr cd env h fence e rt =
     ifOk (admittedRecord cr h e) rt (\<lambda>(desired, firstAdmission).
     case commitRequestMutation cr cd env h fence desired True rt of
       (Inl err, rt') \<Rightarrow> (Inl err, rt')
     | (Inr admitted, rt') \<Rightarrow>
         (Inr (if ha_has_turn_state e then admitted\<lparr>rh_relatch := False\<rparr> else admitted, firstAdmission), rt'))"

text \<open>The observation of a first admission; a sink that fails or panics blocks promotion for good.\<close>

definition observeAdmission :: "call_env \<Rightarrow> request_handle \<Rightarrow> runtime_state \<Rightarrow> runtime_state" where
  "observeAdmission env h rt =
     (case ce_sink env of None \<Rightarrow> rt
      | Some taken \<Rightarrow> rt\<lparr>rt_observed := rt_observed rt @ [(cq_generation (jr_request (rh_record h)),
          cq_current (jr_request (rh_record h)))], rt_blocked := (rt_blocked rt \<or> \<not> taken)\<rparr>)"

definition AdmitHTTP2xx ::
  "crypto \<Rightarrow> codec \<Rightarrow> call_env \<Rightarrow> admission_evidence \<Rightarrow> request_handle \<Rightarrow> runtime_state \<Rightarrow>
   (runtime_error + request_handle) \<times> runtime_state" where
  "AdmitHTTP2xx cr cd env e h rt =
     (if rh_account h = [] then (Inl (LeaseFault ErrWriterUnavailable), rt)
      else ifOk (beginAccountMutation env (rh_account h)) rt (\<lambda>_.
        ifOk (refreshMutationFence cr env h rt) rt (\<lambda>fence.
        ifOk (revalidateAccountForCommit env (rh_account h)) rt (\<lambda>_.
        case admitHTTP2xxWithFence cr cd env h fence e rt of
          (Inl err, rt') \<Rightarrow> (Inl err, rt')
        | (Inr (admitted, firstAdmission), rt') \<Rightarrow>
            (Inr admitted, if firstAdmission then observeAdmission env admitted rt' else rt')))))"

definition socketAdmission :: "crypto \<Rightarrow> request_handle \<Rightarrow> socket_evidence \<Rightarrow> runtime_error + journal_record" where
  "socketAdmission cr h e =
     (let st = attemptState (currentAttemptOf h); first = (st = AttemptDispatched);
          d0 = codexLeaseRuntimeMutationRecord (rh_record h) in
      if currentAttemptOf h = None \<or> (st \<noteq> AttemptDispatched \<and> st \<noteq> AttemptStreaming) then transitionFault
      else if (jr_downstream d0 \<noteq> 0 \<and> jr_downstream d0 \<noteq> wa_downstream e) \<or>
        (jr_upstream d0 \<noteq> 0 \<and> jr_upstream d0 \<noteq> wa_upstream e) then Inl StaleSocketGeneration
      else andThen (if first then applyAccountUnavailableRebind h (moveCurrent AttemptStreaming d0) else Inr d0) (\<lambda>d.
        andThen (applyAdmissionEvidence cr h \<lparr>ha_turn_state = wa_turn_state e,
          ha_has_turn_state = wa_has_turn_state e\<rparr> d) (\<lambda>d1.
        andThen (if wa_response e \<noteq> [] then applyResponseEvidence cr \<lparr>hr_anchor = wa_response e, hr_has_anchor = True,
            hr_has_encrypted = False\<rparr> d1 else Inr d1) (\<lambda>d2.
        let d3 = d2\<lparr>jr_downstream := wa_downstream e, jr_upstream := wa_upstream e, jr_extinct := False,
          jr_state := LeaseBoundActive\<rparr> in Inr (if first then addRefs d3 else d3)))))"

definition AdmitWebSocket ::
  "crypto \<Rightarrow> codec \<Rightarrow> call_env \<Rightarrow> socket_evidence \<Rightarrow> request_handle \<Rightarrow> runtime_state \<Rightarrow>
   (runtime_error + request_handle) \<times> runtime_state" where
  "AdmitWebSocket cr cd env e h rt =
     (if rh_account h = [] then (Inl (LeaseFault ErrWriterUnavailable), rt)
      else ifOk (liftLease (validSocketEvidence e)) rt (\<lambda>_.
        ifOk (beginAccountMutation env (rh_account h)) rt (\<lambda>_.
        ifOk (refreshMutationFence cr env h rt) rt (\<lambda>fence.
        ifOk (revalidateAccountForCommit env (rh_account h)) rt (\<lambda>_.
        ifOk (socketAdmission cr h e) rt (\<lambda>desired.
        case commitRequestMutation cr cd env h fence desired True rt of
          (Inl err, rt') \<Rightarrow> (Inl err, rt')
        | (Inr admitted, rt') \<Rightarrow>
            (Inr (if wa_has_turn_state e then admitted\<lparr>rh_relatch := False\<rparr> else admitted), rt')))))))"

section \<open>Completion, failure and draining\<close>

definition completionImage :: "crypto \<Rightarrow> response_evidence \<Rightarrow> lease_state \<Rightarrow> journal_record \<Rightarrow> runtime_error + journal_record" where
  "completionImage cr e to d =
     (if jr_state d \<noteq> LeaseBoundActive \<or> cq_observer_refs (jr_request d) \<le> 0 then transitionFault
      else andThen (applyResponseEvidence cr e d) (\<lambda>d1.
        Inr (setRefs 0 0 (cq_observer_refs (jr_request d1)) (d1\<lparr>jr_state := to\<rparr>))))"

definition ProviderCompleted ::
  "crypto \<Rightarrow> codec \<Rightarrow> call_env \<Rightarrow> response_evidence \<Rightarrow> bool \<Rightarrow> request_handle \<Rightarrow> runtime_state \<Rightarrow>
   (runtime_error + request_handle) \<times> runtime_state" where
  "ProviderCompleted cr cd env e endTurn h rt =
     transitionAttempt cr cd env h AttemptStreaming AttemptProviderCompleted
       (completionImage cr e (if endTurn then LeaseBoundQuiescent else LeaseContinuationPending)) rt"

definition ProviderFailed ::
  "crypto \<Rightarrow> codec \<Rightarrow> call_env \<Rightarrow> response_evidence \<Rightarrow> request_handle \<Rightarrow> runtime_state \<Rightarrow>
   (runtime_error + request_handle) \<times> runtime_state" where
  "ProviderFailed cr cd env e h rt =
     transitionAttempt cr cd env h AttemptStreaming AttemptProviderFailed (completionImage cr e LeaseBoundQuiescent) rt"

definition drainedRecord :: "journal_record \<Rightarrow> journal_record" where
  "drainedRecord r =
     (let q = jr_request r; observer = cq_observer_refs q - 1;
          d = setRefs (cq_routing_refs q) (cq_attempt_refs q) observer (codexLeaseRuntimeMutationRecord r)
      in if cq_routing_refs q = 0 \<and> cq_attempt_refs q = 0 \<and> observer = 0 then d\<lparr>jr_extinct := True\<rparr> else d)"

definition Drain ::
  "crypto \<Rightarrow> codec \<Rightarrow> call_env \<Rightarrow> request_handle \<Rightarrow> runtime_state \<Rightarrow> (runtime_error + request_handle) \<times> runtime_state" where
  "Drain cr cd env h rt =
     (let r = rh_record h in
      ifOk (beginLifecycleMutation env) rt (\<lambda>_.
      ifOk (refreshMutationFence cr env h rt) rt (\<lambda>fence.
      if \<not> codexLeaseAttemptTerminalForRequest (codexLeaseCurrentAttemptState r) \<or> cq_observer_refs (jr_request r) \<le> 0
      then (transitionFault, rt)
      else case runtimeRecordFence fence (rh_identity h) of
          None \<Rightarrow> (trustLost ''current drain fence is absent'', rt)
        | Some _ \<Rightarrow> commitRequestMutation cr cd env h (updateFence (rh_identity h) (\<lambda>_. []) fence) (drainedRecord r) True rt)))"

section \<open>The commands of a handle\<close>

datatype handle_command =
    Dispatch
  | DispatchReplacement u64 u64
  | Abandon
  | Reject u32
  | Unavailable u32 bool
  | CompleteCycle
  | FinishReject
  | MarkIndeterminate response_evidence
  | AdmitHTTP admission_evidence
  | AdmitSocket socket_evidence
  | Completed response_evidence bool
  | Failed response_evidence
  | DrainObserver

fun runHandle ::
  "crypto \<Rightarrow> codec \<Rightarrow> call_env \<Rightarrow> handle_command \<Rightarrow> request_handle \<Rightarrow> runtime_state \<Rightarrow>
   (runtime_error + request_handle) \<times> runtime_state" where
  "runHandle cr cd env Dispatch h rt = MarkDispatched cr cd env h rt"
| "runHandle cr cd env (DispatchReplacement d u) h rt = markWebSocketReplacementDispatched cr cd env d u h rt"
| "runHandle cr cd env Abandon h rt = AbandonBeforeDispatch cr cd env h rt"
| "runHandle cr cd env (Reject slot) h rt = RejectAndPrepare cr cd env slot h rt"
| "runHandle cr cd env (Unavailable slot quota) h rt = recordAccountUnavailable cr cd env slot quota h rt"
| "runHandle cr cd env CompleteCycle h rt = CompleteAccountUnavailableCycle cr cd env h rt"
| "runHandle cr cd env FinishReject h rt = FinishRejected cr cd env h rt"
| "runHandle cr cd env (MarkIndeterminate e) h rt = IndeterminateContext cr cd env e h rt"
| "runHandle cr cd env (AdmitHTTP e) h rt = AdmitHTTP2xx cr cd env e h rt"
| "runHandle cr cd env (AdmitSocket e) h rt = AdmitWebSocket cr cd env e h rt"
| "runHandle cr cd env (Completed e endTurn) h rt = ProviderCompleted cr cd env e endTurn h rt"
| "runHandle cr cd env (Failed e) h rt = ProviderFailed cr cd env e h rt"
| "runHandle cr cd env DrainObserver h rt = Drain cr cd env h rt"

end
