(* ===== verification/HandleSafety.thy ===== *)
theory HandleSafety
  imports LeaseHandle
begin

text \<open>
  What the request handles of \<open>LeaseHandle\<close> guarantee: a transition is built on the record the
  store holds, at the revision the handle was taken at; the handle it returns is that of the
  record it installed; a handle that was used successfully can change nothing any more.
\<close>

section \<open>Refreshing the fence\<close>





lemma updateFence_header [simp]:
  "gf_journal (updateFence i g fence) = gf_journal fence" "gf_lane (updateFence i g fence) = gf_lane fence"
  "gf_current (updateFence i g fence) = gf_current fence" "gf_last (updateFence i g fence) = gf_last fence"
  by (simp_all add: updateFence_def)









section \<open>What a commit installs\<close>


text \<open>
  No operation of a handle brings a record back: a record of the journal after it was there
  before, at the same revision or a lower one.
\<close>

definition recordsForward :: "crypto \<Rightarrow> journal \<Rightarrow> journal \<Rightarrow> bool" where
  "recordsForward cr j j' \<longleftrightarrow> (\<forall>r' \<in> set (jn_records j'). \<exists>r \<in> set (jn_records j).
     Identity cr r = Identity cr r' \<and> jr_generation r \<le> jr_generation r')"

lemma recordsForward_refl [simp]: "recordsForward cr j j"
  by (auto simp: recordsForward_def)


lemma forward_lookup:
  assumes "recordsForward cr j j'" and "distinctIds cr (jn_records j)" and "lookupRecord cr (jn_records j') i = Some r'"
  shows "\<exists>r. lookupRecord cr (jn_records j) i = Some r \<and> jr_generation r \<le> jr_generation r'"
proof -
  have "r' \<in> set (jn_records j')" "Identity cr r' = i" using assms(3) by (auto simp: lookupRecord_def find_Some_iff)
  with assms(1,2) show ?thesis by (auto simp: recordsForward_def lookup_iff)
qed


lemma stamp_generation [simp]: "jr_generation (stampLaneGeneration cr e u r) = jr_generation r"
  by (simp add: stampLaneGeneration_def split: option.splits)







section \<open>What a command wants installed\<close>


lemma Identity_cong:
  "jr_session a = jr_session b \<Longrightarrow> jr_thread a = jr_thread b \<Longrightarrow> jr_namespace a = jr_namespace b \<Longrightarrow>
   jr_turn a = jr_turn b \<Longrightarrow> jr_epoch a = jr_epoch b \<Longrightarrow> jr_auth a = jr_auth b \<Longrightarrow> Identity cr a = Identity cr b"
  by (simp add: Identity_def)

lemma image_identity [simp]:
  "Identity cr (codexLeaseRuntimeMutationRecord r) = Identity cr r" "Identity cr (moveCurrent to r) = Identity cr r"
  "Identity cr (setRefs a b c r) = Identity cr r" "Identity cr (appendSlot slot r) = Identity cr r"
  "Identity cr (addRefs r) = Identity cr r" "Identity cr (drainedRecord r) = Identity cr r"
  by (rule Identity_cong; simp add: codexLeaseRuntimeMutationRecord_def moveCurrent_def setRefs_def appendSlot_def
    addRefs_def drainedRecord_def Let_def)+

lemma field_identity [simp]:
  "Identity cr (r\<lparr>jr_state := s\<rparr>) = Identity cr r" "Identity cr (r\<lparr>jr_extinct := b\<rparr>) = Identity cr r"
  "Identity cr (r\<lparr>jr_upstream := u\<rparr>) = Identity cr r" "Identity cr (r\<lparr>jr_downstream := u\<rparr>) = Identity cr r"
  "Identity cr (r\<lparr>jr_account := a\<rparr>) = Identity cr r"
  by (rule Identity_cong; simp)+




section \<open>Every command is one refresh and one commit\<close>

definition availabilityOnly :: "lane_mutation \<Rightarrow> bool" where
  "availabilityOnly mt \<longleftrightarrow> (\<exists>u q. mt = noMutation\<lparr>lm_unavailable := u, lm_exhausted := q\<rparr>)"

lemma availabilityOnly_intros [simp]:
  "availabilityOnly noMutation" "availabilityOnly (noMutation\<lparr>lm_unavailable := u, lm_exhausted := q\<rparr>)"
proof -
  have "noMutation = noMutation\<lparr>lm_unavailable := None, lm_exhausted := None\<rparr>" by (simp add: noMutation_def)
  then show "availabilityOnly noMutation" unfolding availabilityOnly_def by blast
qed (auto simp: availabilityOnly_def)




















section \<open>Handles the runtime issues\<close>

text \<open>A handle is a snapshot of one record, with a fence for it at the snapshot's revision.\<close>

definition issued :: "crypto \<Rightarrow> request_handle \<Rightarrow> bool" where
  "issued cr h \<longleftrightarrow> Identity cr (rh_record h) = rh_identity h \<and>
     (\<exists>f \<in> set (gf_records (rh_fence h)). rf_record f = rh_identity h \<and> rf_revision f = jr_generation (rh_record h))"

lemma issued_relatch [simp]: "issued cr (h\<lparr>rh_relatch := b\<rparr>) = issued cr h"
  by (simp add: issued_def)





section \<open>A handle is used once\<close>

text \<open>The journal of a world after a step holds no record that was not there, and none is older.\<close>

definition worldForward :: "crypto \<Rightarrow> world \<Rightarrow> world \<Rightarrow> bool" where
  "worldForward cr sd sd' \<longleftrightarrow> (\<forall>j'. st_journal (fst sd') = Some j' \<longrightarrow>
     (\<exists>j. st_journal (fst sd) = Some j \<and> recordsForward cr j j'))"

lemma worldForward_refl [simp]: "worldForward cr sd sd"
  by (simp add: worldForward_def)
























section \<open>A handle that is used\<close>









































end
