(* ===== verification/HandleLifecycle.thy ===== *)
theory HandleLifecycle
  imports HandleSafety
begin

text \<open>
  The life of a request seen through its handles: an abstract machine over the state of the
  current attempt and of the lease, and the proof that every command that succeeds makes one of
  its moves.
\<close>

section \<open>The current attempt of an after-image\<close>








section \<open>What a successful command installs\<close>





section \<open>The machine of a request\<close>



lemma image_fields [simp]:
  "jr_state (codexLeaseRuntimeMutationRecord r) = jr_state r" "jr_state (moveCurrent to r) = jr_state r"
  "jr_state (setRefs x y z r) = jr_state r" "jr_state (appendSlot slot r) = jr_state r" "jr_state (addRefs r) = jr_state r"
  "jr_account (codexLeaseRuntimeMutationRecord r) = jr_account r" "jr_account (moveCurrent to r) = jr_account r"
  "jr_account (setRefs x y z r) = jr_account r" "jr_account (appendSlot slot r) = jr_account r" "jr_account (addRefs r) = jr_account r"
  by (simp_all add: codexLeaseRuntimeMutationRecord_def moveCurrent_def setRefs_def appendSlot_def addRefs_def)

lemma setAttemptState_find:
  "codexLeaseAttemptByGeneration (setAttemptState g to as) g = map_option (\<lambda>a. a\<lparr>at_state := to\<rparr>) (codexLeaseAttemptByGeneration as g)"
  by (induction as) (auto simp: codexLeaseAttemptByGeneration_def)

lemma mutation_attempt:
  "requestCurrentAttempt (jr_request (codexLeaseRuntimeMutationRecord r)) =
   map_option (\<lambda>a. a\<lparr>at_revision := 0, at_created := zeroTime, at_observed := zeroTime\<rparr>) (requestCurrentAttempt (jr_request r))"
proof -
  have "find (\<lambda>a. at_generation a = g) (map (\<lambda>a. a\<lparr>at_revision := 0, at_created := zeroTime, at_observed := zeroTime\<rparr>) as) =
    map_option (\<lambda>a. a\<lparr>at_revision := 0, at_created := zeroTime, at_observed := zeroTime\<rparr>) (find (\<lambda>a. at_generation a = g) as)"
    for as g by (induction as) auto
  then show ?thesis by (simp add: codexLeaseRuntimeMutationRecord_def codexLeaseAttemptByGeneration_def)
qed

definition currentStateOf :: "journal_record \<Rightarrow> attempt_state option" where
  "currentStateOf r = map_option at_state (requestCurrentAttempt (jr_request r))"

lemma currentStateOf_image [simp]:
  "currentStateOf (codexLeaseRuntimeMutationRecord r) = currentStateOf r"
  "currentStateOf (moveCurrent to r) = (if currentStateOf r = None then None else Some to)"
  "currentStateOf (setRefs x y z r) = currentStateOf r" "currentStateOf (addRefs r) = currentStateOf r"
  "currentStateOf (r\<lparr>jr_state := s\<rparr>) = currentStateOf r" "currentStateOf (r\<lparr>jr_extinct := b\<rparr>) = currentStateOf r"
  "currentStateOf (r\<lparr>jr_upstream := u\<rparr>) = currentStateOf r" "currentStateOf (r\<lparr>jr_downstream := u\<rparr>) = currentStateOf r"
  by (simp_all add: currentStateOf_def mutation_attempt option.map_comp o_def moveCurrent_def setAttemptState_find
    setRefs_def addRefs_def)









section \<open>Commands make the machine's moves\<close>










section \<open>A request is sent once\<close>









section \<open>Witnesses\<close>




end
