(* ===== verification/CapacityLedger.thy ===== *)
theory CapacityLedger
  imports Complex_Main Models "HOL-Library.AList"
begin

text \<open>
  The capacity ledger of \<open>internal/proxy/codex_capacity.go\<close>, with the quota windows and reset
  events of \<open>codex_quota_reset.go\<close> and \<open>codex_reserve.go\<close>: what upstream responses, cached usage
  and failed requests say about an account's quota, and the admission view derived from it. Every
  method that takes the ledger's mutex is one definition on its state; the clock is an argument,
  and so is the verdict of the reserve. A Go map that is iterated is an association list.
\<close>

section \<open>Facts\<close>

text \<open>A \<open>float64\<close> as far as comparisons with 0 and 100 see it.\<close>

datatype go_float = Finite rat | NotANumber | PosInf | NegInf

fun positiveFloat :: "go_float \<Rightarrow> bool" where
  "positiveFloat (Finite r) \<longleftrightarrow> r > 0"
| "positiveFloat PosInf \<longleftrightarrow> True"
| "positiveFloat _ \<longleftrightarrow> False"

fun zeroFloat :: "go_float \<Rightarrow> bool" where
  "zeroFloat (Finite r) \<longleftrightarrow> r = 0"
| "zeroFloat _ \<longleftrightarrow> False"

fun percentFloat :: "go_float \<Rightarrow> bool" \<comment> \<open>between 0 and 100\<close> where
  "percentFloat (Finite r) \<longleftrightarrow> 0 \<le> r \<and> r \<le> 100"
| "percentFloat _ \<longleftrightarrow> False"

record quota_window =
  qw_pct :: int
  qw_exact :: "go_float option"
  qw_reset :: int

definition windowRemaining :: "quota_window \<Rightarrow> go_float" where
  "windowRemaining w = (case qw_exact w of Some v \<Rightarrow> v | None \<Rightarrow> Finite (of_int (qw_pct w)))"

text \<open>An exact remainder that is positive and at most 100.\<close>

definition positiveWindow :: "quota_window \<Rightarrow> bool" where
  "positiveWindow w \<longleftrightarrow> qw_exact w \<noteq> None \<and> positiveFloat (windowRemaining w) \<and> percentFloat (windowRemaining w)"

definition CapacitySourceUsageCache :: nat where "CapacitySourceUsageCache = 1"
definition CapacitySourceHardLimit :: nat where "CapacitySourceHardLimit = 2"
definition CapacitySourceHTTPHeaders :: nat where "CapacitySourceHTTPHeaders = 3"
definition CapacitySourceLiveUsage :: nat where "CapacitySourceLiveUsage = 4"
definition CapacitySourceLiveRateLimits :: nat where "CapacitySourceLiveRateLimits = 5"

definition CapacityConfidenceAdvisory :: nat where "CapacityConfidenceAdvisory = 1"
definition CapacityConfidenceAuthoritative :: nat where "CapacityConfidenceAuthoritative = 2"

lemmas sources = CapacitySourceUsageCache_def CapacitySourceHardLimit_def CapacitySourceHTTPHeaders_def
  CapacitySourceLiveUsage_def CapacitySourceLiveRateLimits_def CapacityConfidenceAdvisory_def
  CapacityConfidenceAuthoritative_def

record capacity_fact =
  cf_windows :: "(string \<times> quota_window) list"
  cf_account :: account_key
  cf_bucket :: capacity_bucket
  cf_remaining :: int
  cf_source :: nat
  cf_sequence :: u64
  cf_generation :: u64
  cf_observed :: gotime
  cf_reset :: gotime
  cf_confidence :: nat

type_synonym fact_key = "account_key \<times> capacity_bucket \<times> nat"

definition factKey :: "capacity_fact \<Rightarrow> fact_key" where
  "factKey f = (cf_account f, cf_bucket f, cf_source f)"

text \<open>Seconds since 1970, and back; the zero time of Go is the year 1.\<close>

definition unixEpoch :: int where "unixEpoch = 62135596800"

definition timeUnix :: "int \<Rightarrow> gotime" where
  "timeUnix seconds = GoTime ((seconds + unixEpoch) * 10 ^ 9) False"

definition unixSeconds :: "gotime \<Rightarrow> int" where
  "unixSeconds t = gt_ns t div 10 ^ 9 - unixEpoch"

section \<open>Window names\<close>

text \<open>A window is named by its duration, with a model after a colon when it is not shared.\<close>

definition Window5Hour :: string where "Window5Hour = ''5h''"
definition Window7Day :: string where "Window7Day = ''7d''"

definition BaseWindow :: "string \<Rightarrow> string" where
  "BaseWindow w = (let base = takeWhile (\<lambda>c. c \<noteq> CHR '':'') w
     in if base = w \<or> base = [] then w else base)"

definition WindowBucket :: "string \<Rightarrow> string" where
  "WindowBucket w = drop 1 (dropWhile (\<lambda>c. c \<noteq> CHR '':'') w)"

definition windowCapacityBucket :: "string \<Rightarrow> capacity_bucket" where
  "windowCapacityBucket name =
     (if WindowBucket name = [] then CapacityBucketBase
      else capacityBucketModelPrefix @ toLower (ParseModel (WindowBucket name)))"

definition canonicalReserveWindow :: "string \<Rightarrow> string" where
  "canonicalReserveWindow name =
     map (\<lambda>c. if c = CHR ''_'' then CHR ''-'' else c) (toLower (trimSpace name))"

definition maxInt64 :: int where "maxInt64 = 2 ^ 63 - 1"
definition secondNs :: int where "secondNs = 10 ^ 9"

fun digitsValue :: "int \<Rightarrow> string \<Rightarrow> int option" where
  "digitsValue acc [] = Some acc"
| "digitsValue acc (c # cs) = (let n = (of_char c :: nat)
     in if 48 \<le> n \<and> n \<le> 57 then digitsValue (acc * 10 + int (n - 48)) cs else None)"

text \<open>\<open>strconv.ParseInt\<close> in base 10 with 64 bits.\<close>

definition parseInt64 :: "string \<Rightarrow> int option" where
  "parseInt64 s =
     (let sign = (if s \<noteq> [] \<and> hd s = CHR ''-'' then - 1 else 1);
          digits = (if s \<noteq> [] \<and> (hd s = CHR ''-'' \<or> hd s = CHR ''+'') then tl s else s)
      in if digits = [] then None
         else case digitsValue 0 digits of
           None \<Rightarrow> None
         | Some n \<Rightarrow> if - maxInt64 - 1 \<le> sign * n \<and> sign * n \<le> maxInt64 then Some (sign * n) else None)"

definition maxPeriodSeconds :: int where "maxPeriodSeconds = maxInt64 div secondNs"

definition WindowNameForPeriod :: "int \<Rightarrow> string option" where
  "WindowNameForPeriod seconds =
     (if seconds \<le> 0 \<or> seconds > maxPeriodSeconds then None
      else Some
        (if seconds mod 86400 = 0 then decimal (nat (seconds div 86400)) @ ''d''
         else if seconds mod 3600 = 0 then decimal (nat (seconds div 3600)) @ ''h''
         else if seconds mod 60 = 0 then decimal (nat (seconds div 60)) @ ''m''
         else decimal (nat seconds) @ ''s''))"

definition unitSeconds :: "char \<Rightarrow> int option" where
  "unitSeconds c =
     (if c = CHR ''d'' then Some 86400 else if c = CHR ''h'' then Some 3600
      else if c = CHR ''m'' then Some 60 else if c = CHR ''s'' then Some 1 else None)"

definition durationPeriodFor :: "string \<Rightarrow> int option" where
  "durationPeriodFor name =
     (let base = BaseWindow name
      in if length base < 2 then None
         else case parseInt64 (butlast base) of
           None \<Rightarrow> None
         | Some value \<Rightarrow>
             if value \<le> 0 then None
             else case unitSeconds (last base) of
               None \<Rightarrow> None
             | Some unit \<Rightarrow>
                 if value > maxPeriodSeconds div unit then None
                 else let period = value * unit
                   in if WindowNameForPeriod period = Some base then Some (period * secondNs) else None)"

definition PeriodFor :: "string \<Rightarrow> int" where
  "PeriodFor name =
     (if BaseWindow name \<in> {''pro'', ''flash'', ''^lite''} then 86400 * secondNs
      else case durationPeriodFor name of None \<Rightarrow> 0 | Some period \<Rightarrow> period)"

section \<open>The state\<close>

record window_fact =
  wf_window :: quota_window
  wf_fact :: capacity_fact

record reset_pending =
  rp_event :: string
  rp_in_flight :: bool

record ledger =
  lg_max_age :: int
  lg_facts :: "fact_key \<Rightarrow> capacity_fact option"
  lg_high :: "account_key \<times> capacity_bucket \<Rightarrow> capacity_fact option" \<comment> \<open>livePositiveHighWater\<close>
  lg_suppressed :: "fact_key \<Rightarrow> bool" \<comment> \<open>suppressedHardFences\<close>
  lg_windows :: "account_key \<Rightarrow> (string \<times> window_fact) list"
  lg_included :: "account_key \<Rightarrow> (string \<times> window_fact) list"
  lg_reset_windows :: "account_key \<Rightarrow> (string \<times> window_fact) list"
  lg_reset_pending :: "account_key \<Rightarrow> reset_pending option"
  lg_seq :: u64
  lg_leases :: "account_key \<Rightarrow> int"
  lg_generation :: u64

definition quotaSnapshotMaxAge :: int where "quotaSnapshotMaxAge = 5 * 60 * secondNs"

definition NewCodexCapacityLedger :: "int \<Rightarrow> ledger" where
  "NewCodexCapacityLedger maxAge = \<lparr>lg_max_age = (if maxAge \<le> 0 then quotaSnapshotMaxAge else maxAge),
     lg_facts = (\<lambda>_. None), lg_high = (\<lambda>_. None), lg_suppressed = (\<lambda>_. False), lg_windows = (\<lambda>_. []),
     lg_included = (\<lambda>_. []), lg_reset_windows = (\<lambda>_. []), lg_reset_pending = (\<lambda>_. None), lg_seq = 0,
     lg_leases = (\<lambda>_. 0), lg_generation = 0\<rparr>"

text \<open>One response or connection: a generation of the ledger and its own sequence.\<close>

record observation_stream =
  os_generation :: u64
  os_sequence :: u64

definition NewObservationStream :: "ledger \<Rightarrow> observation_stream \<times> ledger" where
  "NewObservationStream l = (let g = lg_generation l + 1
     in (\<lparr>os_generation = g, os_sequence = 0\<rparr>, l\<lparr>lg_generation := g\<rparr>))"

definition Stamp :: "observation_stream option \<Rightarrow> capacity_fact \<Rightarrow> capacity_fact \<times> observation_stream option" where
  "Stamp stream fct = (case stream of None \<Rightarrow> (fct, None)
     | Some s \<Rightarrow> (let n = os_sequence s + 1
         in (fct\<lparr>cf_generation := os_generation s, cf_sequence := n\<rparr>, Some (s\<lparr>os_sequence := n\<rparr>))))"

definition capacityCursorAfter :: "capacity_fact \<Rightarrow> capacity_fact \<Rightarrow> bool" where
  "capacityCursorAfter next current \<longleftrightarrow>
     (if cf_generation next \<noteq> cf_generation current then cf_generation next > cf_generation current
      else cf_sequence next > cf_sequence current)"

definition capacityFactAdvances :: "capacity_fact \<Rightarrow> capacity_fact \<Rightarrow> bool" where
  "capacityFactAdvances current next \<longleftrightarrow>
     (if cf_source next = CapacitySourceUsageCache then after (cf_observed next) (cf_observed current)
      else capacityCursorAfter next current)"

definition validCapacityFact :: "capacity_fact \<Rightarrow> bool" where
  "validCapacityFact f \<longleftrightarrow>
     \<not> (cf_account f = [] \<or> cf_remaining f < 0 \<or> cf_remaining f > 100 \<or> cf_sequence f = 0) \<and>
     (if cf_source f = CapacitySourceUsageCache
      then cf_confidence f = CapacityConfidenceAdvisory \<and> cf_generation f = 0
      else if cf_source f = CapacitySourceHardLimit
      then cf_confidence f = CapacityConfidenceAuthoritative \<and> cf_generation f > 0 \<and> cf_remaining f = 0
      else if cf_source f \<in> {CapacitySourceHTTPHeaders, CapacitySourceLiveUsage, CapacitySourceLiveRateLimits}
      then cf_confidence f = CapacityConfidenceAuthoritative \<and> cf_generation f > 0
      else False)"

definition livePositive :: "capacity_fact \<Rightarrow> bool" where
  "livePositive f \<longleftrightarrow> (cf_source f = CapacitySourceLiveUsage \<or> cf_source f = CapacitySourceLiveRateLimits) \<and>
     cf_confidence f = CapacityConfidenceAuthoritative \<and> cf_remaining f > 0"

text \<open>
  Whether live evidence of capacity outdates a confirmed usage limit. When the evidence resets
  earlier than the limit, both shared windows have to be positive and one has to reach as far
  as the limit does.
\<close>

definition sharedWindow :: "capacity_fact \<Rightarrow> string \<Rightarrow> bool" where
  "sharedWindow live name \<longleftrightarrow> (case map_of (cf_windows live) name of
     None \<Rightarrow> False
   | Some w \<Rightarrow> positiveWindow w \<and> qw_reset w > unixSeconds (cf_observed live))"

definition reachesReset :: "capacity_fact \<Rightarrow> gotime \<Rightarrow> string \<Rightarrow> bool" where
  "reachesReset live reset name \<longleftrightarrow> (case map_of (cf_windows live) name of
     None \<Rightarrow> False | Some w \<Rightarrow> \<not> before (timeUnix (qw_reset w)) reset)"

definition liveFactLiftsHardFence :: "capacity_fact \<Rightarrow> capacity_fact \<Rightarrow> bool" where
  "liveFactLiftsHardFence live hard \<longleftrightarrow>
     (if \<not> livePositive live then False
      else if \<not> capacityCursorAfter live hard then False
      else if isZeroTime (cf_reset hard) \<or> isZeroTime (cf_reset live) \<or>
        \<not> before (cf_reset live) (cf_reset hard) then True
      else if cf_bucket live \<noteq> CapacityBucketBase \<or> cf_bucket hard \<noteq> CapacityBucketBase \<or>
        \<not> after (cf_observed live) (cf_observed hard) then False
      else sharedWindow live Window5Hour \<and> sharedWindow live Window7Day \<and>
        (reachesReset live (cf_reset hard) Window5Hour \<or> reachesReset live (cf_reset hard) Window7Day))"

definition liveFactLiftsObservedZero :: "capacity_fact \<Rightarrow> capacity_fact \<Rightarrow> bool" where
  "liveFactLiftsObservedZero live zero \<longleftrightarrow>
     (if cf_source live \<noteq> CapacitySourceLiveUsage \<or> cf_confidence live \<noteq> CapacityConfidenceAuthoritative \<or>
        cf_remaining live \<le> 0 \<or> \<not> capacityCursorAfter live zero then False
      else let exhausted = filter (\<lambda>(name, w). qw_exact w \<noteq> None \<and> zeroFloat (windowRemaining w)) (cf_windows zero)
        in exhausted \<noteq> [] \<and> (\<forall>(name, w) \<in> set exhausted.
             case map_of (cf_windows live) name of
               None \<Rightarrow> False
             | Some restored \<Rightarrow> positiveWindow restored \<and> qw_reset w > 0 \<and> qw_reset restored \<ge> qw_reset w))"

section \<open>Observing\<close>

definition storeWindow ::
  "(account_key \<Rightarrow> (string \<times> window_fact) list) \<Rightarrow> capacity_fact \<Rightarrow> string \<Rightarrow> quota_window \<Rightarrow>
   account_key \<Rightarrow> (string \<times> window_fact) list" where
  "storeWindow m fct name w =
     m(cf_account fct := AList.update name \<lparr>wf_window = w, wf_fact = fct\<rparr> (m (cf_account fct)))"

definition observeWindow ::
  "capacity_fact \<Rightarrow> string \<times> quota_window \<Rightarrow> (account_key \<Rightarrow> (string \<times> window_fact) list) \<Rightarrow>
   account_key \<Rightarrow> (string \<times> window_fact) list" where
  "observeWindow fct nw m =
     (let name = canonicalReserveWindow (fst nw); w = snd nw; old = map_of (m (cf_account fct)) name
      in if PeriodFor name \<le> 0 \<or> \<not> percentFloat (windowRemaining w) then m
         else if (case old of None \<Rightarrow> False
           | Some o' \<Rightarrow>
               (cf_generation fct > 0 \<and> cf_generation (wf_fact o') > 0 \<and> \<not> capacityCursorAfter fct (wf_fact o')) \<or>
               before (cf_observed fct) (cf_observed (wf_fact o')) \<or>
               (gt_ns (cf_observed fct) = gt_ns (cf_observed (wf_fact o')) \<and>
                (cf_source fct < cf_source (wf_fact o') \<or>
                 (cf_source fct = cf_source (wf_fact o') \<and> \<not> capacityFactAdvances (wf_fact o') fct)))) then m
         else storeWindow m fct name w)"

definition observeWindowsLocked :: "capacity_fact \<Rightarrow> ledger \<Rightarrow> ledger" where
  "observeWindowsLocked fct l = l\<lparr>lg_windows := fold (observeWindow fct) (cf_windows fct) (lg_windows l)\<rparr>"

definition updateHardFenceState :: "capacity_fact \<Rightarrow> ledger \<Rightarrow> ledger" where
  "updateHardFenceState fct l =
     (let bucketKey = (cf_account fct, cf_bucket fct)
      in if cf_source fct = CapacitySourceHardLimit
         then l\<lparr>lg_suppressed := (lg_suppressed l)(factKey fct :=
           (case lg_high l bucketKey of None \<Rightarrow> False | Some live \<Rightarrow> liveFactLiftsHardFence live fct))\<rparr>
         else if livePositive fct
         then (let l' = l\<lparr>lg_high := (lg_high l)(bucketKey \<mapsto> fct)\<rparr>;
                   hardKey = (cf_account fct, cf_bucket fct, CapacitySourceHardLimit)
               in case lg_facts l' hardKey of
                    None \<Rightarrow> l'
                  | Some hard \<Rightarrow> if liveFactLiftsHardFence fct hard
                      then l'\<lparr>lg_suppressed := (lg_suppressed l')(hardKey := True)\<rparr> else l')
         else l)"

definition observeLocked :: "capacity_fact \<Rightarrow> ledger \<Rightarrow> ledger option" where
  "observeLocked fct l =
     (if \<not> validCapacityFact fct then None
      else if (case lg_facts l (factKey fct) of None \<Rightarrow> False
        | Some current \<Rightarrow> \<not> capacityFactAdvances current fct) then None
      else (let l1 = observeWindowsLocked fct l
            in Some (updateHardFenceState fct (l1\<lparr>lg_facts := (lg_facts l1)(factKey fct \<mapsto> fct)\<rparr>))))"

definition Observe :: "gotime \<Rightarrow> capacity_fact \<Rightarrow> ledger \<Rightarrow> capacity_fact \<times> ledger option" where
  "Observe now f l =
     (let f1 = (if cf_bucket f = [] then f\<lparr>cf_bucket := CapacityBucketBase\<rparr> else f);
          f2 = (if isZeroTime (cf_observed f1) then f1\<lparr>cf_observed := now\<rparr> else f1)
      in if cf_account f = [] \<or> cf_source f = 0 then (f2, None) else (f2, observeLocked f2 l))"

section \<open>Quota windows and resets\<close>

definition includedWindow ::
  "capacity_fact \<Rightarrow> string \<times> quota_window \<Rightarrow> (account_key \<Rightarrow> (string \<times> window_fact) list) \<Rightarrow>
   account_key \<Rightarrow> (string \<times> window_fact) list" where
  "includedWindow f nw m =
     (let name = canonicalReserveWindow (fst nw); w = snd nw
      in if PeriodFor name \<le> 0 \<or> qw_exact w = None \<or> \<not> percentFloat (windowRemaining w) \<or>
           qw_reset w \<le> unixSeconds (cf_observed f) then m
         else if (case map_of (m (cf_account f)) name of None \<Rightarrow> False
           | Some old \<Rightarrow> \<not> capacityCursorAfter f (wf_fact old) \<or>
               before (cf_observed f) (cf_observed (wf_fact old)) \<or> qw_reset w < qw_reset (wf_window old)) then m
         else storeWindow m f name w)"

definition observeIncludedWindowsLocked :: "capacity_fact \<Rightarrow> ledger \<Rightarrow> ledger" where
  "observeIncludedWindowsLocked f l =
     l\<lparr>lg_included := fold (includedWindow f) (cf_windows f) (lg_included l)\<rparr>"

text \<open>
  The reset events: an exact window seen empty and then, within the age limit and with no
  earlier reset, positive again. One event per account waits until it has been delivered.
  \<open>eventID\<close> stands for the idempotency key of the account, the window, the old reset and the
  time of the old observation.
\<close>

definition freshAt :: "ledger \<Rightarrow> gotime \<Rightarrow> gotime \<Rightarrow> bool" where
  "freshAt l now observed \<longleftrightarrow> \<not> after observed now \<and> timeSub now observed < lg_max_age l"

definition resetWindow ::
  "(account_key \<Rightarrow> string \<Rightarrow> int \<Rightarrow> gotime \<Rightarrow> string) \<Rightarrow> gotime \<Rightarrow> capacity_fact \<Rightarrow> string \<times> quota_window \<Rightarrow>
   ledger \<Rightarrow> ledger" where
  "resetWindow eventID now f nw l =
     (let name = fst nw; w = snd nw; account = cf_account f; old = map_of (lg_reset_windows l account) name
      in if (name \<noteq> Window5Hour \<and> name \<noteq> Window7Day) \<or> qw_exact w = None \<or>
           qw_reset w \<le> unixSeconds (cf_observed f) \<or> \<not> percentFloat (windowRemaining w) then l
         else if (case old of None \<Rightarrow> False | Some o' \<Rightarrow> \<not> capacityCursorAfter f (wf_fact o') \<or>
           \<not> after (cf_observed f) (cf_observed (wf_fact o'))) then l
         else (let l' = (case old of None \<Rightarrow> l
             | Some o' \<Rightarrow>
                 if timeSub now (cf_observed (wf_fact o')) < lg_max_age l \<and>
                   zeroFloat (windowRemaining (wf_window o')) \<and> positiveFloat (windowRemaining w) \<and>
                   qw_reset w \<ge> qw_reset (wf_window o') \<and> lg_reset_pending l account = None
                 then l\<lparr>lg_reset_pending := (lg_reset_pending l)(account \<mapsto>
                   \<lparr>rp_event = eventID account name (qw_reset (wf_window o')) (cf_observed (wf_fact o')),
                    rp_in_flight = False\<rparr>)\<rparr>
                 else l)
           in l'\<lparr>lg_reset_windows := storeWindow (lg_reset_windows l') f name w\<rparr>))"

text \<open>
  \<open>observeQuotaReset\<close> up to the point where it releases the mutex; the result is the event to
  deliver. \<open>deliverable\<close> says whether a callback is bound.
\<close>

definition observeQuotaReset ::
  "(account_key \<Rightarrow> string \<Rightarrow> int \<Rightarrow> gotime \<Rightarrow> string) \<Rightarrow> bool \<Rightarrow> gotime \<Rightarrow> capacity_fact \<Rightarrow> ledger \<Rightarrow>
   ledger \<times> string option" where
  "observeQuotaReset eventID deliverable now f l =
     (if \<not> validCapacityFact f \<or> cf_confidence f \<noteq> CapacityConfidenceAuthoritative \<or>
        cf_source f \<notin> {CapacitySourceHTTPHeaders, CapacitySourceLiveUsage, CapacitySourceLiveRateLimits} \<or>
        isZeroTime (cf_observed f) \<or> \<not> freshAt l now (cf_observed f) then (l, None)
      else (let l1 = fold (resetWindow eventID now f) (cf_windows f) (observeIncludedWindowsLocked f l)
            in case lg_reset_pending l1 (cf_account f) of
                 None \<Rightarrow> (l1, None)
               | Some p \<Rightarrow>
                   if rp_in_flight p \<or> \<not> deliverable then (l1, None)
                   else (l1\<lparr>lg_reset_pending := (lg_reset_pending l1)(cf_account f \<mapsto> p\<lparr>rp_in_flight := True\<rparr>)\<rparr>,
                     Some (rp_event p))))"

text \<open>The rest of it, after the callback has returned.\<close>

definition quotaResetDelivered :: "bool \<Rightarrow> account_key \<Rightarrow> ledger \<Rightarrow> ledger" where
  "quotaResetDelivered delivered account l =
     l\<lparr>lg_reset_pending := (lg_reset_pending l)(account :=
       (if delivered then None else map_option (\<lambda>p. p\<lparr>rp_in_flight := False\<rparr>) (lg_reset_pending l account)))\<rparr>"

definition WindowSnapshot :: "ledger \<Rightarrow> account_key \<Rightarrow> (string \<times> quota_window) list \<times> gotime" where
  "WindowSnapshot l account =
     (map (\<lambda>(name, e). (name, wf_window e)) (lg_windows l account),
      foldl (\<lambda>oldest (name, e). if isZeroTime oldest \<or> before (cf_observed (wf_fact e)) oldest
        then cf_observed (wf_fact e) else oldest) zeroTime (lg_windows l account))"

definition windowObservation :: "ledger \<Rightarrow> account_key \<Rightarrow> string \<Rightarrow> (quota_window \<times> gotime) option" where
  "windowObservation l account name =
     map_option (\<lambda>e. (wf_window e, cf_observed (wf_fact e)))
       (map_of (lg_windows l account) (canonicalReserveWindow name))"

section \<open>Snapshots of usage\<close>

record quota_snapshot =
  qs_windows :: "(string \<times> quota_window) list"
  qs_fetched :: gotime
  qs_usable :: bool
  qs_cache_age :: int

record snapshot_aggregate =
  sa_windows :: "(string \<times> quota_window) list"
  sa_remaining :: int
  sa_reset :: gotime

definition resetTime :: "quota_window \<Rightarrow> gotime" where
  "resetTime w = (if qw_reset w > 0 then timeUnix (qw_reset w) else zeroTime)"

definition aggregateWindow :: "string \<times> quota_window \<Rightarrow> snapshot_aggregate option \<Rightarrow> snapshot_aggregate" where
  "aggregateWindow nw current =
     (let w = snd nw; reset = resetTime w
      in case current of
           None \<Rightarrow> \<lparr>sa_windows = [nw], sa_remaining = qw_pct w, sa_reset = reset\<rparr>
         | Some a \<Rightarrow> \<lparr>sa_windows = AList.update (fst nw) w (sa_windows a),
             sa_remaining = (if qw_pct w < sa_remaining a then qw_pct w else sa_remaining a),
             sa_reset = (if isZeroTime (sa_reset a) \<or> (\<not> isZeroTime reset \<and> before reset (sa_reset a))
               then reset else sa_reset a)\<rparr>)"

definition capacitySnapshotAggregates :: "quota_snapshot \<Rightarrow> (capacity_bucket \<times> snapshot_aggregate) list" where
  "capacitySnapshotAggregates snap =
     fold (\<lambda>nw aggregates. let bucket = windowCapacityBucket (fst nw)
       in AList.update bucket (aggregateWindow nw (map_of aggregates bucket)) aggregates) (qs_windows snap) []"

definition aggregateFact :: "account_key \<Rightarrow> quota_snapshot \<Rightarrow> capacity_bucket \<times> snapshot_aggregate \<Rightarrow>
   nat \<Rightarrow> nat \<Rightarrow> u64 \<Rightarrow> capacity_fact" where
  "aggregateFact account snap ba source confidence sequence =
     \<lparr>cf_windows = sa_windows (snd ba), cf_account = account, cf_bucket = fst ba,
      cf_remaining = sa_remaining (snd ba), cf_source = source, cf_sequence = sequence, cf_generation = 0,
      cf_observed = qs_fetched snap, cf_reset = sa_reset (snd ba), cf_confidence = confidence\<rparr>"

definition ObserveQuotaSnapshot :: "account_key \<Rightarrow> quota_snapshot \<Rightarrow> ledger \<Rightarrow> ledger" where
  "ObserveQuotaSnapshot account snap l =
     (if account = [] \<or> qs_windows snap = [] then l
      else fold (\<lambda>ba l. let l1 = l\<lparr>lg_seq := lg_seq l + 1\<rparr>
             in case observeLocked (aggregateFact account snap ba CapacitySourceUsageCache
                  CapacityConfidenceAdvisory (lg_seq l1)) l1 of None \<Rightarrow> l1 | Some l2 \<Rightarrow> l2)
        (capacitySnapshotAggregates snap) l)"

definition freshPositiveSharedQuota :: "quota_snapshot \<Rightarrow> gotime \<Rightarrow> int \<Rightarrow> bool" where
  "freshPositiveSharedQuota snap now maxAge \<longleftrightarrow>
     \<not> (isZeroTime (qs_fetched snap) \<or> after (qs_fetched snap) now \<or> timeSub now (qs_fetched snap) \<ge> maxAge) \<and>
     (let present = filter (\<lambda>name. map_of (qs_windows snap) name \<noteq> None) [Window5Hour, Window7Day]
      in present \<noteq> [] \<and> (\<forall>name \<in> set present. case map_of (qs_windows snap) name of
           None \<Rightarrow> False | Some w \<Rightarrow> positiveWindow w \<and> qw_reset w > unixSeconds now))"

section \<open>The admission view\<close>

definition factStale :: "ledger \<Rightarrow> capacity_fact \<Rightarrow> gotime \<Rightarrow> bool" where
  "factStale l f now \<longleftrightarrow> (\<not> isZeroTime (cf_reset f) \<and> \<not> before now (cf_reset f)) \<or>
     \<not> before now (timeAdd (cf_observed f) (lg_max_age l))"

definition capacitySources :: "nat list" where
  "capacitySources = [CapacitySourceUsageCache, CapacitySourceHardLimit, CapacitySourceHTTPHeaders,
     CapacitySourceLiveUsage, CapacitySourceLiveRateLimits]"

text \<open>A fact that counts at a time: present, not stale, and no usage limit that has been lifted.\<close>

definition standingFact :: "ledger \<Rightarrow> gotime \<Rightarrow> account_key \<Rightarrow> capacity_bucket \<Rightarrow> nat \<Rightarrow> capacity_fact option" where
  "standingFact l now account bucket source =
     (case lg_facts l (account, bucket, source) of
        None \<Rightarrow> None
      | Some f \<Rightarrow>
          if factStale l f now then None
          else if source = CapacitySourceHardLimit \<and> cf_remaining f = 0 \<and>
            lg_suppressed l (account, bucket, source) then None
          else Some f)"

definition standingHard :: "ledger \<Rightarrow> gotime \<Rightarrow> account_key \<Rightarrow> capacity_bucket \<Rightarrow> capacity_fact option" where
  "standingHard l now account bucket =
     (case standingFact l now account bucket CapacitySourceHardLimit of
        None \<Rightarrow> None | Some f \<Rightarrow> if cf_remaining f = 0 then Some f else None)"

definition lastFact :: "capacity_fact option list \<Rightarrow> capacity_fact option" where
  "lastFact fs = foldl (\<lambda>selected f. case f of None \<Rightarrow> selected | Some _ \<Rightarrow> f) None fs"

text \<open>A poll after a reset may know better than the open connection that saw zero.\<close>

definition recoveredFact :: "ledger \<Rightarrow> gotime \<Rightarrow> account_key \<Rightarrow> capacity_bucket \<Rightarrow> capacity_fact \<Rightarrow> capacity_fact" where
  "recoveredFact l now account bucket selected =
     (if cf_source selected = CapacitySourceLiveRateLimits \<and> cf_remaining selected = 0
      then (case lg_facts l (account, bucket, CapacitySourceLiveUsage) of
          None \<Rightarrow> selected
        | Some live \<Rightarrow>
            if \<not> factStale l live now \<and> after (cf_observed live) (cf_observed selected) \<and>
              (liveFactLiftsHardFence live selected \<or> liveFactLiftsObservedZero live selected)
            then live else selected)
      else selected)"

definition factView :: "capacity_fact \<Rightarrow> capacity_view" where
  "factView f = \<lparr>cv_state = (if cf_remaining f \<le> 0
       then (if cf_confidence f = CapacityConfidenceAuthoritative then CapacityZero else CapacityUnknown)
       else CapacityPositive),
     cv_remaining = (if cf_remaining f \<le> 0 \<and> cf_confidence f \<noteq> CapacityConfidenceAuthoritative then - 1
       else cf_remaining f),
     cv_reset = cf_reset f, cv_source = cf_source f, cv_exact = False\<rparr>"

definition capacityLocked :: "ledger \<Rightarrow> gotime \<Rightarrow> account_key \<Rightarrow> capacity_bucket \<Rightarrow> capacity_view option" where
  "capacityLocked l now account bucket =
     (case lastFact (map (standingFact l now account bucket) capacitySources) of
        None \<Rightarrow> None
      | Some chosen \<Rightarrow>
          (let selected = recoveredFact l now account bucket chosen
           in case standingHard l now account bucket of
                Some hard \<Rightarrow> Some (factView (if liveFactLiftsHardFence selected hard then selected else hard))
              | None \<Rightarrow> Some (factView selected)))"

text \<open>\<open>reserve\<close> is the reset of the reserve's block on an account, when there is one.\<close>

definition Capacity ::
  "(account_key \<Rightarrow> int option) \<Rightarrow> ledger \<Rightarrow> gotime \<Rightarrow> account_key \<Rightarrow> capacity_bucket \<Rightarrow> capacity_view" where
  "Capacity reserve l now account bucket0 =
     (case reserve account of
        Some reset \<Rightarrow> (capacityView CapacityZero 0)\<lparr>cv_reset := timeUnix reset, cv_exact := True\<rparr>
      | None \<Rightarrow>
          if account = [] then capacityView CapacityUnknown 0
          else (let bucket = (if bucket0 = [] then CapacityBucketBase else bucket0)
            in case capacityLocked l now account bucket of
                 Some view \<Rightarrow> view\<lparr>cv_exact := True\<rparr>
               | None \<Rightarrow>
                   (case (if bucket \<noteq> CapacityBucketBase then capacityLocked l now account CapacityBucketBase
                       else None) of
                      Some view \<Rightarrow>
                        if cv_state view = CapacityZero then capacityView CapacityUnknown (- 1)
                        else view\<lparr>cv_exact := False\<rparr>
                    | None \<Rightarrow> (capacityView CapacityUnknown 0)\<lparr>cv_exact := (bucket = CapacityBucketBase)\<rparr>)))"

definition includedZero :: "ledger \<Rightarrow> gotime \<Rightarrow> capacity_bucket \<Rightarrow> capacity_view \<Rightarrow> string \<times> window_fact \<Rightarrow> bool" where
  "includedZero l now bucket view ne \<longleftrightarrow>
     (let windowBucket = windowCapacityBucket (fst ne); entry = snd ne
      in (windowBucket = bucket \<or>
          (windowBucket = CapacityBucketBase \<and> \<not> cv_exact view \<and> cv_state view = CapacityPositive)) \<and>
         freshAt l now (cf_observed (wf_fact entry)) \<and> qw_reset (wf_window entry) > unixSeconds now \<and>
         zeroFloat (windowRemaining (wf_window entry)))"

definition IncludedCapacity ::
  "(account_key \<Rightarrow> int option) \<Rightarrow> ledger \<Rightarrow> gotime \<Rightarrow> account_key \<Rightarrow> capacity_bucket \<Rightarrow> capacity_view" where
  "IncludedCapacity reserve l now account bucket0 =
     (let view = Capacity reserve l now account bucket0;
          bucket = (if bucket0 = [] then CapacityBucketBase else bucket0)
      in if cv_state view = CapacityZero then view
         else case find (includedZero l now bucket view) (lg_included l account) of
           Some (_, entry) \<Rightarrow> \<lparr>cv_state = CapacityZero, cv_remaining = 0,
             cv_reset = timeUnix (qw_reset (wf_window entry)), cv_source = cf_source (wf_fact entry), cv_exact = True\<rparr>
         | None \<Rightarrow> view)"

definition SetActiveLeases :: "account_key \<Rightarrow> int \<Rightarrow> ledger \<Rightarrow> ledger" where
  "SetActiveLeases account n l =
     (if account = [] then l else l\<lparr>lg_leases := (lg_leases l)(account := max 0 n)\<rparr>)"

section \<open>Whole calls\<close>

text \<open>
  A call as its goroutine makes it when nobody interferes: the observation, the reset event it
  may complete, and the callback with its verdict (\<open>deliver\<close>; none is bound when it is \<open>None\<close>).
\<close>

definition resetAndDeliver ::
  "(account_key \<Rightarrow> string \<Rightarrow> int \<Rightarrow> gotime \<Rightarrow> string) \<Rightarrow> (string \<Rightarrow> bool) option \<Rightarrow> gotime \<Rightarrow> capacity_fact \<Rightarrow>
   ledger \<Rightarrow> ledger" where
  "resetAndDeliver eventID deliver now f l =
     (case observeQuotaReset eventID (deliver \<noteq> None) now f l of
        (l1, None) \<Rightarrow> l1
      | (l1, Some event) \<Rightarrow>
          quotaResetDelivered (case deliver of None \<Rightarrow> False | Some d \<Rightarrow> d event) (cf_account f) l1)"

definition observeCall ::
  "(account_key \<Rightarrow> string \<Rightarrow> int \<Rightarrow> gotime \<Rightarrow> string) \<Rightarrow> (string \<Rightarrow> bool) option \<Rightarrow> gotime \<Rightarrow> capacity_fact \<Rightarrow>
   ledger \<Rightarrow> bool \<times> ledger" where
  "observeCall eventID deliver now f l =
     (case Observe now f l of
        (_, None) \<Rightarrow> (False, l)
      | (f', Some l1) \<Rightarrow> (True, resetAndDeliver eventID deliver now f' l1))"

definition observeLivePositiveQuotaSnapshot ::
  "(account_key \<Rightarrow> string \<Rightarrow> int \<Rightarrow> gotime \<Rightarrow> string) \<Rightarrow> (string \<Rightarrow> bool) option \<Rightarrow> gotime \<Rightarrow>
   observation_stream \<Rightarrow> account_key \<Rightarrow> quota_snapshot \<Rightarrow> ledger \<Rightarrow> bool \<times> observation_stream \<times> ledger" where
  "observeLivePositiveQuotaSnapshot eventID deliver now stream account snap l =
     (if account = [] \<or> \<not> qs_usable snap \<or> qs_cache_age snap \<noteq> 0 \<or> qs_windows snap = [] then (False, stream, l)
      else fold (\<lambda>ba (confirmed, s, l).
          case Stamp (Some s) (aggregateFact account snap ba CapacitySourceLiveUsage
              CapacityConfidenceAuthoritative 0) of (f, s1) \<Rightarrow>
            let s' = the s1
            in if sa_remaining (snd ba) \<le> 0 then (confirmed, s', resetAndDeliver eventID deliver now f l)
               else (case observeCall eventID deliver now f l of (accepted, l1) \<Rightarrow>
                 (confirmed \<or> (accepted \<and> fst ba = CapacityBucketBase \<and>
                    freshPositiveSharedQuota snap now (lg_max_age l)), s', l1)))
        (capacitySnapshotAggregates snap) (False, stream, l))"

section \<open>The ledger over time\<close>

text \<open>
  The steps any number of goroutines can interleave, each under the mutex, with the facts
  accepted so far, the latest first.
\<close>

inductive ledger_step :: "ledger \<times> capacity_fact list \<Rightarrow> ledger \<times> capacity_fact list \<Rightarrow> bool" where
  accept_step: "observeLocked f l = Some l' \<Longrightarrow> ledger_step (l, h) (l', f # h)"
| reset_step: "observeQuotaReset eventID deliverable now f l = (l', event) \<Longrightarrow> ledger_step (l, h) (l', h)"
| delivered_step: "ledger_step (l, h) (quotaResetDelivered delivered account l, h)"
| count_step: "ledger_step (l, h) (l\<lparr>lg_seq := lg_seq l + 1\<rparr>, h)"
| stream_step: "ledger_step (l, h) (snd (NewObservationStream l), h)"
| leases_step: "ledger_step (l, h) (SetActiveLeases account n l, h)"

definition ledger_initial :: "ledger \<times> capacity_fact list \<Rightarrow> bool" where
  "ledger_initial s \<longleftrightarrow> snd s = [] \<and> (\<exists>maxAge. fst s = NewCodexCapacityLedger maxAge)"

text \<open>
  What the stored facts are: the last accepted one of their source, the latest of it in the
  order of that source, and what a suppressed usage limit rests on.
\<close>

definition ledger_invariant :: "ledger \<times> capacity_fact list \<Rightarrow> bool" where
  "ledger_invariant s \<longleftrightarrow> (case s of (l, h) \<Rightarrow>
     (\<forall>key f. lg_facts l key = Some f \<longrightarrow> f \<in> set h \<and> factKey f = key \<and> validCapacityFact f \<and>
        (\<forall>g \<in> set h. factKey g = key \<longrightarrow> g = f \<or> capacityFactAdvances g f)) \<and>
     (\<forall>g \<in> set h. validCapacityFact g \<and> lg_facts l (factKey g) \<noteq> None) \<and>
     (\<forall>account bucket live. lg_high l (account, bucket) = Some live \<longrightarrow>
        live \<in> set h \<and> cf_account live = account \<and> cf_bucket live = bucket \<and> livePositive live) \<and>
     (\<forall>account bucket hard. lg_suppressed l (account, bucket, CapacitySourceHardLimit) \<longrightarrow>
        lg_facts l (account, bucket, CapacitySourceHardLimit) = Some hard \<longrightarrow>
        (\<exists>live \<in> set h. cf_account live = account \<and> cf_bucket live = bucket \<and>
           liveFactLiftsHardFence live hard)))"

lemma advances_trans:
  "capacityFactAdvances a b \<Longrightarrow> capacityFactAdvances b c \<Longrightarrow> cf_source b = cf_source c \<Longrightarrow> capacityFactAdvances a c"
  by (auto simp: capacityFactAdvances_def capacityCursorAfter_def before_def split: if_splits)

lemma observeWindowsLocked_fields [simp]:
  "lg_facts (observeWindowsLocked f l) = lg_facts l" "lg_high (observeWindowsLocked f l) = lg_high l"
  "lg_suppressed (observeWindowsLocked f l) = lg_suppressed l" "lg_max_age (observeWindowsLocked f l) = lg_max_age l"
  by (simp_all add: observeWindowsLocked_def)

lemma updateHardFenceState_facts [simp]: "lg_facts (updateHardFenceState f l) = lg_facts l"
  "lg_max_age (updateHardFenceState f l) = lg_max_age l"
  by (simp_all add: updateHardFenceState_def Let_def split: option.splits)

lemma resetWindow_fields [simp]:
  "lg_facts (resetWindow e now f nw l) = lg_facts l" "lg_high (resetWindow e now f nw l) = lg_high l"
  "lg_suppressed (resetWindow e now f nw l) = lg_suppressed l"
  "lg_max_age (resetWindow e now f nw l) = lg_max_age l"
  by (simp_all add: resetWindow_def Let_def split: option.splits)

lemma fold_resetWindow_fields [simp]:
  "lg_facts (fold (resetWindow e now f) ws l) = lg_facts l" "lg_high (fold (resetWindow e now f) ws l) = lg_high l"
  "lg_suppressed (fold (resetWindow e now f) ws l) = lg_suppressed l"
  "lg_max_age (fold (resetWindow e now f) ws l) = lg_max_age l"
  by (induction ws arbitrary: l) simp_all

lemma observeQuotaReset_fields:
  assumes "observeQuotaReset e deliverable now f l = (l', event)"
  shows "lg_facts l' = lg_facts l" "lg_high l' = lg_high l" "lg_suppressed l' = lg_suppressed l"
    "lg_max_age l' = lg_max_age l"
  using assms
  by (auto simp: observeQuotaReset_def Let_def observeIncludedWindowsLocked_def split: if_splits option.splits)

lemma ledger_invariant_fields:
  "ledger_invariant (l, h) \<Longrightarrow> lg_facts l' = lg_facts l \<Longrightarrow> lg_high l' = lg_high l \<Longrightarrow>
   lg_suppressed l' = lg_suppressed l \<Longrightarrow> ledger_invariant (l', h)"
  by (simp add: ledger_invariant_def)

lemma observeLocked_fields:
  assumes "observeLocked f l = Some l'"
  shows "validCapacityFact f" "lg_facts l' = (lg_facts l)(factKey f \<mapsto> f)" "lg_max_age l' = lg_max_age l"
    "lg_facts l (factKey f) = Some old \<Longrightarrow> capacityFactAdvances old f"
  using assms by (auto simp: observeLocked_def Let_def split: if_splits option.splits)

lemma livePositive_lifts: "liveFactLiftsHardFence live hard \<Longrightarrow> livePositive live \<and> capacityCursorAfter live hard"
  by (auto simp: liveFactLiftsHardFence_def split: if_splits)

lemma high_after:
  "lg_high (updateHardFenceState f l) =
     (if cf_source f \<noteq> CapacitySourceHardLimit \<and> livePositive f
      then (lg_high l)((cf_account f, cf_bucket f) \<mapsto> f) else lg_high l)"
  by (simp add: updateHardFenceState_def Let_def split: option.splits)

lemma suppressed_after:
  assumes "lg_suppressed (updateHardFenceState f l) (a, b, CapacitySourceHardLimit)"
  shows "(factKey f = (a, b, CapacitySourceHardLimit) \<and>
      (\<exists>live. lg_high l (a, b) = Some live \<and> liveFactLiftsHardFence live f)) \<or>
    (cf_source f \<noteq> CapacitySourceHardLimit \<and> cf_account f = a \<and> cf_bucket f = b \<and>
      (\<exists>hard. lg_facts l (a, b, CapacitySourceHardLimit) = Some hard \<and> liveFactLiftsHardFence f hard)) \<or>
    (factKey f \<noteq> (a, b, CapacitySourceHardLimit) \<and> lg_suppressed l (a, b, CapacitySourceHardLimit))"
  using assms
  by (auto simp: updateHardFenceState_def Let_def factKey_def split: if_splits option.splits)

lemma accept_invariant:
  assumes inv: "ledger_invariant (l, h)" and acc: "observeLocked f l = Some l'"
  shows "ledger_invariant (l', f # h)"
proof -
  define l1 where "l1 = (observeWindowsLocked f l)\<lparr>lg_facts := (lg_facts l)(factKey f \<mapsto> f)\<rparr>"
  have l': "l' = updateHardFenceState f l1"
    using acc by (auto simp: observeLocked_def Let_def l1_def split: if_splits)
  note new = observeLocked_fields [OF acc]
  have l1: "lg_facts l1 = (lg_facts l)(factKey f \<mapsto> f)" "lg_high l1 = lg_high l" "lg_suppressed l1 = lg_suppressed l"
    by (simp_all add: l1_def)
  have facts: "\<forall>key g. lg_facts l key = Some g \<longrightarrow> g \<in> set h \<and> factKey g = key \<and> validCapacityFact g \<and>
      (\<forall>k \<in> set h. factKey k = key \<longrightarrow> k = g \<or> capacityFactAdvances k g)"
    and hist: "\<forall>g \<in> set h. validCapacityFact g \<and> lg_facts l (factKey g) \<noteq> None"
    and high: "\<forall>a b live. lg_high l (a, b) = Some live \<longrightarrow>
      live \<in> set h \<and> cf_account live = a \<and> cf_bucket live = b \<and> livePositive live"
    and supp: "\<forall>a b hard. lg_suppressed l (a, b, CapacitySourceHardLimit) \<longrightarrow>
      lg_facts l (a, b, CapacitySourceHardLimit) = Some hard \<longrightarrow>
      (\<exists>live \<in> set h. cf_account live = a \<and> cf_bucket live = b \<and> liveFactLiftsHardFence live hard)"
    using inv unfolding ledger_invariant_def prod.case by blast+
  have older: "capacityFactAdvances k f" if "k \<in> set h" "factKey k = factKey f" for k
  proof -
    from that hist obtain old where old: "lg_facts l (factKey f) = Some old" by force
    with new(4) have "capacityFactAdvances old f" by blast
    moreover from facts old that have "k = old \<or> capacityFactAdvances k old" "factKey old = factKey f" by blast+
    ultimately show ?thesis by (auto simp: factKey_def intro: advances_trans)
  qed
  have "\<forall>key g. lg_facts l' key = Some g \<longrightarrow> g \<in> set (f # h) \<and> factKey g = key \<and> validCapacityFact g \<and>
      (\<forall>k \<in> set (f # h). factKey k = key \<longrightarrow> k = g \<or> capacityFactAdvances k g)"
    using facts older new(1) by (auto simp: new(2))
  moreover have "\<forall>g \<in> set (f # h). validCapacityFact g \<and> lg_facts l' (factKey g) \<noteq> None"
    using hist new(1) by (auto simp: new(2))
  moreover have "\<forall>a b live. lg_high l' (a, b) = Some live \<longrightarrow>
      live \<in> set (f # h) \<and> cf_account live = a \<and> cf_bucket live = b \<and> livePositive live"
    using high by (auto simp: l' high_after l1 split: if_splits)
  moreover have "\<exists>live \<in> set (f # h). cf_account live = a \<and> cf_bucket live = b \<and> liveFactLiftsHardFence live hard"
    if s: "lg_suppressed l' (a, b, CapacitySourceHardLimit)" and g: "lg_facts l' (a, b, CapacitySourceHardLimit) = Some hard"
    for a b hard
  proof -
    note cases = suppressed_after [OF s [unfolded l'], unfolded l1] and g' = g [unfolded new(2)]
    from cases consider
        (own) live where "factKey f = (a, b, CapacitySourceHardLimit)" "lg_high l (a, b) = Some live"
          "liveFactLiftsHardFence live f"
      | (lifted) hard' where "cf_source f \<noteq> CapacitySourceHardLimit" "cf_account f = a" "cf_bucket f = b"
          "((lg_facts l)(factKey f \<mapsto> f)) (a, b, CapacitySourceHardLimit) = Some hard'"
          "liveFactLiftsHardFence f hard'"
      | (kept) "factKey f \<noteq> (a, b, CapacitySourceHardLimit)" "lg_suppressed l (a, b, CapacitySourceHardLimit)"
      by blast
    then show ?thesis
    proof cases
      case own
      with g' high show ?thesis by auto
    next
      case lifted
      with g' show ?thesis by auto
    next
      case kept
      with g' supp show ?thesis by (simp add: fun_upd_def)
    qed
  qed
  ultimately show ?thesis by (simp add: ledger_invariant_def)
qed

lemma ledger_invariantD:
  assumes "ledger_invariant (l, h)"
  shows "lg_facts l key = Some f \<Longrightarrow> f \<in> set h \<and> factKey f = key \<and> validCapacityFact f \<and>
      (\<forall>g \<in> set h. factKey g = key \<longrightarrow> g = f \<or> capacityFactAdvances g f)"
    "g \<in> set h \<Longrightarrow> validCapacityFact g \<and> (\<exists>f. lg_facts l (factKey g) = Some f)"
    "lg_suppressed l (a, b, CapacitySourceHardLimit) \<Longrightarrow>
      lg_facts l (a, b, CapacitySourceHardLimit) = Some hard \<Longrightarrow>
      \<exists>live \<in> set h. cf_account live = a \<and> cf_bucket live = b \<and> liveFactLiftsHardFence live hard"
  using assms unfolding ledger_invariant_def by blast+

interpretation capacity: invariant ledger_initial ledger_step ledger_invariant
proof unfold_locales
  show "ledger_invariant s" if "ledger_initial s" for s
    using that by (cases s) (auto simp: ledger_initial_def ledger_invariant_def NewCodexCapacityLedger_def)
  show "ledger_invariant t" if inv: "ledger_invariant s" and step: "ledger_step s t" for s t
    using step
  proof cases
    case (accept_step f l l' h)
    then show ?thesis using accept_invariant inv by simp
  next
    case (reset_step e d now f l l' event h)
    then show ?thesis using ledger_invariant_fields inv observeQuotaReset_fields by metis
  next
    case (delivered_step l h delivered account)
    show ?thesis unfolding delivered_step
      by (rule ledger_invariant_fields [OF inv [unfolded delivered_step]]) (simp_all add: quotaResetDelivered_def)
  next
    case (count_step l h)
    show ?thesis unfolding count_step
      by (rule ledger_invariant_fields [OF inv [unfolded count_step]]) simp_all
  next
    case (stream_step l h)
    show ?thesis unfolding stream_step
      by (rule ledger_invariant_fields [OF inv [unfolded stream_step]]) (simp_all add: NewObservationStream_def Let_def)
  next
    case (leases_step l h account n)
    show ?thesis unfolding leases_step
      by (rule ledger_invariant_fields [OF inv [unfolded leases_step]]) (simp_all add: SetActiveLeases_def)
  qed
qed

text \<open>
  Whatever is observed in whatever order, the ledger keeps for every account, bucket and
  source the accepted fact that comes last in the order of its source - by time for cached usage,
  by connection and sequence otherwise - and all accepted facts are well formed.
\<close>

theorem capacity_facts_latest:
  assumes "reachable ledger_initial ledger_step (l, accepted)" and "f \<in> set accepted"
  shows "validCapacityFact f \<and>
    (\<exists>current \<in> set accepted. lg_facts l (factKey f) = Some current \<and>
       (current = f \<or> capacityFactAdvances f current))"
proof -
  have inv: "ledger_invariant (l, accepted)" by (rule capacity.always [OF assms(1)])
  from ledger_invariantD(2) [OF inv assms(2)] obtain current where
    c: "lg_facts l (factKey f) = Some current" and v: "validCapacityFact f" by blast
  with ledger_invariantD(1) [OF inv c] assms(2) show ?thesis by blast
qed

section \<open>Usage limits\<close>

lemma standingFactD:
  assumes "standingFact l now a b s = Some f"
  shows "lg_facts l (a, b, s) = Some f \<and> \<not> factStale l f now"
  using assms by (auto simp: standingFact_def split: option.splits if_splits)

lemma lastFact_mem: "lastFact fs = Some f \<Longrightarrow> Some f \<in> set fs"
proof -
  have "foldl (\<lambda>selected f. case f of None \<Rightarrow> selected | Some _ \<Rightarrow> f) x fs = Some f \<Longrightarrow> Some f = x \<or> Some f \<in> set fs" for x
    by (induction fs arbitrary: x) (fastforce split: option.splits)+
  then show "lastFact fs = Some f \<Longrightarrow> Some f \<in> set fs" unfolding lastFact_def by blast
qed

lemma lastFact_some: "Some f \<in> set fs \<Longrightarrow> lastFact fs \<noteq> None"
proof -
  have keep: "foldl (\<lambda>selected f. case f of None \<Rightarrow> selected | Some _ \<Rightarrow> f) (Some g) fs \<noteq> None" for g fs
    by (induction fs arbitrary: g) (auto split: option.splits)
  have "Some f \<in> set fs \<Longrightarrow> foldl (\<lambda>selected f. case f of None \<Rightarrow> selected | Some _ \<Rightarrow> f) x fs \<noteq> None" for x
    by (induction fs arbitrary: x) (auto split: option.splits simp: keep [simplified])
  then show "Some f \<in> set fs \<Longrightarrow> lastFact fs \<noteq> None" unfolding lastFact_def by blast
qed

lemma recoveredFact_mem:
  assumes "lg_facts l (a, b, s) = Some f" and "\<not> factStale l f now"
  shows "\<exists>s'. lg_facts l (a, b, s') = Some (recoveredFact l now a b f) \<and> \<not> factStale l (recoveredFact l now a b f) now"
  using assms by (auto simp: recoveredFact_def split: option.splits)

text \<open>The view of a bucket comes from a fact about exactly this bucket that is not stale.\<close>

lemma capacityLocked_fact:
  assumes "capacityLocked l now a b = Some view"
  shows "\<exists>s f. lg_facts l (a, b, s) = Some f \<and> \<not> factStale l f now \<and> view = factView f"
proof -
  obtain chosen where c: "lastFact (map (standingFact l now a b) capacitySources) = Some chosen"
    using assms by (cases "lastFact (map (standingFact l now a b) capacitySources)") (auto simp: capacityLocked_def)
  from lastFact_mem [OF this] obtain s where "standingFact l now a b s = Some chosen" by auto
  from standingFactD [OF this] recoveredFact_mem obtain s' where
    r: "lg_facts l (a, b, s') = Some (recoveredFact l now a b chosen)"
      "\<not> factStale l (recoveredFact l now a b chosen) now" by blast
  show ?thesis
  proof (cases "standingHard l now a b")
    case None
    with assms c r show ?thesis by (auto simp: capacityLocked_def)
  next
    case (Some hard)
    then have "lg_facts l (a, b, CapacitySourceHardLimit) = Some hard \<and> \<not> factStale l hard now"
      by (auto simp: standingHard_def split: option.splits if_splits dest: standingFactD)
    with Some assms c r show ?thesis by (auto simp: capacityLocked_def Let_def split: if_splits)
  qed
qed

lemma capacityLocked_hard:
  assumes inv: "ledger_invariant (l, h)" and hard: "lg_facts l (a, b, CapacitySourceHardLimit) = Some hard"
    and fresh: "\<not> factStale l hard now"
    and none: "\<not> (\<exists>live \<in> set h. cf_account live = a \<and> cf_bucket live = b \<and> liveFactLiftsHardFence live hard)"
  shows "capacityLocked l now a b = Some (factView hard)" "cv_state (factView hard) = CapacityZero"
proof -
  have v: "validCapacityFact hard" "factKey hard = (a, b, CapacitySourceHardLimit)"
    using ledger_invariantD(1) [OF inv hard] by blast+
  then have z: "cf_remaining hard = 0" "cf_confidence hard = CapacityConfidenceAuthoritative"
    by (auto simp: validCapacityFact_def factKey_def sources split: if_splits)
  have "\<not> lg_suppressed l (a, b, CapacitySourceHardLimit)"
    using ledger_invariantD(3) [OF inv _ hard] none by blast
  then have s: "standingFact l now a b CapacitySourceHardLimit = Some hard"
    by (simp add: standingFact_def hard fresh)
  then have "Some hard \<in> set (map (standingFact l now a b) capacitySources)"
    by (simp add: capacitySources_def)
  then obtain chosen where c: "lastFact (map (standingFact l now a b) capacitySources) = Some chosen"
    using lastFact_some by blast
  from lastFact_mem [OF this] obtain t where "standingFact l now a b t = Some chosen" by auto
  from standingFactD [OF this] recoveredFact_mem obtain t' where
    r: "lg_facts l (a, b, t') = Some (recoveredFact l now a b chosen)" by blast
  have "\<not> liveFactLiftsHardFence (recoveredFact l now a b chosen) hard"
    using ledger_invariantD(1) [OF inv r] none by (auto simp: factKey_def)
  with c s z show "capacityLocked l now a b = Some (factView hard)"
    by (simp add: capacityLocked_def standingHard_def)
  show "cv_state (factView hard) = CapacityZero" using z by (simp add: factView_def)
qed

text \<open>
  C33. A confirmed usage limit gates its account and bucket until it resets or grows stale: as
  long as it is the latest of its source, the view is zero, unless live evidence of capacity
  from a later connection, or later on the same one, has been accepted.
\<close>

theorem capacity_limit_gates:
  assumes "reachable ledger_initial ledger_step (l, accepted)" and "a \<noteq> []" and "b \<noteq> []"
    and "lg_facts l (a, b, CapacitySourceHardLimit) = Some hard" and "\<not> factStale l hard now"
    and "cv_state (Capacity reserve l now a b) \<noteq> CapacityZero"
  shows "\<exists>live \<in> set accepted. cf_account live = a \<and> cf_bucket live = b \<and> livePositive live \<and>
    capacityCursorAfter live hard \<and> liveFactLiftsHardFence live hard"
proof (rule ccontr)
  assume "\<not> ?thesis"
  then have "\<not> (\<exists>live \<in> set accepted. cf_account live = a \<and> cf_bucket live = b \<and> liveFactLiftsHardFence live hard)"
    using livePositive_lifts by blast
  from capacityLocked_hard [OF capacity.always [OF assms(1)] assms(4,5) this]
  have "cv_state (Capacity reserve l now a b) = CapacityZero"
    using assms(2,3) by (simp add: Capacity_def capacityView_def split: option.splits)
  with assms(6) show False by simp
qed

text \<open>
  C34. Capacity is only called exhausted on evidence: by the reserve, or by an accepted fact
  that is about this account and exactly this bucket, authoritative, zero and not stale. Cached
  usage, and the zero of the shared bucket for a model's own bucket, never gate.
\<close>

theorem capacity_zero_justified:
  assumes "reachable ledger_initial ledger_step (l, accepted)"
    and "cv_state (Capacity reserve l now a b) = CapacityZero"
  shows "reserve a \<noteq> None \<or> (\<exists>f \<in> set accepted. cf_account f = a \<and>
    cf_bucket f = (if b = [] then CapacityBucketBase else b) \<and> cf_remaining f = 0 \<and>
    cf_confidence f = CapacityConfidenceAuthoritative \<and> cf_source f \<noteq> CapacitySourceUsageCache \<and>
    \<not> factStale l f now)"
proof (cases "reserve a")
  case None
  let ?b = "if b = [] then CapacityBucketBase else b"
  have "\<exists>view. capacityLocked l now a ?b = Some view \<and> cv_state view = CapacityZero"
    using assms(2) None
    by (auto simp: Capacity_def capacityView_def Let_def split: option.splits if_splits)
  then obtain s f where f: "lg_facts l (a, ?b, s) = Some f" "\<not> factStale l f now" "cv_state (factView f) = CapacityZero"
    using capacityLocked_fact by metis
  have "f \<in> set accepted \<and> factKey f = (a, ?b, s) \<and> validCapacityFact f"
    using ledger_invariantD(1) [OF capacity.always [OF assms(1)] f(1)] by blast
  with f(2,3) show ?thesis
    by (intro disjI2 bexI [of _ f])
      (auto simp: factKey_def validCapacityFact_def factView_def sources split: if_splits)
qed simp

section \<open>Samples\<close>

definition sampleNow :: gotime where "sampleNow = timeUnix 1000"

definition sampleFact :: "nat \<Rightarrow> u64 \<Rightarrow> int \<Rightarrow> capacity_fact" where
  "sampleFact source generation remaining = \<lparr>cf_windows = [], cf_account = ''acct'',
     cf_bucket = CapacityBucketBase, cf_remaining = remaining, cf_source = source, cf_sequence = 1,
     cf_generation = generation, cf_observed = timeUnix 990, cf_reset = timeUnix 2000,
     cf_confidence = CapacityConfidenceAuthoritative\<rparr>"

definition sampleLimit :: capacity_fact where "sampleLimit = sampleFact CapacitySourceHardLimit 4 0"
definition samplePoll :: capacity_fact where "samplePoll = sampleFact CapacitySourceLiveUsage 5 60"
definition sampleEvent :: capacity_fact where "sampleEvent = sampleFact CapacitySourceLiveRateLimits 3 70"

fun observeAll :: "capacity_fact list \<Rightarrow> ledger \<Rightarrow> ledger option" where
  "observeAll [] l = Some l"
| "observeAll (f # fs) l = (case observeLocked f l of None \<Rightarrow> None | Some l' \<Rightarrow> observeAll fs l')"

lemma observeAll_reachable:
  "observeAll fs l = Some l' \<Longrightarrow> reachable ledger_initial ledger_step (l, h) \<Longrightarrow>
   reachable ledger_initial ledger_step (l', rev fs @ h)"
proof (induction fs arbitrary: l h)
  case (Cons f fs)
  then obtain l1 where "observeLocked f l = Some l1" "observeAll fs l1 = Some l'" by (auto split: option.splits)
  with Cons.IH [OF this(2) reachable_step [OF Cons.prems(2) accept_step]] show ?case by simp
qed simp

definition emptyLedger :: ledger where "emptyLedger = NewCodexCapacityLedger 0"

lemma emptyLedger_reachable: "reachable ledger_initial ledger_step (emptyLedger, [])"
  by (rule reachable_initial) (auto simp: ledger_initial_def emptyLedger_def)

text \<open>
  The last live evidence seen is kept, not the latest in cursor order, as the name
  \<open>livePositiveHighWater\<close> has it: the same three observations, every one accepted, leave the
  account exhausted when the usage limit comes last and admitted when the poll that is later
  than the limit comes last.
\<close>

theorem capacity_order_dependent:
  "map_option (\<lambda>l. cv_state (Capacity (\<lambda>_. None) l sampleNow ''acct'' CapacityBucketBase))
     (observeAll [samplePoll, sampleEvent, sampleLimit] emptyLedger) = Some CapacityZero \<and>
   map_option (\<lambda>l. cv_state (Capacity (\<lambda>_. None) l sampleNow ''acct'' CapacityBucketBase))
     (observeAll [sampleEvent, sampleLimit, samplePoll] emptyLedger) = Some CapacityPositive \<and>
   liveFactLiftsHardFence samplePoll sampleLimit"
  by code_simp

definition limitedLedger :: ledger where
  "limitedLedger = the (observeAll [sampleLimit] emptyLedger)"

lemma limitedLedger_reachable: "reachable ledger_initial ledger_step (limitedLedger, [sampleLimit])"
proof -
  have "case observeAll [sampleLimit] emptyLedger of None \<Rightarrow> False | Some _ \<Rightarrow> True" by code_simp
  then have "observeAll [sampleLimit] emptyLedger = Some limitedLedger"
    by (auto simp: limitedLedger_def split: option.splits)
  from observeAll_reachable [OF this emptyLedger_reachable] show ?thesis by simp
qed

lemma limitedLedger_fact: "lg_facts limitedLedger (''acct'', CapacityBucketBase, CapacitySourceHardLimit) = Some sampleLimit"
  "\<not> factStale limitedLedger sampleLimit sampleNow" "cf_account sampleLimit = ''acct''"
  "\<not> livePositive sampleLimit" "factKey sampleLimit = (''acct'', CapacityBucketBase, CapacitySourceHardLimit)"
  by code_simp+

theorem capacity_facts_latest_witness:
  "lg_facts limitedLedger (factKey sampleLimit) = Some sampleLimit"
  using capacity_facts_latest [OF limitedLedger_reachable, of sampleLimit] by auto

theorem capacity_limit_gates_witness:
  "cv_state (Capacity (\<lambda>_. None) limitedLedger sampleNow ''acct'' CapacityBucketBase) = CapacityZero"
proof (rule ccontr)
  assume "cv_state (Capacity (\<lambda>_. None) limitedLedger sampleNow ''acct'' CapacityBucketBase) \<noteq> CapacityZero"
  from capacity_limit_gates [OF limitedLedger_reachable _ _ limitedLedger_fact(1,2) this]
  show False using limitedLedger_fact(4) by (simp add: CapacityBucketBase_def)
qed

theorem capacity_zero_justified_witness:
  "cf_source sampleLimit \<noteq> CapacitySourceUsageCache \<and> \<not> factStale limitedLedger sampleLimit sampleNow"
proof -
  have "cv_state (Capacity (\<lambda>_. None) limitedLedger sampleNow ''acct'' CapacityBucketBase) = CapacityZero"
    by code_simp
  from capacity_zero_justified [OF limitedLedger_reachable this] show ?thesis by auto
qed

end
