(* ===== verification/RouteProjection.thy ===== *)
theory RouteProjection
  imports CapacityLedger
begin

text \<open>
  From the account inventory and the capacity ledger to the candidates of the route policy:
  \<open>internal/proxy/codex_route_projection.go\<close> and the availability of a credential
  (\<open>internal/provider/codex/inventory.go\<close>). A Go map that is only ranged over and looked up is an
  association list; an error is an \<open>Inl\<close>.
\<close>

section \<open>The inventory\<close>

record credential_candidate =
  cc_account :: account_key
  cc_id :: string
  cc_revision :: string
  cc_source :: nat
  cc_expires :: gotime
  cc_authored :: bool
  cc_refresh :: bool
  cc_routable :: bool
  cc_blocked :: bool

definition SourceSystem :: nat where "SourceSystem = 1"
definition SourceManaged :: nat where "SourceManaged = 2"
definition SourceExternal :: nat where "SourceExternal = 3"

datatype availability = CandidateUnavailable | CandidateReady | CandidateRefreshRequired

definition CandidateAvailabilityAt :: "credential_candidate \<Rightarrow> gotime \<Rightarrow> availability" where
  "CandidateAvailabilityAt c now =
     (if \<not> cc_routable c \<or> cc_blocked c then CandidateUnavailable
      else if isZeroTime (cc_expires c) \<or> after (cc_expires c) now then CandidateReady
      else if cc_source c = SourceManaged \<and> cc_authored c \<and> cc_refresh c then CandidateRefreshRequired
      else CandidateUnavailable)"

record logical_account =
  la_key :: account_key
  la_account :: string
  la_user :: string
  la_plan :: string
  la_candidates :: "credential_candidate list"
  la_active :: bool
  la_routable :: bool
  la_unstable :: bool

section \<open>The projection\<close>

datatype projection_error = CodexRouteProjectionInvalidInventory | CodexRouteProjectionInvalidProvisionalCount

definition codexRouteProjectionCandidateReady :: "account_key \<Rightarrow> credential_candidate \<Rightarrow> gotime \<Rightarrow> bool" where
  "codexRouteProjectionCandidateReady key c now \<longleftrightarrow>
     CandidateAvailabilityAt c now \<noteq> CandidateUnavailable \<and> cc_account c = key \<and> cc_id c \<noteq> [] \<and>
     cc_revision c \<noteq> [] \<and> cc_source c \<ge> SourceSystem \<and> cc_source c \<le> SourceExternal"

definition codexRouteProjectionAccountRoutable :: "logical_account \<Rightarrow> gotime \<Rightarrow> bool" where
  "codexRouteProjectionAccountRoutable a now \<longleftrightarrow>
     \<not> (\<not> la_routable a \<or> la_unstable a \<or> la_account a = [] \<or> la_user a = []) \<and>
     list_ex (\<lambda>c. codexRouteProjectionCandidateReady (la_key a) c now) (la_candidates a)"

definition projectCodexRouteModel :: "string \<Rightarrow> string \<Rightarrow> string \<times> bool" where
  "projectCodexRouteModel plan requested =
     (if trimSpace (ParseModel requested) = [] then (requested, False)
      else if codexPlanSupportsModel plan requested then (requested, True)
      else case rewriteCodexModelName requested of
        None \<Rightarrow> (requested, False)
      | Some rewritten \<Rightarrow>
          if codexPlanSupportsModel plan rewritten then (rewritten, True) else (requested, False))"

record route_requirements =
  rq_model :: string
  rq_models :: "string list"

definition projectCandidate ::
  "(account_key \<Rightarrow> int option) \<Rightarrow> ledger \<Rightarrow> gotime \<Rightarrow> route_requirements \<Rightarrow> (account_key \<times> int) list \<Rightarrow>
   gotime \<Rightarrow> logical_account \<Rightarrow> policy_candidate" where
  "projectCandidate reserve l clock rq provisional now a =
     (let (effective, compatible) = projectCodexRouteModel (la_plan a) (rq_model rq);
          buckets = routeBuckets effective (rq_models rq) (la_plan a)
      in \<lparr>pc_choice = \<lparr>rc_account = la_key a, rc_requested_model = rq_model rq,
            rc_effective_model = effective, rc_buckets = buckets\<rparr>,
          pc_value = 0, pc_system = la_active a,
          pc_quota_exhausted =
            list_ex (\<lambda>b. cv_state (IncludedCapacity reserve l clock (la_key a) b) = CapacityZero) buckets,
          pc_capacity = map (Capacity reserve l clock (la_key a)) buckets,
          pc_compatible = compatible, pc_routable = codexRouteProjectionAccountRoutable a now,
          pc_provisional = (case map_of provisional (la_key a) of None \<Rightarrow> 0 | Some n \<Rightarrow> n)\<rparr>)"

definition projectAccount ::
  "(logical_account \<Rightarrow> policy_candidate) \<Rightarrow> account_key list \<times> policy_candidate list \<Rightarrow> logical_account \<Rightarrow>
   projection_error + account_key list \<times> policy_candidate list" where
  "projectAccount project s a = (case s of (seen, candidates) \<Rightarrow>
     if la_key a = [] then Inr (seen, candidates)
     else if la_key a \<in> set seen then Inl CodexRouteProjectionInvalidInventory
     else Inr (seen @ [la_key a], candidates @ [project a]))"

definition ProjectCodexRoutePolicyCandidates ::
  "(account_key \<Rightarrow> int option) \<Rightarrow> ledger \<Rightarrow> gotime \<Rightarrow> logical_account list \<Rightarrow> route_requirements \<Rightarrow>
   (account_key \<times> int) list \<Rightarrow> gotime \<Rightarrow> projection_error + policy_candidate list" where
  "ProjectCodexRoutePolicyCandidates reserve l clock inventory rq provisional now =
     (if list_ex (\<lambda>(_, n). n < 0) provisional then Inl CodexRouteProjectionInvalidProvisionalCount
      else andThen (foldE (projectAccount (projectCandidate reserve l clock rq provisional now)) ([], []) inventory)
        (\<lambda>(_, candidates). Inr candidates))"

section \<open>What is projected\<close>

definition inventoryKeys :: "logical_account list \<Rightarrow> account_key list" where
  "inventoryKeys inventory = filter (\<lambda>k. k \<noteq> []) (map la_key inventory)"

lemma inventoryKeys_simps [simp]:
  "inventoryKeys [] = []"
  "inventoryKeys (a # as) = (if la_key a = [] then inventoryKeys as else la_key a # inventoryKeys as)"
  by (simp_all add: inventoryKeys_def)

lemma projectAccount_pair:
  "projectAccount project (seen, candidates) a =
     (if la_key a = [] then Inr (seen, candidates)
      else if la_key a \<in> set seen then Inl CodexRouteProjectionInvalidInventory
      else Inr (seen @ [la_key a], candidates @ [project a]))"
  by (simp add: projectAccount_def)

lemma projectAccounts:
  "foldE (projectAccount project) (seen, candidates) inventory =
     (if set seen \<inter> set (inventoryKeys inventory) \<noteq> {} \<or> \<not> distinct (inventoryKeys inventory)
      then Inl CodexRouteProjectionInvalidInventory
      else Inr (seen @ inventoryKeys inventory,
        candidates @ map project (filter (\<lambda>a. la_key a \<noteq> []) inventory)))"
proof (induction inventory arbitrary: seen candidates)
  case (Cons a inventory)
  show ?case by (auto simp: projectAccount_pair Cons.IH)
qed simp

text \<open>
  The projection refuses exactly a negative count of leases and an account key that occurs
  twice; otherwise there is one candidate per account with a key, in the order of the inventory.
\<close>

theorem projection_exact:
  "ProjectCodexRoutePolicyCandidates reserve l clock inventory rq provisional now =
     (if \<exists>(account, n) \<in> set provisional. n < 0 then Inl CodexRouteProjectionInvalidProvisionalCount
      else if \<not> distinct (inventoryKeys inventory) then Inl CodexRouteProjectionInvalidInventory
      else Inr (map (projectCandidate reserve l clock rq provisional now)
        (filter (\<lambda>a. la_key a \<noteq> []) inventory)))"
  by (auto simp: ProjectCodexRoutePolicyCandidates_def projectAccounts list_ex_iff)

lemma CapacityBucketForModel_Nil [simp]: "CapacityBucketForModel model \<noteq> []"
  by (simp add: CapacityBucketForModel_def CapacityBucketBase_def capacityBucketModelPrefix_def)

lemma routeBuckets_Nil: "b \<in> set (routeBuckets effective models plan) \<Longrightarrow> b \<noteq> []"
proof -
  have "b \<in> set (foldl (\<lambda>bs m. addNew bs (CapacityBucketForModel (planModel plan m))) bs ms) \<Longrightarrow>
    b \<in> set bs \<or> b \<noteq> []" for bs ms
    by (induction ms arbitrary: bs)
      (fastforce simp: addNew_def CapacityBucketForModel_Nil [THEN not_sym] split: if_splits)+
  then show "b \<in> set (routeBuckets effective models plan) \<Longrightarrow> b \<noteq> []"
    unfolding routeBuckets_def by (metis empty_iff list.set(1))
qed

lemma capacityLoop_zero:
  "v \<in> set views \<Longrightarrow> cv_state v = CapacityZero \<Longrightarrow> cv_state (capacityLoop unknown remaining views) = CapacityZero"
  by (induction unknown remaining views rule: capacityLoop.induct)
    (auto simp: capacityView_def split: capacity_state.splits)

text \<open>A candidate of the projection is exhausted when one of its buckets is.\<close>

lemma projected_zero:
  assumes "ProjectCodexRoutePolicyCandidates reserve l clock inventory rq provisional now = Inr candidates"
    and "x \<in> set candidates" and "b \<in> set (rc_buckets (pc_choice x))"
  shows "b \<noteq> []" "rc_account (pc_choice x) \<noteq> []"
    "cv_state (Capacity reserve l clock (rc_account (pc_choice x)) b) = CapacityZero \<Longrightarrow>
      cv_state (codexRoutePolicyCapacity x) = CapacityZero"
proof -
  obtain a where a: "x = projectCandidate reserve l clock rq provisional now a" "la_key a \<noteq> []"
    using assms(1,2)
    by (auto simp: ProjectCodexRoutePolicyCandidates_def projectAccounts split: if_splits)
  obtain effective compatible where m: "projectCodexRouteModel (la_plan a) (rq_model rq) = (effective, compatible)"
    by (metis prod.exhaust)
  show "b \<noteq> []" using assms(3) routeBuckets_Nil by (auto simp: a m projectCandidate_def Let_def)
  show "rc_account (pc_choice x) \<noteq> []" using a(2) by (simp add: a m projectCandidate_def Let_def)
  show "cv_state (codexRoutePolicyCapacity x) = CapacityZero"
    if "cv_state (Capacity reserve l clock (rc_account (pc_choice x)) b) = CapacityZero"
    using that assms(3)
    by (auto simp: a m projectCandidate_def Let_def codexRoutePolicyCapacity_def
      intro!: capacityLoop_zero [of "Capacity reserve l clock (la_key a) b"])
qed

definition sampleAccounts :: "logical_account list" where
  "sampleAccounts = map (\<lambda>key. \<lparr>la_key = key, la_account = ''id'', la_user = ''user'', la_plan = ''plus'',
     la_candidates = [\<lparr>cc_account = key, cc_id = ''c'', cc_revision = ''r'', cc_source = SourceManaged,
       cc_expires = zeroTime, cc_authored = True, cc_refresh = True, cc_routable = True, cc_blocked = False\<rparr>],
     la_active = False, la_routable = True, la_unstable = False\<rparr>) [''acct'', ''dflt'']"

definition sampleRequirements :: route_requirements where
  "sampleRequirements = \<lparr>rq_model = ''gpt-5.3-codex'', rq_models = []\<rparr>"

definition limitedCandidates :: "policy_candidate list" where
  "limitedCandidates = map (projectCandidate (\<lambda>_. None) limitedLedger sampleNow sampleRequirements [] sampleNow)
     sampleAccounts"

lemma limitedCandidates_projected:
  "ProjectCodexRoutePolicyCandidates (\<lambda>_. None) limitedLedger sampleNow sampleAccounts sampleRequirements []
     sampleNow = Inr limitedCandidates"
  by (simp add: ProjectCodexRoutePolicyCandidates_def limitedCandidates_def sampleAccounts_def
    projectAccount_pair)

section \<open>From a usage limit to the plan\<close>

text \<open>
  C8. A usage limit keeps its account out of the routing: while it stands, with no later live
  evidence, a plan built from the projected inventory has no attempt on this account and its
  bucket, except for a continuation bound to the account or as the configured default, appended
  last.
\<close>

theorem limited_account_not_planned:
  assumes "reachable ledger_initial ledger_step (l, accepted)"
    and "lg_facts l (rc_account c, b, CapacitySourceHardLimit) = Some hard" and "\<not> factStale l hard clock"
    and "\<not> (\<exists>live \<in> set accepted. cf_account live = rc_account c \<and> cf_bucket live = b \<and>
      livePositive live \<and> capacityCursorAfter live hard)"
    and "ProjectCodexRoutePolicyCandidates reserve l clock inventory rq provisional now = Inr candidates"
    and "BuildCodexRoutePlan ctxErr candidates hints = (plan, None)"
    and "c \<in> set (rp_choices plan)" and "b \<in> set (rc_buckets c)"
  shows "rc_account c = ph_bound hints \<or>
    (rc_account c = ph_default hints \<and> c = last (rp_choices plan) \<and>
     rp_default_ordinal plan = word_of_nat (length (rp_choices plan)))"
proof -
  obtain x where x: "x \<in> set candidates" "rc_account (pc_choice x) = rc_account c"
    "codexRoutePolicyCompatibleWithFrozen (pc_choice x) c"
    "cv_state (codexRoutePolicyCapacity x) \<noteq> CapacityZero \<or> rc_account c = ph_bound hints \<or>
     rc_account c = ph_default hints \<and> c = last (rp_choices plan) \<and>
     rp_default_ordinal plan = word_of_nat (length (rp_choices plan))"
    using plan_attempt_admitted [OF assms(6,7)] by blast
  have b: "b \<in> set (rc_buckets (pc_choice x))"
    using x(3) assms(8) by (simp add: codexRoutePolicyCompatibleWithFrozen_def)
  note zero = projected_zero [OF assms(5) x(1) b]
  have "\<not> (\<exists>live \<in> set accepted. cf_account live = rc_account c \<and> cf_bucket live = b \<and> liveFactLiftsHardFence live hard)"
    using assms(4) livePositive_lifts by blast
  from capacityLocked_hard [OF capacity.always [OF assms(1)] assms(2,3) this] zero(1,2)
  have "cv_state (Capacity reserve l clock (rc_account c) b) = CapacityZero"
    by (simp add: Capacity_def capacityView_def x(2) split: option.splits)
  with zero(3) x(2,4) show ?thesis by simp
qed

text \<open>The candidates of the sample, with all but the capacities evaluated.\<close>

definition evaluatedCandidates :: "policy_candidate list" where
  "evaluatedCandidates =
     [\<lparr>pc_choice = \<lparr>rc_account = ''acct'', rc_requested_model = ''gpt-5.3-codex'',
          rc_effective_model = ''gpt-5.3-codex'', rc_buckets = [CapacityBucketBase]\<rparr>,
        pc_value = 0, pc_system = False, pc_quota_exhausted = True,
        pc_capacity = [Capacity (\<lambda>_. None) limitedLedger sampleNow ''acct'' CapacityBucketBase],
        pc_compatible = True, pc_routable = True, pc_provisional = 0\<rparr>,
      \<lparr>pc_choice = \<lparr>rc_account = ''dflt'', rc_requested_model = ''gpt-5.3-codex'',
          rc_effective_model = ''gpt-5.3-codex'', rc_buckets = [CapacityBucketBase]\<rparr>,
        pc_value = 0, pc_system = False, pc_quota_exhausted = False,
        pc_capacity = [Capacity (\<lambda>_. None) limitedLedger sampleNow ''dflt'' CapacityBucketBase],
        pc_compatible = True, pc_routable = True, pc_provisional = 0\<rparr>]"

lemma sampleAccounts_projected:
  "projectCodexRouteModel ''plus'' ''gpt-5.3-codex'' = (''gpt-5.3-codex'', True)"
  "routeBuckets ''gpt-5.3-codex'' [] ''plus'' = [CapacityBucketBase]"
  "map (\<lambda>a. codexRouteProjectionAccountRoutable a sampleNow) sampleAccounts = [True, True]"
  "cv_state (IncludedCapacity (\<lambda>_. None) limitedLedger sampleNow ''acct'' CapacityBucketBase) = CapacityZero"
  "cv_state (IncludedCapacity (\<lambda>_. None) limitedLedger sampleNow ''dflt'' CapacityBucketBase) \<noteq> CapacityZero"
  by code_simp+

lemma limitedCandidates_evaluated: "limitedCandidates = evaluatedCandidates"
  using sampleAccounts_projected(3)
  by (simp add: limitedCandidates_def evaluatedCandidates_def sampleAccounts_def projectCandidate_def
    sampleRequirements_def sampleAccounts_projected(1,2,4,5))

lemma evaluatedCandidates_plan:
  "snd (BuildCodexRoutePlan None evaluatedCandidates (sampleHints [])) = None"
  by code_simp
theorem limited_account_not_planned_witness:
  "list_all (\<lambda>c. rc_account c \<noteq> ''acct'')
     (rp_choices (fst (BuildCodexRoutePlan None limitedCandidates (sampleHints []))))"
proof -
  have ok: "snd (BuildCodexRoutePlan None limitedCandidates (sampleHints [])) = None"
    unfolding limitedCandidates_evaluated by (rule evaluatedCandidates_plan)
  have built: "BuildCodexRoutePlan None limitedCandidates (sampleHints []) =
      (fst (BuildCodexRoutePlan None limitedCandidates (sampleHints [])), None)"
    using ok by (simp add: prod_eq_iff)
  have live: "\<not> (\<exists>live \<in> set [sampleLimit]. cf_account live = ''acct'' \<and> cf_bucket live = CapacityBucketBase \<and>
      livePositive live \<and> capacityCursorAfter live sampleLimit)"
    using limitedLedger_fact(4) by simp
  have base: "list_all (\<lambda>c. CapacityBucketBase \<in> set (rc_buckets c))
      (rp_choices (fst (BuildCodexRoutePlan None limitedCandidates (sampleHints []))))"
    unfolding limitedCandidates_evaluated by code_simp
  have "rc_account c \<noteq> ''acct''" if c: "c \<in> set (rp_choices (fst (BuildCodexRoutePlan None limitedCandidates (sampleHints []))))" for c
  proof
    assume a: "rc_account c = ''acct''"
    have "CapacityBucketBase \<in> set (rc_buckets c)" using base c by (simp add: list_all_iff)
    from limited_account_not_planned [OF limitedLedger_reachable limitedLedger_fact(1) [folded a] limitedLedger_fact(2)
        live [folded a] limitedCandidates_projected built c this] a
    show False by (simp add: sampleHints_def)
  qed
  then show ?thesis by (simp add: list_all_iff)
qed

end
