(* ===== verification/SseParser.thy ===== *)
theory SseParser
  imports Prelude
begin

text \<open>
  The incremental parser of server-sent events, \<open>CodexSSEParser\<close> of
  \<open>internal/proxy/codex_sse.go\<close>: bytes arrive in chunks of any size and come out as one
  observation per event, within a bound on the memory an event may take. A byte is a \<open>char\<close>, a
  length and a capacity an \<open>int\<close>; a nil slice is an empty one of capacity 0. What an event's data
  means (\<open>classifyCodexSSEData\<close>) is the argument \<open>classify\<close> of the operations that emit one.
\<close>

section \<open>The parser\<close>

datatype sse_error = CodexSSETruncated | CodexSSEEventTooBig

record sse_parser =
  sp_max :: int
  sp_buffer :: string
  sp_buffer_cap :: int
  sp_data :: string
  sp_data_cap :: int
  sp_has_data :: bool
  sp_size :: int
  sp_terminal :: "sse_error option"

abbreviation LF :: char where "LF \<equiv> CHR 0x0A"
abbreviation CR :: char where "CR \<equiv> CHR 0x0D"
abbreviation len :: "string \<Rightarrow> int" where "len s \<equiv> int (length s)"

definition codexSSEDefaultMaxEventBytes :: int where
  "codexSSEDefaultMaxEventBytes = 256 * 2 ^ 10"

definition NewCodexSSEParser :: "int \<Rightarrow> sse_parser" where
  "NewCodexSSEParser maxEvent =
     \<lparr>sp_max = (if maxEvent \<le> 0 then codexSSEDefaultMaxEventBytes else maxEvent),
      sp_buffer = [], sp_buffer_cap = 0, sp_data = [], sp_data_cap = 0, sp_has_data = False,
      sp_size = 0, sp_terminal = None\<rparr>"

definition sse_fail :: "sse_parser \<Rightarrow> sse_error \<Rightarrow> sse_parser \<times> sse_error" where
  "sse_fail p e =
     (case sp_terminal p of
        Some e' \<Rightarrow> (p, e')
      | None \<Rightarrow> (p\<lparr>sp_buffer := [], sp_buffer_cap := 0, sp_data := [], sp_data_cap := 0,
          sp_has_data := False, sp_size := 0, sp_terminal := Some e\<rparr>, e))"

text \<open>The growth both slices share: twice the capacity, at least 64 and the need, at most the limit.\<close>

definition grown :: "int \<Rightarrow> int \<Rightarrow> int \<Rightarrow> int" where
  "grown capacity needed limit =
     (let c = capacity * 2; c = (if c < 64 then 64 else c); c = (if c < needed then needed else c)
      in if c > limit then limit else c)"

definition appendBuffer :: "sse_parser \<Rightarrow> string \<Rightarrow> sse_error + sse_parser" where
  "appendBuffer p fragment =
     (let needed = len (sp_buffer p) + len fragment
      in if needed > sp_max p - sp_size p then Inl CodexSSEEventTooBig
         else if needed > sp_buffer_cap p then
           (let p = (if sp_data_cap p + needed > sp_max p then p\<lparr>sp_data_cap := len (sp_data p)\<rparr> else p);
                available = sp_max p - sp_data_cap p
            in if needed > available then Inl CodexSSEEventTooBig
               else Inr (p\<lparr>sp_buffer := sp_buffer p @ fragment,
                 sp_buffer_cap := grown (sp_buffer_cap p) needed available\<rparr>))
         else Inr (p\<lparr>sp_buffer := sp_buffer p @ fragment\<rparr>))"

definition appendDataLine :: "sse_parser \<Rightarrow> string \<Rightarrow> sse_error + sse_parser" where
  "appendDataLine p v =
     (let needed = len (sp_data p) + len v; needed = (if sp_has_data p then needed + 1 else needed)
      in if needed > sp_max p then Inl CodexSSEEventTooBig
         else Inr (p\<lparr>sp_data_cap := (if needed > sp_data_cap p then grown (sp_data_cap p) needed (sp_max p)
                 else sp_data_cap p),
               sp_data := sp_data p @ (if sp_has_data p then [LF] else []) @ v,
               sp_has_data := True\<rparr>))"

definition sse_dispatch :: "(string \<Rightarrow> 'o) \<Rightarrow> sse_parser \<Rightarrow> sse_parser \<times> 'o" where
  "sse_dispatch classify p =
     (p\<lparr>sp_data := [], sp_data_cap := 0, sp_has_data := False, sp_size := 0\<rparr>, classify (sp_data p))"

text \<open>\<open>bytes.Cut(line, ":")\<close> without its third result, and the space that may follow the colon.\<close>

definition fieldOf :: "string \<Rightarrow> string" where
  "fieldOf line = takeWhile (\<lambda>c. c \<noteq> CHR '':'') line"

definition valueOf :: "string \<Rightarrow> string" where
  "valueOf line =
     (case dropWhile (\<lambda>c. c \<noteq> CHR '':'') line of
        [] \<Rightarrow> []
      | _ # v \<Rightarrow> if v \<noteq> [] \<and> hd v = CHR '' '' then tl v else v)"

definition consumeLine :: "(string \<Rightarrow> 'o) \<Rightarrow> sse_parser \<Rightarrow> string \<Rightarrow> sse_error + sse_parser \<times> 'o option" where
  "consumeLine classify p line =
     (if line = [] then
        (if \<not> sp_has_data p then Inr (p\<lparr>sp_size := 0\<rparr>, None)
         else (case sse_dispatch classify p of (p, obs) \<Rightarrow> Inr (p, Some obs)))
      else
        (let p = p\<lparr>sp_size := sp_size p + (len line + 1)\<rparr>
         in if sp_size p > sp_max p then Inl CodexSSEEventTooBig
            else if hd line = CHR '':'' then Inr (p, None)
            else if fieldOf line = ''data'' then andThen (appendDataLine p (valueOf line)) (\<lambda>p. Inr (p, None))
            else Inr (p, None)))"

text \<open>The body of the loop of \<open>Feed\<close> for a chunk whose first line feed ends \<open>fragment\<close>.\<close>

definition feedLine :: "(string \<Rightarrow> 'o) \<Rightarrow> sse_parser \<Rightarrow> string \<Rightarrow> sse_error + sse_parser \<times> 'o option" where
  "feedLine classify p fragment =
     (let (fragment, bufferLen) =
          (if fragment \<noteq> [] \<and> last fragment = CR then (butlast fragment, length (sp_buffer p))
           else if fragment = [] \<and> sp_buffer p \<noteq> [] \<and> last (sp_buffer p) = CR
             then (fragment, length (sp_buffer p) - 1)
           else (fragment, length (sp_buffer p)));
          lineLen = int bufferLen + len fragment;
          additional = (if lineLen \<noteq> 0 then lineLen + 1 else 0)
      in if additional > sp_max p - sp_size p then Inl CodexSSEEventTooBig
         else if sp_buffer p = [] then consumeLine classify p fragment
         else andThen (appendBuffer (p\<lparr>sp_buffer := take bufferLen (sp_buffer p)\<rparr>) fragment)
           (\<lambda>p. consumeLine classify (p\<lparr>sp_buffer := [], sp_buffer_cap := 0\<rparr>) (sp_buffer p)))"

partial_function (option) feedLoop ::
  "(string \<Rightarrow> 'o) \<Rightarrow> sse_parser \<Rightarrow> string \<Rightarrow> 'o list \<Rightarrow> ('o list \<times> sse_parser \<times> sse_error option) option" where
  "feedLoop classify p chunk observations =
     (if chunk = [] then Some (observations, p, None)
      else if LF \<notin> set chunk then
        (case appendBuffer p chunk of
           Inl e \<Rightarrow> Some (case sse_fail p e of (p, e) \<Rightarrow> (observations, p, Some e))
         | Inr p' \<Rightarrow> Some (observations, p', None))
      else
        (case feedLine classify p (takeWhile (\<lambda>c. c \<noteq> LF) chunk) of
           Inl e \<Rightarrow> Some (case sse_fail p e of (p, e) \<Rightarrow> (observations, p, Some e))
         | Inr (p', obs) \<Rightarrow>
             feedLoop classify p' (tl (dropWhile (\<lambda>c. c \<noteq> LF) chunk))
               (observations @ (case obs of None \<Rightarrow> [] | Some o' \<Rightarrow> [o']))))"

definition Feed ::
  "(string \<Rightarrow> 'o) \<Rightarrow> sse_parser \<Rightarrow> string \<Rightarrow> ('o list \<times> sse_parser \<times> sse_error option) option" where
  "Feed classify p chunk =
     (case sp_terminal p of Some e \<Rightarrow> Some ([], p, Some e) | None \<Rightarrow> feedLoop classify p chunk [])"

definition sse_Finish :: "sse_parser \<Rightarrow> sse_parser \<times> sse_error option" where
  "sse_Finish p =
     (case sp_terminal p of
        Some e \<Rightarrow> (p, Some e)
      | None \<Rightarrow>
          if sp_buffer p \<noteq> [] \<or> sp_has_data p \<or> sp_size p \<noteq> 0
          then (case sse_fail p CodexSSETruncated of (p, e) \<Rightarrow> (p, Some e))
          else (p, None))"

definition ParseCodexSSE :: "(string \<Rightarrow> 'o) \<Rightarrow> string \<Rightarrow> int \<Rightarrow> (sse_error + 'o list) option" where
  "ParseCodexSSE classify body maxEvent =
     map_option (\<lambda>(observations, p, e). case e of
         Some e \<Rightarrow> Inl e
       | None \<Rightarrow> (case snd (sse_Finish p) of Some e \<Rightarrow> Inl e | None \<Rightarrow> Inr observations))
       (Feed classify (NewCodexSSEParser maxEvent) body)"

section \<open>The view without capacities\<close>

text \<open>
  What a parser is, its memory aside: the bytes of the unfinished line, the data of the event so
  far and its size. \<open>specFeed\<close> says what a chunk does to it, line by line.
\<close>

record sse_view =
  vw_pending :: string
  vw_data :: "string option"
  vw_size :: int
  vw_terminal :: "sse_error option"

definition view :: "sse_parser \<Rightarrow> sse_view" where
  "view p = \<lparr>vw_pending = sp_buffer p, vw_data = (if sp_has_data p then Some (sp_data p) else None),
     vw_size = sp_size p, vw_terminal = sp_terminal p\<rparr>"

lemma view_simps [simp]:
  "vw_pending (view p) = sp_buffer p" "vw_size (view p) = sp_size p" "vw_terminal (view p) = sp_terminal p"
  by (simp_all add: view_def)

definition emptyView :: sse_view where
  "emptyView = \<lparr>vw_pending = [], vw_data = None, vw_size = 0, vw_terminal = None\<rparr>"

definition dropCR :: "string \<Rightarrow> string" where
  "dropCR s = (if s \<noteq> [] \<and> last s = CR then butlast s else s)"

definition addData :: "string option \<Rightarrow> string \<Rightarrow> string option" where
  "addData d line =
     (if hd line \<noteq> CHR '':'' \<and> fieldOf line = ''data''
      then Some (case d of None \<Rightarrow> valueOf line | Some s \<Rightarrow> s @ LF # valueOf line) else d)"

definition specLine :: "(string \<Rightarrow> 'o) \<Rightarrow> int \<Rightarrow> sse_view \<Rightarrow> string \<Rightarrow> sse_error + sse_view \<times> 'o option" where
  "specLine classify m v fragment =
     (let line = dropCR (vw_pending v @ fragment)
      in if line = [] then
           Inr (emptyView, map_option classify (vw_data v))
         else if vw_size v + len line + 1 > m then Inl CodexSSEEventTooBig
         else Inr (v\<lparr>vw_pending := [], vw_data := addData (vw_data v) line,
           vw_size := vw_size v + len line + 1\<rparr>, None))"

definition specFail :: "sse_error \<Rightarrow> sse_view" where
  "specFail e = emptyView\<lparr>vw_terminal := Some e\<rparr>"

function specLoop ::
  "(string \<Rightarrow> 'o) \<Rightarrow> int \<Rightarrow> sse_view \<Rightarrow> string \<Rightarrow> 'o list \<times> sse_view \<times> sse_error option" where
  "specLoop classify m v chunk =
     (if LF \<notin> set chunk then
        (if chunk \<noteq> [] \<and> vw_size v + len (vw_pending v @ chunk) > m
         then ([], specFail CodexSSEEventTooBig, Some CodexSSEEventTooBig)
         else ([], v\<lparr>vw_pending := vw_pending v @ chunk\<rparr>, None))
      else
        (case specLine classify m v (takeWhile (\<lambda>c. c \<noteq> LF) chunk) of
           Inl e \<Rightarrow> ([], specFail e, Some e)
         | Inr (v', obs) \<Rightarrow>
             (case specLoop classify m v' (tl (dropWhile (\<lambda>c. c \<noteq> LF) chunk)) of
                (rest, v'', e) \<Rightarrow> (case_option [] (\<lambda>o'. [o']) obs @ rest, v'', e))))"
  by pat_completeness auto
termination
proof (relation "measure (\<lambda>(_, _, _, chunk). length chunk)")
  fix chunk :: string assume "\<not> LF \<notin> set chunk"
  then have "dropWhile (\<lambda>c. c \<noteq> LF) chunk \<noteq> []" by (simp add: dropWhile_eq_Nil_conv)
  moreover have "length (dropWhile (\<lambda>c. c \<noteq> LF) chunk) \<le> length chunk" by (rule length_dropWhile_le)
  ultimately show "((c, m, v', tl (dropWhile (\<lambda>c. c \<noteq> LF) chunk)), (c, m, v, chunk))
      \<in> measure (\<lambda>(_, _, _, chunk). length chunk)" for c m v v'
    by (cases "dropWhile (\<lambda>c. c \<noteq> LF) chunk") auto
qed auto

declare specLoop.simps [simp del]

definition specFeed ::
  "(string \<Rightarrow> 'o) \<Rightarrow> int \<Rightarrow> sse_view \<Rightarrow> string \<Rightarrow> 'o list \<times> sse_view \<times> sse_error option" where
  "specFeed classify m v chunk =
     (case vw_terminal v of Some e \<Rightarrow> ([], v, Some e) | None \<Rightarrow> specLoop classify m v chunk)"

section \<open>The invariant\<close>

definition sse_ok :: "sse_parser \<Rightarrow> bool" where
  "sse_ok p \<longleftrightarrow>
     0 < sp_max p \<and> len (sp_buffer p) \<le> sp_buffer_cap p \<and> len (sp_data p) \<le> sp_data_cap p \<and>
     sp_buffer_cap p + sp_data_cap p \<le> sp_max p \<and> (sp_buffer p = [] \<longrightarrow> sp_buffer_cap p = 0) \<and>
     len (sp_data p) \<le> sp_size p \<and> (sp_data p \<noteq> [] \<longrightarrow> sp_has_data p) \<and>
     sp_size p + len (sp_buffer p) \<le> sp_max p \<and> LF \<notin> set (sp_buffer p) \<and>
     (sp_terminal p \<noteq> None \<longrightarrow> sp_buffer p = [] \<and> \<not> sp_has_data p \<and> sp_size p = 0)"

lemma sse_ok_new: "sse_ok (NewCodexSSEParser m)"
  by (simp add: sse_ok_def NewCodexSSEParser_def codexSSEDefaultMaxEventBytes_def)

lemma view_new: "view (NewCodexSSEParser m) = emptyView"
  by (simp add: view_def NewCodexSSEParser_def emptyView_def)

lemma grown_bounds:
  assumes "0 \<le> c" and "needed \<le> limit"
  shows "needed \<le> grown c needed limit" "grown c needed limit \<le> limit"
  using assms by (auto simp: grown_def Let_def)

lemma sse_fail_view:
  assumes "sp_terminal p = None" and "sse_ok p"
  obtains q where "sse_fail p e = (q, e)" "view q = specFail e" "sse_ok q" "sp_max q = sp_max p"
  using assms that by (simp add: sse_fail_def view_def specFail_def emptyView_def sse_ok_def)

lemma len_valueOf: "len (valueOf line) \<le> len line"
proof -
  have "length (dropWhile (\<lambda>c. c \<noteq> CHR '':'') line) \<le> length line" by (rule length_dropWhile_le)
  then show ?thesis by (auto simp: valueOf_def split: list.splits)
qed

lemma sse_room:
  assumes "sse_ok p"
  shows "0 < sp_max p" "len (sp_buffer p) \<le> sp_buffer_cap p" "len (sp_data p) \<le> sp_data_cap p"
    "sp_buffer_cap p + sp_data_cap p \<le> sp_max p" "len (sp_data p) \<le> sp_size p"
  using assms by (simp_all add: sse_ok_def)

text \<open>The buffer: room for what the event may still take is always found.\<close>

lemma appendBuffer_ok:
  assumes "0 < sp_max p" "len (sp_buffer p) \<le> sp_buffer_cap p" "len (sp_data p) \<le> sp_data_cap p"
    "sp_buffer_cap p + sp_data_cap p \<le> sp_max p" "len (sp_data p) \<le> sp_size p"
    and "len (sp_buffer p) + len fragment \<le> sp_max p - sp_size p"
  obtains bc dc where
    "appendBuffer p fragment = Inr (p\<lparr>sp_buffer := sp_buffer p @ fragment, sp_buffer_cap := bc, sp_data_cap := dc\<rparr>)"
    "len (sp_buffer p @ fragment) \<le> bc" "len (sp_data p) \<le> dc" "bc + dc \<le> sp_max p"
proof -
  let ?needed = "len (sp_buffer p) + len fragment"
  define dc where "dc = (if ?needed > sp_buffer_cap p \<and> sp_data_cap p + ?needed > sp_max p
    then len (sp_data p) else sp_data_cap p)"
  define bc where "bc = (if ?needed > sp_buffer_cap p then grown (sp_buffer_cap p) ?needed (sp_max p - dc)
    else sp_buffer_cap p)"
  have room: "?needed > sp_buffer_cap p \<Longrightarrow> ?needed \<le> sp_max p - dc" using assms by (simp add: dc_def)
  have nonneg: "0 \<le> sp_buffer_cap p" using assms(2) by linarith
  have bcs: "?needed \<le> bc" "bc + dc \<le> sp_max p"
    using grown_bounds [OF nonneg room] assms by (auto simp: bc_def dc_def)
  have "appendBuffer p fragment =
      Inr (p\<lparr>sp_buffer := sp_buffer p @ fragment, sp_buffer_cap := bc, sp_data_cap := dc\<rparr>)"
    using room assms by (auto simp: appendBuffer_def Let_def bc_def dc_def)
  with bcs assms(3) show thesis by (intro that [of dc bc]) (auto simp: dc_def)
qed

lemma appendDataLine_ok:
  assumes "sse_ok p" "sp_buffer p = []" "len (sp_data p) + len v + (if sp_has_data p then 1 else 0) \<le> sz"
    "sz \<le> sp_max p" "sp_terminal p = None"
  obtains q where "appendDataLine (p\<lparr>sp_size := sz\<rparr>) v = Inr q" "sse_ok q" "sp_max q = sp_max p"
    "view q = (view p)\<lparr>vw_size := sz, vw_data :=
       Some (case vw_data (view p) of None \<Rightarrow> v | Some s \<Rightarrow> s @ LF # v)\<rparr>"
proof -
  let ?needed = "len (sp_data p) + len v + (if sp_has_data p then 1 else 0)"
  define dc where "dc = (if ?needed > sp_data_cap p then grown (sp_data_cap p) ?needed (sp_max p) else sp_data_cap p)"
  let ?d = "sp_data p @ (if sp_has_data p then [LF] else []) @ v"
  have nonneg: "0 \<le> sp_data_cap p" using assms(1) by (simp add: sse_ok_def)
  have fits: "?needed \<le> sp_max p" using assms(3,4) by linarith
  have dcs: "?needed \<le> dc" "dc \<le> sp_max p"
    using grown_bounds [OF nonneg fits] assms(1,2) by (auto simp: dc_def sse_ok_def)
  show thesis
  proof (rule that)
    show "appendDataLine (p\<lparr>sp_size := sz\<rparr>) v =
        Inr (p\<lparr>sp_size := sz, sp_data_cap := dc, sp_data := ?d, sp_has_data := True\<rparr>)"
      using fits by (auto simp: appendDataLine_def Let_def dc_def algebra_simps)
  qed (use assms dcs in \<open>auto simp: sse_ok_def view_def\<close>)
qed

section \<open>The parser implements the view\<close>

lemma consumeLine_view:
  assumes "sse_ok p" "sp_buffer p = []" "sp_terminal p = None"
  shows "case (if line = [] then Inr (emptyView, map_option classify (vw_data (view p)))
      else if sp_size p + len line + 1 > sp_max p then Inl CodexSSEEventTooBig
      else Inr ((view p)\<lparr>vw_data := addData (vw_data (view p)) line, vw_size := sp_size p + len line + 1\<rparr>, None)) of
    Inl e \<Rightarrow> consumeLine classify p line = Inl e
  | Inr (v, obs) \<Rightarrow> \<exists>q. consumeLine classify p line = Inr (q, obs) \<and> view q = v \<and> sse_ok q \<and> sp_max q = sp_max p"
proof (cases "line = []")
  case True
  with assms show ?thesis
    by (auto simp: consumeLine_def sse_dispatch_def view_def emptyView_def sse_ok_def)
next
  case False
  let ?size = "sp_size p + (len line + 1)"
  have line: "consumeLine classify p line =
      (if ?size > sp_max p then Inl CodexSSEEventTooBig
       else if hd line \<noteq> CHR '':'' \<and> fieldOf line = ''data''
         then andThen (appendDataLine (p\<lparr>sp_size := ?size\<rparr>) (valueOf line)) (\<lambda>p. Inr (p, None))
       else Inr (p\<lparr>sp_size := ?size\<rparr>, None))"
    using False by (simp add: consumeLine_def Let_def)
  show ?thesis
  proof (cases "?size > sp_max p")
    case True
    with False line show ?thesis by simp
  next
    case fits: False
    show ?thesis
    proof (cases "hd line \<noteq> CHR '':'' \<and> fieldOf line = ''data''")
      case True
      have "len (sp_data p) + len (valueOf line) + (if sp_has_data p then 1 else 0) \<le> ?size"
        using len_valueOf [of line] assms(1) by (auto simp: sse_ok_def)
      with fits assms obtain q where "appendDataLine (p\<lparr>sp_size := ?size\<rparr>) (valueOf line) = Inr q" "sse_ok q"
        "sp_max q = sp_max p"
        "view q = (view p)\<lparr>vw_size := ?size, vw_data :=
           Some (case vw_data (view p) of None \<Rightarrow> valueOf line | Some s \<Rightarrow> s @ LF # valueOf line)\<rparr>"
        by (auto elim: appendDataLine_ok)
      with False fits line True show ?thesis by (simp add: addData_def add.assoc)
    next
      case other: False
      with False fits line assms show ?thesis
        by (auto simp: addData_def view_def sse_ok_def add.assoc)
    qed
  qed
qed

lemma dropCR_append:
  "dropCR (buffer @ fragment) =
     (if fragment \<noteq> [] \<and> last fragment = CR then buffer @ butlast fragment
      else if fragment = [] \<and> buffer \<noteq> [] \<and> last buffer = CR then butlast buffer
      else buffer @ fragment)"
  by (auto simp: dropCR_def butlast_append)

lemma feedLine_view:
  assumes "sse_ok p" "sp_terminal p = None" "LF \<notin> set fragment"
  shows "case specLine classify (sp_max p) (view p) fragment of
      Inl e \<Rightarrow> feedLine classify p fragment = Inl e
    | Inr (v, obs) \<Rightarrow>
        \<exists>q. feedLine classify p fragment = Inr (q, obs) \<and> view q = v \<and> sse_ok q \<and> sp_max q = sp_max p"
proof -
  define n where "n = (if fragment = [] \<and> sp_buffer p \<noteq> [] \<and> last (sp_buffer p) = CR
    then length (sp_buffer p) - 1 else length (sp_buffer p))"
  define f where "f = (if fragment \<noteq> [] \<and> last fragment = CR then butlast fragment else fragment)"
  let ?line = "take n (sp_buffer p) @ f"
  have line: "dropCR (sp_buffer p @ fragment) = ?line"
    by (auto simp: dropCR_append n_def f_def butlast_conv_take)
  have n: "n \<le> length (sp_buffer p)" by (simp add: n_def)
  let ?additional = "if int n + len f \<noteq> 0 then int n + len f + 1 else 0"
  have pair: "(if fragment \<noteq> [] \<and> last fragment = CR then (butlast fragment, length (sp_buffer p))
      else if fragment = [] \<and> sp_buffer p \<noteq> [] \<and> last (sp_buffer p) = CR
        then (fragment, length (sp_buffer p) - 1)
      else (fragment, length (sp_buffer p))) = (f, n)"
    by (auto simp: n_def f_def)
  have feed: "feedLine classify p fragment =
      (if ?additional > sp_max p - sp_size p then Inl CodexSSEEventTooBig
       else if sp_buffer p = [] then consumeLine classify p f
       else andThen (appendBuffer (p\<lparr>sp_buffer := take n (sp_buffer p)\<rparr>) f)
         (\<lambda>p. consumeLine classify (p\<lparr>sp_buffer := [], sp_buffer_cap := 0\<rparr>) (sp_buffer p)))"
    by (simp only: feedLine_def pair Let_def prod.case)
  have len: "int n + len f = len ?line" using n by simp
  have spec: "specLine classify (sp_max p) (view p) fragment =
      (if ?line = [] then Inr (emptyView, map_option classify (vw_data (view p)))
       else if sp_size p + len ?line + 1 > sp_max p then Inl CodexSSEEventTooBig
       else Inr ((view p)\<lparr>vw_pending := [], vw_data := addData (vw_data (view p)) ?line,
         vw_size := sp_size p + len ?line + 1\<rparr>, None))"
    by (simp only: specLine_def Let_def view_simps line)
  have fits: "0 \<le> sp_max p - sp_size p" using assms(1) by (simp add: sse_ok_def)
  show ?thesis
  proof (cases "?additional > sp_max p - sp_size p")
    case True
    with fits len have "?line \<noteq> []" "sp_size p + len ?line + 1 > sp_max p" by (auto split: if_splits)
    with True feed spec show ?thesis by simp
  next
    case small: False
    show ?thesis
    proof (cases "sp_buffer p = []")
      case True
      have same: "?line = f" "(view p)\<lparr>vw_pending := []\<rparr> = view p" using True by (simp_all add: view_def)
      from small True feed have feed': "feedLine classify p fragment = consumeLine classify p f" by simp
      from consumeLine_view [OF assms(1) True assms(2), where line = f and classify = classify] show ?thesis
        unfolding feed' spec same .
    next
      case False
      let ?p = "p\<lparr>sp_buffer := take n (sp_buffer p)\<rparr>"
      from small len have needed: "len (sp_buffer ?p) + len f \<le> sp_max ?p - sp_size ?p"
        by (auto split: if_splits)
      have room: "0 < sp_max ?p" "len (sp_buffer ?p) \<le> sp_buffer_cap ?p" "len (sp_data ?p) \<le> sp_data_cap ?p"
        "sp_buffer_cap ?p + sp_data_cap ?p \<le> sp_max ?p" "len (sp_data ?p) \<le> sp_size ?p"
        using assms(1) by (auto simp: sse_ok_def)
      obtain bc dc where q:
        "appendBuffer ?p f = Inr (?p\<lparr>sp_buffer := sp_buffer ?p @ f, sp_buffer_cap := bc, sp_data_cap := dc\<rparr>)"
        "len (sp_buffer ?p @ f) \<le> bc" "len (sp_data ?p) \<le> dc" "bc + dc \<le> sp_max ?p"
        by (rule appendBuffer_ok [OF room needed])
      define q where "q = p\<lparr>sp_data_cap := dc, sp_buffer := [], sp_buffer_cap := 0\<rparr>"
      have ok: "sse_ok q" "sp_buffer q = []" "sp_terminal q = None"
        using assms(1,2) q(2-4) by (auto simp: sse_ok_def q_def)
      have feed': "feedLine classify p fragment = consumeLine classify q ?line"
        using small False feed q(1) by (simp add: q_def)
      have same: "(view p)\<lparr>vw_pending := []\<rparr> = view q" "vw_data (view p) = vw_data (view q)" "sp_size p = sp_size q"
        by (simp_all add: view_def q_def)
      have max: "sp_max q = sp_max p" by (simp add: q_def)
      from consumeLine_view [OF ok, where line = "?line" and classify = classify] show ?thesis
        unfolding feed' spec same max .
    qed
  qed
qed

lemma rest_shorter: "LF \<in> set chunk \<Longrightarrow> length (tl (dropWhile (\<lambda>c. c \<noteq> LF) chunk)) < length chunk"
proof -
  assume "LF \<in> set chunk"
  then have "dropWhile (\<lambda>c. c \<noteq> LF) chunk \<noteq> []" by (auto simp: dropWhile_eq_Nil_conv)
  moreover have "length (dropWhile (\<lambda>c. c \<noteq> LF) chunk) \<le> length chunk" by (rule length_dropWhile_le)
  ultimately show ?thesis by (cases "dropWhile (\<lambda>c. c \<noteq> LF) chunk") auto
qed

lemma LF_not_in_takeWhile: "LF \<notin> set (takeWhile (\<lambda>c. c \<noteq> LF) chunk)"
  by (auto dest: set_takeWhileD)

lemma feedLoop_view:
  assumes "sse_ok p" "sp_terminal p = None"
  shows "\<exists>q. feedLoop classify p chunk obs =
      Some (case specLoop classify (sp_max p) (view p) chunk of (os, v, e) \<Rightarrow> (obs @ os, q, e)) \<and>
    view q = fst (snd (specLoop classify (sp_max p) (view p) chunk)) \<and> sse_ok q \<and> sp_max q = sp_max p"
  using assms
proof (induction "length chunk" arbitrary: p chunk obs rule: less_induct)
  case less
  note fail = sse_fail_view [OF less.prems(2,1)]
  show ?case
  proof (cases "LF \<in> set chunk")
    case False
    show ?thesis
    proof (cases "chunk = []")
      case True
      with less.prems show ?thesis by (auto simp: feedLoop.simps specLoop.simps view_def)
    next
      case nonempty: False
      show ?thesis
      proof (cases "sp_size p + len (sp_buffer p @ chunk) > sp_max p")
        case True
        then have "appendBuffer p chunk = Inl CodexSSEEventTooBig" by (simp add: appendBuffer_def)
        moreover obtain q where "sse_fail p CodexSSEEventTooBig = (q, CodexSSEEventTooBig)"
          "view q = specFail CodexSSEEventTooBig" "sse_ok q" "sp_max q = sp_max p"
          by (rule fail)
        ultimately show ?thesis using True False nonempty
          by (simp add: feedLoop.simps specLoop.simps view_def)
      next
        case fits: False
        then have "len (sp_buffer p) + len chunk \<le> sp_max p - sp_size p" by simp
        from appendBuffer_ok [OF sse_room [OF less.prems(1)] this] obtain bc dc where "appendBuffer p chunk =
            Inr (p\<lparr>sp_buffer := sp_buffer p @ chunk, sp_buffer_cap := bc, sp_data_cap := dc\<rparr>)"
          "len (sp_buffer p @ chunk) \<le> bc" "len (sp_data p) \<le> dc" "bc + dc \<le> sp_max p"
          by metis
        with fits False nonempty less.prems show ?thesis
          by (auto simp: feedLoop.simps specLoop.simps view_def sse_ok_def)
      qed
    qed
  next
    case True
    let ?f = "takeWhile (\<lambda>c. c \<noteq> LF) chunk" and ?r = "tl (dropWhile (\<lambda>c. c \<noteq> LF) chunk)"
    have nonempty: "chunk \<noteq> []" using True by auto
    note line = feedLine_view [OF less.prems LF_not_in_takeWhile, of classify chunk]
    show ?thesis
    proof (cases "specLine classify (sp_max p) (view p) ?f")
      case (Inl e)
      moreover obtain q where "sse_fail p e = (q, e)" "view q = specFail e" "sse_ok q" "sp_max q = sp_max p"
        by (rule fail)
      ultimately show ?thesis using line True nonempty
        by (simp add: feedLoop.simps [of _ p chunk] specLoop.simps [of _ _ _ chunk])
    next
      case (Inr r)
      obtain v o' where r: "r = (v, o')" by (cases r)
      with line Inr obtain q where q: "feedLine classify p ?f = Inr (q, o')" "view q = v" "sse_ok q"
        "sp_max q = sp_max p"
        by auto
      have live: "sp_terminal q = None"
        using q(2) Inr r less.prems(2)
        by (auto simp: specLine_def Let_def view_def emptyView_def split: if_splits)
      obtain os v' e where spec: "specLoop classify (sp_max p) v ?r = (os, v', e)"
        by (cases "specLoop classify (sp_max p) v ?r")
      from less.hyps [OF rest_shorter [OF True] q(3) live, of "obs @ (case o' of None \<Rightarrow> [] | Some x \<Rightarrow> [x])"]
      obtain q' where "feedLoop classify q ?r (obs @ (case o' of None \<Rightarrow> [] | Some x \<Rightarrow> [x])) =
          Some (obs @ (case o' of None \<Rightarrow> [] | Some x \<Rightarrow> [x]) @ os, q', e)"
        "view q' = v'" "sse_ok q'" "sp_max q' = sp_max p"
        using spec q(2,4) by auto
      with True nonempty q(1) Inr r spec show ?thesis
        by (simp add: feedLoop.simps [of _ p chunk] specLoop.simps [of _ _ _ chunk])
    qed
  qed
qed

lemma Feed_view:
  assumes "sse_ok p"
  obtains q where "Feed classify p chunk =
      Some (case specFeed classify (sp_max p) (view p) chunk of (os, v, e) \<Rightarrow> (os, q, e))"
    "view q = fst (snd (specFeed classify (sp_max p) (view p) chunk))" "sse_ok q" "sp_max q = sp_max p"
proof (cases "sp_terminal p")
  case None
  with feedLoop_view [OF assms None, of classify chunk "[]"] show thesis
    by (auto simp: Feed_def specFeed_def view_def intro: that)
next
  case (Some e)
  with assms show thesis by (intro that [of p]) (simp_all add: Feed_def specFeed_def view_def)
qed

section \<open>Chunks\<close>

text \<open>A reader feeds the chunks it gets, in order, up to the first error.\<close>

fun FeedAll ::
  "(string \<Rightarrow> 'o) \<Rightarrow> sse_parser \<Rightarrow> string list \<Rightarrow> ('o list \<times> sse_parser \<times> sse_error option) option" where
  "FeedAll classify p [] = Some ([], p, None)"
| "FeedAll classify p (chunk # chunks) =
     Option.bind (Feed classify p chunk) (\<lambda>(os, q, e).
       if e \<noteq> None then Some (os, q, e)
       else map_option (\<lambda>(os', r, e). (os @ os', r, e)) (FeedAll classify q chunks))"

lemma takeWhile_LF_append:
  "takeWhile (\<lambda>c. c \<noteq> LF) (c1 @ c2) =
     (if LF \<in> set c1 then takeWhile (\<lambda>c. c \<noteq> LF) c1 else c1 @ takeWhile (\<lambda>c. c \<noteq> LF) c2)"
  by (auto simp: takeWhile_append)

lemma rest_append:
  "LF \<in> set c1 \<Longrightarrow> tl (dropWhile (\<lambda>c. c \<noteq> LF) (c1 @ c2)) = tl (dropWhile (\<lambda>c. c \<noteq> LF) c1) @ c2"
  "LF \<notin> set c1 \<Longrightarrow> tl (dropWhile (\<lambda>c. c \<noteq> LF) (c1 @ c2)) = tl (dropWhile (\<lambda>c. c \<noteq> LF) c2)"
  by (auto simp: dropWhile_append tl_append dropWhile_eq_Nil_conv split: list.split)

lemma specLine_pending:
  "vw_terminal v = None \<Longrightarrow>
   specLine classify m (v\<lparr>vw_pending := vw_pending v @ c\<rparr>) f = specLine classify m v (c @ f)"
  by (simp add: specLine_def Let_def)

lemma specLine_live:
  "specLine classify m v f = Inr (v', obs) \<Longrightarrow> vw_terminal v = None \<Longrightarrow> vw_terminal v' = None"
  by (auto simp: specLine_def Let_def emptyView_def split: if_splits)

lemma specLine_long:
  assumes "c \<noteq> []" "last c \<noteq> CR" "vw_size v + len (vw_pending v @ c) > m"
  shows "specLine classify m v (c @ f) = Inl CodexSSEEventTooBig"
proof -
  have "dropCR (vw_pending v @ c @ f) = vw_pending v @ c @ dropCR f"
    using assms(1,2) by (auto simp: dropCR_def butlast_append)
  with assms show ?thesis by (simp add: specLine_def Let_def)
qed

lemma last_rest:
  assumes "tl (dropWhile P c) \<noteq> []"
  shows "last (tl (dropWhile P c)) = last c"
proof -
  have "c = takeWhile P c @ dropWhile P c" by simp
  moreover have "dropWhile P c = hd (dropWhile P c) # tl (dropWhile P c)"
    using assms by (cases "dropWhile P c") auto
  ultimately have "c = (takeWhile P c @ [hd (dropWhile P c)]) @ tl (dropWhile P c)"
    by (metis append.assoc append_Cons append_Nil)
  with assms show ?thesis by (metis last_appendR)
qed

lemma specLoop_pending:
  assumes "LF \<notin> set c1" "c1 \<noteq> []" "vw_terminal v = None" "\<not> vw_size v + len (vw_pending v @ c1) > m"
  shows "specLoop classify m v (c1 @ c2) = specLoop classify m (v\<lparr>vw_pending := vw_pending v @ c1\<rparr>) c2"
  using assms
  by (cases "LF \<in> set c2")
    (simp_all add: specLoop.simps [of _ _ v "c1 @ c2"] specLoop.simps [of _ _ _ c2] takeWhile_LF_append
      rest_append specLine_pending split: sum.split)

lemma specLoop_Nil: "specLoop classify m v [] = ([], v, None)"
  by (simp add: specLoop.simps)

lemma specLoop_append:
  assumes "vw_terminal v = None" and "specLoop classify m v c1 = (o1, v1, e1)"
    and "e1 = None \<or> c1 = [] \<or> last c1 \<noteq> CR"
  shows "specLoop classify m v (c1 @ c2) =
    (case specFeed classify m v1 c2 of (o2, v2, e2) \<Rightarrow> (o1 @ o2, v2, e2))"
  using assms
proof (induction "length c1" arbitrary: c1 v o1 v1 e1 rule: less_induct)
  case less
  let ?f = "\<lambda>c. takeWhile (\<lambda>c. c \<noteq> LF) c" and ?r = "\<lambda>c. tl (dropWhile (\<lambda>c. c \<noteq> LF) c)"
  note unf = specLoop.simps [of _ _ v "c1 @ c2"] specLoop.simps [of _ _ v c1]
  show ?case
  proof (cases "LF \<in> set c1")
    case True
    then have both: "?f (c1 @ c2) = ?f c1" "?r (c1 @ c2) = ?r c1 @ c2"
      by (simp_all add: takeWhile_LF_append rest_append)
    show ?thesis
    proof (cases "specLine classify m v (?f c1)")
      case (Inl e)
      with less.prems True show ?thesis by (auto simp: unf both specFeed_def specFail_def)
    next
      case (Inr x)
      obtain v' obs where x: "x = (v', obs)" by (cases x)
      obtain o' v'' e' where rest: "specLoop classify m v' (?r c1) = (o', v'', e')"
        by (cases "specLoop classify m v' (?r c1)")
      have got: "o1 = case_option [] (\<lambda>o'. [o']) obs @ o'" "v1 = v''" "e1 = e'"
        using less.prems(2) True Inr x rest by (auto simp: unf)
      have "e' = None \<or> ?r c1 = [] \<or> last (?r c1) \<noteq> CR"
        using less.prems(3) got(3) last_rest [of "\<lambda>c. c \<noteq> LF" c1] by (cases "?r c1 = []") auto
      with less.hyps [OF rest_shorter [OF True] specLine_live [OF Inr [unfolded x] less.prems(1)] rest]
      show ?thesis using True Inr x by (simp add: unf both got split: prod.splits)
    qed
  next
    case none: False
    then have both: "?f (c1 @ c2) = c1 @ ?f c2" "?r (c1 @ c2) = ?r c2"
      by (simp_all add: takeWhile_LF_append rest_append)
    show ?thesis
    proof (cases "c1 \<noteq> [] \<and> vw_size v + len (vw_pending v @ c1) > m")
      case True
      with none less.prems(2) have e1: "e1 = Some CodexSSEEventTooBig" "o1 = []" "v1 = specFail CodexSSEEventTooBig"
        by (simp_all add: unf)
      with less.prems(3) True have "specLine classify m v (c1 @ ?f c2) = Inl CodexSSEEventTooBig"
        by (intro specLine_long) auto
      with True none e1 show ?thesis by (simp add: unf both specFeed_def specFail_def)
    next
      case False
      with none less.prems(2) have got: "e1 = None" "o1 = []" "v1 = v\<lparr>vw_pending := vw_pending v @ c1\<rparr>"
        by (auto simp: unf)
      have "specLoop classify m v (c1 @ c2) = specLoop classify m v1 c2"
      proof (cases "c1 = []")
        case True
        with got(3) show ?thesis by simp
      next
        case nonempty: False
        from none nonempty less.prems(1) show ?thesis
          unfolding got(3) by (rule specLoop_pending) (use False nonempty in simp)
      qed
      with less.prems(1) got show ?thesis by (simp add: specFeed_def)
    qed
  qed
qed

lemma specFeed_append:
  assumes "specFeed classify m v c1 = (o1, v1, e1)" "e1 = None \<or> c1 = [] \<or> last c1 \<noteq> CR"
  shows "specFeed classify m v (c1 @ c2) =
    (case specFeed classify m v1 c2 of (o2, v2, e2) \<Rightarrow> (o1 @ o2, v2, e2))"
  using assms by (auto simp: specFeed_def specLoop_append split: option.splits)

lemma specFeed_error:
  assumes "specFeed classify m v c = (os, v', Some e)"
  shows "specFeed classify m v' c' = ([], v', Some e)"
proof (cases "vw_terminal v")
  case (Some e')
  with assms show ?thesis by (auto simp: specFeed_def)
next
  case None
  have "specLoop classify m v c = (os, v', Some e) \<Longrightarrow> vw_terminal v' = Some e" for v os
  proof (induction "length c" arbitrary: c v os rule: less_induct)
    case less
    show ?case
    proof (cases "LF \<in> set c")
      case False
      with less.prems show ?thesis by (auto simp: specLoop.simps [of _ _ _ c] specFail_def split: if_splits)
    next
      case True
      with less.prems less.hyps [OF rest_shorter [OF True]] show ?thesis
        by (auto simp: specLoop.simps [of _ _ _ c] specFail_def split: sum.splits prod.splits)
    qed
  qed
  with None assms show ?thesis by (simp add: specFeed_def)
qed

lemma specLoop_live:
  "specLoop classify m v c = (os, v', None) \<Longrightarrow> vw_terminal v = None \<Longrightarrow> vw_terminal v' = None"
proof (induction "length c" arbitrary: c v os rule: less_induct)
  case less
  show ?case
  proof (cases "LF \<in> set c")
    case False
    with less.prems show ?thesis by (auto simp: specLoop.simps [of _ _ _ c] split: if_splits)
  next
    case True
    with less.prems less.hyps [OF rest_shorter [OF True]] show ?thesis
      by (auto simp: specLoop.simps [of _ _ _ c] dest: specLine_live split: sum.splits prod.splits)
  qed
qed

lemma FeedAll_view:
  assumes "sse_ok p" "sp_terminal p = None" "FeedAll classify p chunks = Some (os, q, e)"
    and "e = None \<or> (\<forall>c \<in> set chunks. c = [] \<or> last c \<noteq> CR)"
  shows "specFeed classify (sp_max p) (view p) (concat chunks) = (os, view q, e)"
  using assms
proof (induction chunks arbitrary: p os)
  case Nil
  then show ?case by (simp add: specFeed_def specLoop_Nil)
next
  case (Cons c cs)
  obtain q1 where q1: "Feed classify p c =
      Some (case specFeed classify (sp_max p) (view p) c of (os, v, e) \<Rightarrow> (os, q1, e))"
    "view q1 = fst (snd (specFeed classify (sp_max p) (view p) c))" "sse_ok q1" "sp_max q1 = sp_max p"
    by (rule Feed_view [OF Cons.prems(1)])
  obtain os1 e1 where s1: "specFeed classify (sp_max p) (view p) c = (os1, view q1, e1)"
    using q1(2) by (metis prod.collapse)
  have F: "Feed classify p c = Some (os1, q1, e1)" using q1(1) s1 by simp
  show ?case
  proof (cases e1)
    case (Some e')
    with F Cons.prems(3) have r: "os = os1" "q = q1" "e = Some e'" by auto
    with Cons.prems(4) have "c = [] \<or> last c \<noteq> CR" by auto
    from specFeed_append [OF s1, of "concat cs"] this specFeed_error [of classify "sp_max p" _ c os1 "view q1" e']
    show ?thesis using s1 Some r by simp
  next
    case None
    with F Cons.prems(3) obtain os2 where rest: "FeedAll classify q1 cs = Some (os2, q, e)" "os = os1 @ os2"
      by auto
    have "sp_terminal q1 = None"
      using specLoop_live [of classify "sp_max p" "view p" c os1 "view q1"] s1 None Cons.prems(2)
      by (simp add: specFeed_def)
    from Cons.IH [OF q1(3) this rest(1)] Cons.prems(4)
    have "specFeed classify (sp_max p) (view q1) (concat cs) = (os2, view q, e)" by (auto simp: q1(4))
    with specFeed_append [OF s1, of "concat cs"] None rest(2) show ?thesis by simp
  qed
qed

lemma FeedAll_ok:
  assumes "sse_ok p" "FeedAll classify p chunks = Some (os, q, e)"
  shows "sse_ok q \<and> sp_max q = sp_max p"
  using assms
proof (induction chunks arbitrary: p os)
  case (Cons c cs)
  obtain q1 where q1: "Feed classify p c =
      Some (case specFeed classify (sp_max p) (view p) c of (os, v, e) \<Rightarrow> (os, q1, e))"
    "sse_ok q1" "sp_max q1 = sp_max p"
    by (rule Feed_view [OF Cons.prems(1)])
  with Cons.prems(2) Cons.IH [of q1] show ?case by (auto split: prod.splits if_splits)
qed simp

lemma FeedAll_returns:
  assumes "sse_ok p"
  shows "\<exists>os q e. FeedAll classify p chunks = Some (os, q, e)"
  using assms
proof (induction chunks arbitrary: p)
  case (Cons c cs)
  obtain q1 where q1: "Feed classify p c =
      Some (case specFeed classify (sp_max p) (view p) c of (os, v, e) \<Rightarrow> (os, q1, e))"
    "sse_ok q1"
    by (rule Feed_view [OF Cons.prems])
  with Cons.IH [OF q1(2)] show ?case by (auto split: prod.split)
qed simp

section \<open>Properties\<close>

text \<open>
  C35. Feeding returns: whatever the parser holds and the chunk is, the loop of \<open>Feed\<close> ends, with
  the observations of the chunk and the parser after it.
\<close>

theorem sse_feed_returns: "\<exists>os q e. Feed classify p chunk = Some (os, q, e)"
proof -
  have "\<exists>os q e. feedLoop classify p chunk obs = Some (os, q, e)" for obs
  proof (induction "length chunk" arbitrary: chunk p obs rule: less_induct)
    case less
    show ?case
      using less [OF rest_shorter]
      by (auto simp: feedLoop.simps [of _ p chunk] split: sum.split prod.split)
  qed
  then show ?thesis by (auto simp: Feed_def split: option.split)
qed

text \<open>
  C36. The bound on memory: however a stream is cut into chunks, the buffer of the unfinished line
  and the data of the event together never hold more than the limit, nor does what the event has
  taken with the line that is to follow.
\<close>

theorem sse_memory:
  assumes "FeedAll classify (NewCodexSSEParser m) chunks = Some (os, q, e)"
    and "limit = (if m \<le> 0 then codexSSEDefaultMaxEventBytes else m)"
  shows "sp_buffer_cap q + sp_data_cap q \<le> limit \<and> len (sp_buffer q) \<le> sp_buffer_cap q \<and>
    len (sp_data q) \<le> sp_data_cap q \<and> sp_size q + len (sp_buffer q) \<le> limit"
proof -
  have "sse_ok q \<and> sp_max q = limit"
    using FeedAll_ok [OF sse_ok_new assms(1)] assms(2) by (simp add: NewCodexSSEParser_def)
  then show ?thesis by (simp add: sse_ok_def)
qed

theorem sse_memory_witness:
  "\<exists>os q e. FeedAll length (NewCodexSSEParser 8) [''data'', '': x''] = Some (os, q, e) \<and>
    sp_buffer q = ''data: x'' \<and> sp_buffer_cap q + sp_data_cap q \<le> 8"
proof -
  have run: "FeedAll length (NewCodexSSEParser 8) [''data'', '': x''] =
      Some ([], (NewCodexSSEParser 8)\<lparr>sp_buffer := ''data: x'', sp_buffer_cap := 8\<rparr>, None)"
    by (simp add: NewCodexSSEParser_def Feed_def feedLoop.simps appendBuffer_def grown_def)
  from sse_memory [OF this refl] show ?thesis unfolding run by (auto simp: NewCodexSSEParser_def)
qed

text \<open>
  C37. Chunks do not matter: what a parser emits for a stream, and the error it ends in, are those
  of the stream fed in one piece, provided the stream was accepted or no chunk ends in a carriage
  return.
\<close>

theorem sse_chunks_irrelevant:
  assumes "FeedAll classify (NewCodexSSEParser m) chunks = Some (os, p, e)"
    and "e = None \<or> (\<forall>c \<in> set chunks. c = [] \<or> last c \<noteq> CR)"
  shows "\<exists>q. Feed classify (NewCodexSSEParser m) (concat chunks) = Some (os, q, e) \<and> view q = view p"
proof -
  have live: "sp_terminal (NewCodexSSEParser m) = None" by (simp add: NewCodexSSEParser_def)
  note spec = FeedAll_view [OF sse_ok_new live assms]
  obtain q where "Feed classify (NewCodexSSEParser m) (concat chunks) =
      Some (case specFeed classify (sp_max (NewCodexSSEParser m)) (view (NewCodexSSEParser m)) (concat chunks) of
        (os, v, e) \<Rightarrow> (os, q, e))"
    "view q = fst (snd (specFeed classify (sp_max (NewCodexSSEParser m)) (view (NewCodexSSEParser m)) (concat chunks)))"
    by (rule Feed_view [OF sse_ok_new])
  with spec show ?thesis by simp
qed

theorem sse_chunks_irrelevant_witness:
  "\<exists>q. Feed length (NewCodexSSEParser 8) ''data: x'' = Some ([], q, None) \<and> sp_buffer q = ''data: x''"
proof -
  have "FeedAll length (NewCodexSSEParser 8) [''data'', '': x''] =
      Some ([], (NewCodexSSEParser 8)\<lparr>sp_buffer := ''data: x'', sp_buffer_cap := 8\<rparr>, None)"
    by (simp add: NewCodexSSEParser_def Feed_def feedLoop.simps appendBuffer_def grown_def)
  from sse_chunks_irrelevant [OF this] obtain q where
    "Feed length (NewCodexSSEParser 8) ''data: x'' = Some ([], q, None)" "sp_buffer q = ''data: x''"
    by (auto simp: view_def)
  then show ?thesis by blast
qed

section \<open>Events written and read\<close>

text \<open>An event as a server writes it: a data line for every line of its data, and a blank line.\<close>

definition dataLine :: "string \<Rightarrow> string" where
  "dataLine l = ''data: '' @ l"

definition renderEvent :: "string list \<Rightarrow> string" where
  "renderEvent ls = concat (map (\<lambda>l. dataLine l @ [LF]) ls) @ [LF]"

fun joinLines :: "string list \<Rightarrow> string" where
  "joinLines [] = []"
| "joinLines [l] = l"
| "joinLines (l # ls) = l @ LF # joinLines ls"

definition eventSize :: "string list \<Rightarrow> int" where
  "eventSize ls = sum_list (map (\<lambda>l. len (dataLine l) + 1) ls)"

definition plainLines :: "string list \<Rightarrow> bool" where
  "plainLines ls \<longleftrightarrow> ls \<noteq> [] \<and> (\<forall>l \<in> set ls. LF \<notin> set l \<and> CR \<notin> set l)"

lemma specLoop_line:
  assumes "LF \<notin> set line"
  shows "specLoop classify m v (line @ LF # rest) =
    (case specLine classify m v line of
       Inl e \<Rightarrow> ([], specFail e, Some e)
     | Inr (v', obs) \<Rightarrow>
         (case specLoop classify m v' rest of (os, v'', e) \<Rightarrow> (case_option [] (\<lambda>o'. [o']) obs @ os, v'', e)))"
proof -
  have "takeWhile (\<lambda>c. c \<noteq> LF) (line @ LF # rest) = line"
    "tl (dropWhile (\<lambda>c. c \<noteq> LF) (line @ LF # rest)) = rest"
    using assms by (auto simp: takeWhile_LF_append rest_append)
  then show ?thesis by (simp add: specLoop.simps [of _ _ _ "line @ LF # rest"] split: sum.split)
qed

definition midEvent :: "string option \<Rightarrow> int \<Rightarrow> sse_view" where
  "midEvent d n = \<lparr>vw_pending = [], vw_data = d, vw_size = n, vw_terminal = None\<rparr>"

lemma emptyView_terminal [simp]: "vw_terminal emptyView = None"
  by (simp add: emptyView_def)

lemma emptyView_mid: "emptyView = midEvent None 0"
  by (simp add: emptyView_def midEvent_def)

lemma specLine_data:
  assumes "LF \<notin> set l" "CR \<notin> set l" "n + len (dataLine l) + 1 \<le> m"
  shows "specLine classify m (midEvent d n) (dataLine l) =
    Inr (midEvent (Some (case d of None \<Rightarrow> l | Some s \<Rightarrow> s @ LF # l)) (n + len (dataLine l) + 1), None)"
proof -
  have "l \<noteq> [] \<Longrightarrow> last l \<noteq> CR" using assms(2) by (metis last_in_set)
  then have "dropCR (dataLine l) = dataLine l" by (auto simp: dropCR_def dataLine_def)
  moreover have "fieldOf (dataLine l) = ''data''" "valueOf (dataLine l) = l"
    by (simp_all add: fieldOf_def valueOf_def dataLine_def)
  ultimately show ?thesis using assms(3)
    by (simp add: specLine_def midEvent_def addData_def dataLine_def Let_def split: option.split)
qed

lemma specLoop_lines:
  assumes "\<forall>l \<in> set ls. LF \<notin> set l \<and> CR \<notin> set l" "n + eventSize ls \<le> m"
  shows "specLoop classify m (midEvent (Some s) n) (concat (map (\<lambda>l. dataLine l @ [LF]) ls) @ rest) =
    specLoop classify m (midEvent (Some (foldl (\<lambda>s l. s @ LF # l) s ls)) (n + eventSize ls)) rest"
  using assms
proof (induction ls arbitrary: s n)
  case (Cons l ls)
  have size: "0 \<le> eventSize ls" by (auto simp: eventSize_def intro!: sum_list_nonneg)
  have plain: "LF \<notin> set (dataLine l)" using Cons.prems by (simp add: dataLine_def)
  have fits: "n + len (dataLine l) + 1 \<le> m" using Cons.prems(2) size by (simp add: eventSize_def)
  have ih: "specLoop classify m (midEvent (Some (s @ LF # l)) (n + len (dataLine l) + 1))
      (concat (map (\<lambda>l. dataLine l @ [LF]) ls) @ rest) =
    specLoop classify m (midEvent (Some (foldl (\<lambda>s l. s @ LF # l) (s @ LF # l) ls))
      (n + len (dataLine l) + 1 + eventSize ls)) rest"
    using Cons.prems by (intro Cons.IH) (auto simp: eventSize_def)
  have "concat (map (\<lambda>l. dataLine l @ [LF]) (l # ls)) @ rest =
      dataLine l @ LF # (concat (map (\<lambda>l. dataLine l @ [LF]) ls) @ rest)"
    by simp
  with specLoop_line [OF plain, where classify = classify] specLine_data [OF _ _ fits, where classify = classify] Cons.prems(1) ih show ?case
    by (simp add: eventSize_def add.assoc split: prod.split)
qed (simp add: eventSize_def)

lemma joinLines_foldl: "foldl (\<lambda>s l. s @ LF # l) s ls = joinLines (s # ls)"
proof (induction ls arbitrary: s)
  case (Cons l ls)
  have "joinLines ((s @ LF # l) # ls) = s @ LF # joinLines (l # ls)" by (cases ls) simp_all
  with Cons show ?case by simp
qed simp

lemma specLoop_event:
  assumes "plainLines ls" "eventSize ls \<le> m"
  shows "specLoop classify m emptyView (renderEvent ls @ rest) =
    (case specLoop classify m emptyView rest of (os, v, e) \<Rightarrow> (classify (joinLines ls) # os, v, e))"
proof -
  obtain l ls' where ls: "ls = l # ls'" using assms(1) by (cases ls) (auto simp: plainLines_def)
  have plain: "LF \<notin> set l" "CR \<notin> set l" "LF \<notin> set (dataLine l)" "\<forall>l \<in> set ls'. LF \<notin> set l \<and> CR \<notin> set l"
    using assms(1) ls by (auto simp: plainLines_def dataLine_def)
  have "0 \<le> eventSize ls'" by (auto simp: eventSize_def intro!: sum_list_nonneg)
  with assms(2) ls have fits: "0 + len (dataLine l) + 1 \<le> m" by (simp add: eventSize_def)
  have n: "len (dataLine l) + 1 + eventSize ls' \<le> m" using assms(2) ls by (simp add: eventSize_def)
  have "specLoop classify m emptyView (renderEvent ls @ rest) =
      specLoop classify m (midEvent (Some l) (len (dataLine l) + 1))
        (concat (map (\<lambda>l. dataLine l @ [LF]) ls') @ LF # rest)"
    using specLoop_line [OF plain(3), of classify m "midEvent None 0"] specLine_data [OF plain(1,2) fits, where classify = classify]
    by (simp add: renderEvent_def ls emptyView_mid split: prod.split)
  also have "\<dots> = specLoop classify m (midEvent (Some (joinLines ls)) (eventSize ls)) ([] @ LF # rest)"
    using specLoop_lines [OF plain(4) n] by (simp add: joinLines_foldl ls eventSize_def)
  also have "\<dots> = (case specLoop classify m emptyView rest of (os, v, e) \<Rightarrow> (classify (joinLines ls) # os, v, e))"
    by (subst specLoop_line) (simp_all add: specLine_def midEvent_def dropCR_def split: prod.split)
  finally show ?thesis .
qed

lemma specLoop_events:
  assumes "\<forall>ls \<in> set events. plainLines ls \<and> eventSize ls \<le> m"
  shows "specLoop classify m emptyView (concat (map renderEvent events)) =
    (map (classify \<circ> joinLines) events, emptyView, None)"
  using assms
  by (induction events) (simp_all add: specLoop_Nil specLoop_event)

lemma CR_chunk:
  assumes "concat chunks = concat (map renderEvent events)" "\<forall>ls \<in> set events. plainLines ls" "c \<in> set chunks"
  shows "c = [] \<or> last c \<noteq> CR"
proof -
  have "CR \<notin> set (concat (map renderEvent events))"
    using assms(2) by (auto simp: renderEvent_def plainLines_def dataLine_def)
  with assms(1,3) have "CR \<notin> set c" by (metis UN_I set_concat)
  then show ?thesis by (metis last_in_set)
qed

text \<open>
  C38. What is written is read back: a stream of events within the limit, cut into chunks in any
  way, yields one observation per event, of its data, and ends without error.
\<close>

theorem sse_roundtrip:
  assumes "\<forall>ls \<in> set events. plainLines ls \<and> eventSize ls \<le> m" and "0 < m"
    and "concat chunks = concat (map renderEvent events)"
  shows "\<exists>p. FeedAll classify (NewCodexSSEParser m) chunks = Some (map (classify \<circ> joinLines) events, p, None) \<and>
    sse_Finish p = (p, None)"
proof -
  let ?new = "NewCodexSSEParser m"
  have live: "sp_terminal ?new = None" "sp_max ?new = m" using assms(2) by (simp_all add: NewCodexSSEParser_def)
  obtain os p e where run: "FeedAll classify ?new chunks = Some (os, p, e)"
    using FeedAll_returns [OF sse_ok_new] by blast
  have "e = None \<or> (\<forall>c \<in> set chunks. c = [] \<or> last c \<noteq> CR)"
    using CR_chunk [OF assms(3)] assms(1) by blast
  from FeedAll_view [OF sse_ok_new live(1) run this]
  have "specFeed classify m emptyView (concat chunks) = (os, view p, e)" by (simp add: live(2) view_new)
  moreover have "specFeed classify m emptyView (concat chunks) = (map (classify \<circ> joinLines) events, emptyView, None)"
    using specLoop_events [OF assms(1)] by (simp add: assms(3) specFeed_def)
  ultimately have "os = map (classify \<circ> joinLines) events" "view p = emptyView" "e = None" by simp_all
  with run show ?thesis by (auto simp: sse_Finish_def view_def emptyView_def split: if_splits)
qed

theorem sse_roundtrip_witness:
  "\<exists>p. FeedAll length (NewCodexSSEParser 16)
      [''data: a'' @ [LF], ''da'', ''ta: b'' @ [LF, LF] @ ''data:'', '' '' @ [LF, LF]] = Some ([3, 0], p, None)"
proof -
  have events: "\<forall>ls \<in> set [[''a'', ''b''], [[]]]. plainLines ls \<and> eventSize ls \<le> 16"
    by (simp add: plainLines_def eventSize_def dataLine_def)
  have "concat [''data: a'' @ [LF], ''da'', ''ta: b'' @ [LF, LF] @ ''data:'', '' '' @ [LF, LF]] =
      concat (map renderEvent [[''a'', ''b''], [[]]])"
    by (simp add: renderEvent_def dataLine_def)
  from sse_roundtrip [OF events _ this, of length] show ?thesis by auto
qed

text \<open>
  Where chunks do matter: an event that fills the limit, ended by CR LF, is accepted in one
  piece and refused when a chunk ends between the two bytes.
\<close>

theorem sse_split_line_end:
  assumes "7 \<le> m" and "line = dataLine (replicate (nat (m - 7)) (CHR ''x''))"
  shows "(\<exists>p. FeedAll classify (NewCodexSSEParser m) [line @ [LF, CR, LF]] =
      Some ([classify (replicate (nat (m - 7)) (CHR ''x''))], p, None)) \<and>
    (\<exists>p. FeedAll classify (NewCodexSSEParser m) [line @ [LF, CR], [LF]] =
      Some ([], p, Some CodexSSEEventTooBig))"
proof -
  let ?new = "NewCodexSSEParser m" and ?x = "replicate (nat (m - 7)) (CHR ''x'')"
  have new: "sp_max ?new = m" "view ?new = emptyView" using assms(1) by (simp_all add: view_new) (simp add: NewCodexSSEParser_def)
  have plain: "LF \<notin> set ?x" "CR \<notin> set ?x" "LF \<notin> set line" by (auto simp: assms(2) dataLine_def)
  have len: "0 + len (dataLine ?x) + 1 \<le> m" "len (dataLine ?x) + 1 = m" using assms(1) by (simp_all add: dataLine_def)
  have line: "specLine classify m emptyView line = Inr (midEvent (Some ?x) m, None)"
    using specLine_data [OF plain(1,2) len(1), where classify = classify and d = None] len(2) by (simp add: emptyView_mid assms(2))
  have "specLoop classify m (midEvent (Some ?x) m) [CR, LF] = ([classify ?x], emptyView, None)"
    using specLoop_line [of "[CR]" classify m "midEvent (Some ?x) m" "[]"]
    by (simp add: specLine_def midEvent_def dropCR_def specLoop_Nil)
  with specLoop_line [OF plain(3), of classify m emptyView "[CR, LF]"]
  have whole: "specFeed classify m emptyView (line @ [LF, CR, LF]) = ([classify ?x], emptyView, None)"
    by (simp add: specFeed_def line)
  have cut: "specFeed classify m emptyView (line @ [LF, CR]) = ([], specFail CodexSSEEventTooBig, Some CodexSSEEventTooBig)"
    using specLoop_line [OF plain(3), of classify m emptyView "[CR]"]
    by (simp add: specFeed_def line specLoop.simps [of _ _ _ "[CR]"] midEvent_def)
  obtain p where "Feed classify ?new (line @ [LF, CR, LF]) = Some ([classify ?x], p, None)"
    using Feed_view [OF sse_ok_new, of classify m "line @ [LF, CR, LF]"] whole by (auto simp: new)
  moreover obtain q where "Feed classify ?new (line @ [LF, CR]) = Some ([], q, Some CodexSSEEventTooBig)"
    using Feed_view [OF sse_ok_new, of classify m "line @ [LF, CR]"] cut by (auto simp: new)
  ultimately show ?thesis by simp
qed

theorem sse_split_line_end_witness:
  "\<exists>p. FeedAll length (NewCodexSSEParser 8) [''data: x'' @ [LF, CR], [LF]] = Some ([], p, Some CodexSSEEventTooBig)"
  using sse_split_line_end [of 8 "''data: x''" length] by (simp add: dataLine_def)

end
