(* ===== verification/AuthorityCrypto.thy ===== *)
theory AuthorityCrypto
  imports Prelude
begin

text \<open>
  Hexadecimal digests and length-framed hashing: \<open>internal/proxy/authority_crypto.go\<close> and the
  digest checks of \<open>routing_policy_store.go\<close> and \<open>operation_inspection.go\<close>. A byte string is a
  \<open>string\<close>. SHA-256, HMAC-SHA-256 and HKDF of the standard library are the fields of a record.
\<close>

section \<open>Hexadecimal\<close>

definition hexDigits :: string where "hexDigits = ''0123456789abcdef''"

definition hexChar :: "nat \<Rightarrow> char" where
  "hexChar n = hexDigits ! n"

definition fromHexChar :: "char \<Rightarrow> nat option" where
  "fromHexChar c = (let n = of_char c :: nat in
     if 48 \<le> n \<and> n \<le> 57 then Some (n - 48)
     else if 97 \<le> n \<and> n \<le> 102 then Some (n - 97 + 10)
     else if 65 \<le> n \<and> n \<le> 70 then Some (n - 65 + 10)
     else None)"

fun hexEncode :: "string \<Rightarrow> string" where
  "hexEncode [] = []"
| "hexEncode (c # cs) = hexChar (of_char c div 16) # hexChar (of_char c mod 16) # hexEncode cs"

fun hexDecode :: "string \<Rightarrow> string option" where
  "hexDecode [] = Some []"
| "hexDecode [_] = None"
| "hexDecode (c # d # cs) =
     (case (fromHexChar c, fromHexChar d) of
        (Some a, Some b) \<Rightarrow> map_option ((#) (char_of (a * 16 + b))) (hexDecode cs)
      | _ \<Rightarrow> None)"

definition lowerHexBytes :: "string \<Rightarrow> nat \<Rightarrow> bool" where
  "lowerHexBytes v byteCount \<longleftrightarrow>
     (case hexDecode v of None \<Rightarrow> False
      | Some decoded \<Rightarrow> length decoded = byteCount \<and> v = hexEncode decoded)"

abbreviation sha256Bytes :: nat where "sha256Bytes \<equiv> 32"

definition lowerHexDigest :: "string \<Rightarrow> bool" where
  "lowerHexDigest v \<longleftrightarrow>
     (if length v \<noteq> sha256Bytes * 2 then False
      else case hexDecode v of None \<Rightarrow> False | Some decoded \<Rightarrow> hexEncode decoded = v)"

lemma hexChar_cases:
  assumes "n < 16"
  shows "fromHexChar (hexChar n) = Some n" "hexChar n \<in> set hexDigits"
proof -
  have "list_all (\<lambda>n. fromHexChar (hexChar n) = Some n \<and> hexChar n \<in> set hexDigits) [0..<16]"
    by code_simp
  with assms show "fromHexChar (hexChar n) = Some n" "hexChar n \<in> set hexDigits"
    by (auto simp: list_all_iff)
qed

lemma fromHexChar_digit:
  assumes "c \<in> set hexDigits"
  obtains n where "fromHexChar c = Some n" "n < 16" "hexChar n = c"
proof -
  have "list_all (\<lambda>c. case fromHexChar c of None \<Rightarrow> False | Some n \<Rightarrow> n < 16 \<and> hexChar n = c) hexDigits"
    by code_simp
  with assms show thesis by (auto simp: list_all_iff split: option.splits intro: that)
qed

lemma hexDecode_encode [simp]: "hexDecode (hexEncode s) = Some s"
proof (induction s)
  case (Cons c s)
  have "(of_char c :: nat) div 16 < 16" "(of_char c :: nat) mod 16 < 16"
    using nat_of_char_less_256 [of c] by (simp_all add: less_mult_imp_div_less)
  then show ?case using Cons by (simp add: hexChar_cases(1) div_mult_mod_eq)
qed simp

lemma length_hexEncode [simp]: "length (hexEncode s) = 2 * length s"
  by (induction s) simp_all

lemma set_hexEncode: "set (hexEncode s) \<subseteq> set hexDigits"
proof (induction s)
  case (Cons c s)
  have "(of_char c :: nat) div 16 < 16" "(of_char c :: nat) mod 16 < 16"
    using nat_of_char_less_256 [of c] by (simp_all add: less_mult_imp_div_less)
  with Cons show ?case by (simp add: hexChar_cases(2))
qed simp

lemma hexEncode_decode:
  "set v \<subseteq> set hexDigits \<Longrightarrow> even (length v) \<Longrightarrow> \<exists>s. hexDecode v = Some s \<and> hexEncode s = v"
proof (induction v rule: hexDecode.induct)
  case (3 c d cs)
  obtain a b where ab: "fromHexChar c = Some a" "a < 16" "hexChar a = c" "fromHexChar d = Some b" "b < 16" "hexChar b = d"
    using 3(2) by (metis fromHexChar_digit insert_subset list.simps(15))
  have "\<exists>s. hexDecode cs = Some s \<and> hexEncode s = cs" by (rule 3(1)) (use 3(2,3) ab in auto)
  then obtain s where s: "hexDecode cs = Some s" "hexEncode s = cs" by blast
  have "a * 16 + b < 256" using ab(2,5) by simp
  then have n: "(of_char (char_of (a * 16 + b)) :: nat) = a * 16 + b" by (simp add: of_char_of)
  have "(a * 16 + b) div 16 = a" "(a * 16 + b) mod 16 = b" using ab(5) by simp_all
  with ab s n show ?case by simp
qed auto

lemma lowerHexBytes_iff: "lowerHexBytes v n \<longleftrightarrow> length v = 2 * n \<and> set v \<subseteq> set hexDigits"
proof
  assume "lowerHexBytes v n"
  then obtain s where "length s = n" "v = hexEncode s" by (auto simp: lowerHexBytes_def split: option.splits)
  then show "length v = 2 * n \<and> set v \<subseteq> set hexDigits" using set_hexEncode by simp
next
  assume v: "length v = 2 * n \<and> set v \<subseteq> set hexDigits"
  then have "even (length v)" by simp
  with v obtain s where "hexDecode v = Some s" "hexEncode s = v" using hexEncode_decode by blast
  with v show "lowerHexBytes v n" by (auto simp: lowerHexBytes_def)
qed

lemma lowerHexDigest_iff: "lowerHexDigest v \<longleftrightarrow> lowerHexBytes v sha256Bytes"
  by (auto simp: lowerHexDigest_def lowerHexBytes_def split: option.splits)

lemma lowerHexDigest_encode: "length s = sha256Bytes \<Longrightarrow> lowerHexDigest (hexEncode s)"
  by (simp add: lowerHexDigest_def)

section \<open>Framed hashing\<close>

record hashing =
  cy_sha256 :: "string \<Rightarrow> string"
  cy_hmac :: "string \<Rightarrow> string \<Rightarrow> string"
  cy_hkdf :: "string \<Rightarrow> string \<Rightarrow> int \<Rightarrow> string option"

abbreviation NUL :: char where "NUL \<equiv> CHR 0x00"

text \<open>\<open>PutUint32\<close> and \<open>PutUint64\<close>, big-endian, of a length that has been converted.\<close>

definition bigEndian :: "nat \<Rightarrow> nat \<Rightarrow> string" where
  "bigEndian width n = map (\<lambda>i. char_of (n div 256 ^ i)) (rev [0..<width])"

abbreviation be32 :: "nat \<Rightarrow> string" where "be32 \<equiv> bigEndian 4"
abbreviation be64 :: "nat \<Rightarrow> string" where "be64 \<equiv> bigEndian 8"

definition printable :: "char \<Rightarrow> bool" where
  "printable c \<longleftrightarrow> \<not> ((of_char c :: nat) < 0x20 \<or> (of_char c :: nat) > 0x7e)"

definition frame :: "string \<Rightarrow> string" where
  "frame v = be32 (length v) @ v"

text \<open>What \<open>framedHash\<close> writes to the digest; \<open>None\<close> is \<open>ErrAuthorityCryptoInput\<close>.\<close>

definition framedMessage :: "string \<Rightarrow> string list \<Rightarrow> string option" where
  "framedMessage domain vs =
     (if domain = [] \<or> last domain \<noteq> NUL then None
      else if list_ex (\<lambda>c. \<not> printable c) (butlast domain) then None
      else if list_ex (\<lambda>v. length v > 2 ^ 32 - 1) vs then None
      else Some (domain @ concat (map frame vs)))"

definition framedHash :: "(string \<Rightarrow> string) \<Rightarrow> string \<Rightarrow> string list \<Rightarrow> string option" where
  "framedHash digest domain vs = map_option digest (framedMessage domain vs)"

definition FramedSHA256Hex :: "hashing \<Rightarrow> string \<Rightarrow> string list \<Rightarrow> string option" where
  "FramedSHA256Hex cy domain vs = map_option hexEncode (framedHash (cy_sha256 cy) domain vs)"

definition FramedHMACSHA256Hex :: "hashing \<Rightarrow> string \<Rightarrow> string \<Rightarrow> string list \<Rightarrow> string option" where
  "FramedHMACSHA256Hex cy key domain vs =
     (if key = [] then None else map_option hexEncode (framedHash (cy_hmac cy key) domain vs))"

definition asciiLower :: "char \<Rightarrow> char" where
  "asciiLower c = (let n = of_char c :: nat in if 65 \<le> n \<and> n \<le> 90 then char_of (n + 32) else c)"

text \<open>\<open>strings.ToLower(expected)\<close> differs from an ASCII \<open>expected\<close> exactly where \<open>asciiLower\<close> does;
  other bytes are no hexadecimal digits, so the decoder refuses them.\<close>

definition VerifyFramedHMACSHA256Hex ::
  "hashing \<Rightarrow> string \<Rightarrow> string \<Rightarrow> string \<Rightarrow> string list \<Rightarrow> bool" where
  "VerifyFramedHMACSHA256Hex cy key domain expected vs =
     (if key = [] \<or> length expected \<noteq> sha256Bytes * 2 \<or> expected \<noteq> map asciiLower expected then False
      else case hexDecode expected of None \<Rightarrow> False
        | Some expectedBytes \<Rightarrow>
            (case framedHash (cy_hmac cy key) domain vs of None \<Rightarrow> False
             | Some actual \<Rightarrow> actual = expectedBytes))"

definition DeriveAuthorityKey :: "hashing \<Rightarrow> string \<Rightarrow> string \<Rightarrow> int \<Rightarrow> string option" where
  "DeriveAuthorityKey cy root purpose n =
     (if root = [] \<or> purpose = [] \<or> NUL \<in> set purpose \<or> n \<le> 0 then None
      else if list_ex (\<lambda>c. \<not> printable c) purpose then None
      else cy_hkdf cy root purpose n)"

text \<open>The framing is unambiguous.\<close>

lemma length_bigEndian [simp]: "length (bigEndian w n) = w"
  by (simp add: bigEndian_def)

lemma bigEndian_Suc: "bigEndian (Suc w) n = char_of (n div 256 ^ w) # bigEndian w n"
  by (simp add: bigEndian_def)

lemma bigEndian_inj:
  "bigEndian w m = bigEndian w n \<Longrightarrow> m mod 256 ^ w = n mod 256 ^ w"
proof (induction w)
  case (Suc w)
  then have c: "char_of (m div 256 ^ w) = (char_of (n div 256 ^ w) :: char)" and b: "bigEndian w m = bigEndian w n"
    by (simp_all add: bigEndian_Suc)
  from c have c': "(m div 256 ^ w) mod 256 = (n div 256 ^ w) mod 256"
    by (metis of_char_of)
  have split: "k mod 256 ^ Suc w = 256 ^ w * ((k div 256 ^ w) mod 256) + k mod 256 ^ w" for k :: nat
    by (metis mod_mult2_eq mult.commute power_Suc)
  show ?case unfolding split c' Suc.IH [OF b] ..
qed simp

lemma frame_cancel:
  assumes "frame v @ r = frame v' @ r'" "length v < 2 ^ 32" "length v' < 2 ^ 32"
  shows "v = v' \<and> r = r'"
proof -
  have "be32 (length v) = be32 (length v')" using assms(1) by (simp add: frame_def append_eq_append_conv)
  then have "length v mod 256 ^ 4 = length v' mod 256 ^ 4" by (rule bigEndian_inj)
  with assms(2,3) have "length v = length v'" by simp
  with assms(1) show ?thesis by (simp add: frame_def)
qed

lemma frames_inj:
  assumes "concat (map frame vs) = concat (map frame vs')"
    and "\<forall>v \<in> set vs. length v < 2 ^ 32" "\<forall>v \<in> set vs'. length v < 2 ^ 32"
  shows "vs = vs'"
  using assms
proof (induction vs arbitrary: vs')
  case Nil
  then show ?case by (cases vs') (auto simp: frame_def bigEndian_def)
next
  case (Cons v vs)
  then obtain v' rest where vs': "vs' = v' # rest" by (cases vs') (auto simp: frame_def bigEndian_def)
  with Cons.prems frame_cancel [of v "concat (map frame vs)" v' "concat (map frame rest)"]
  show ?case using Cons.IH [of rest] by auto
qed

text \<open>
  Framed messages are unambiguous: two domains with their values yield the same bytes, and so
  the same digest for that reason, only if they are the same domain and values.
\<close>

theorem framed_message_unambiguous:
  assumes "framedMessage domain vs = Some m" "framedMessage domain' vs' = Some m"
  shows "domain = domain' \<and> vs = vs'"
proof -
  have shape: "\<exists>d. dom = d @ [NUL] \<and> NUL \<notin> set d \<and> (\<forall>v \<in> set ws. length v < 2 ^ 32) \<and>
      m = d @ NUL # concat (map frame ws)"
    if "framedMessage dom ws = Some m" for dom ws
  proof -
    have dom: "dom \<noteq> []" "last dom = NUL" "\<forall>c \<in> set (butlast dom). printable c"
      "\<forall>v \<in> set ws. length v < 2 ^ 32" "m = dom @ concat (map frame ws)"
      using that by (auto simp: framedMessage_def list_ex_iff not_less split: if_splits)
    have "\<not> printable NUL" by (simp add: printable_def)
    with dom(3) have "NUL \<notin> set (butlast dom)" by blast
    moreover have "dom = butlast dom @ [NUL]" using dom(1,2) by (metis append_butlast_last_id)
    ultimately show ?thesis using dom(4,5) by (metis append.assoc append_Cons append_Nil)
  qed
  obtain d d' where d: "domain = d @ [NUL]" "NUL \<notin> set d" "m = d @ NUL # concat (map frame vs)"
    "domain' = d' @ [NUL]" "NUL \<notin> set d'" "m = d' @ NUL # concat (map frame vs')"
    "\<forall>v \<in> set vs. length v < 2 ^ 32" "\<forall>v \<in> set vs'. length v < 2 ^ 32"
    using shape [OF assms(1)] shape [OF assms(2)] by blast
  have cut: "takeWhile (\<lambda>c. c \<noteq> NUL) (e @ NUL # r) = e" if "NUL \<notin> set e" for e r
    using that by (induction e) auto
  have "d = d'" using cut [OF d(2), of "concat (map frame vs)"] cut [OF d(5), of "concat (map frame vs')"]
    by (simp add: d(3) [symmetric] d(6) [symmetric])
  with d frames_inj [of vs vs'] show ?thesis by simp
qed

theorem framed_message_unambiguous_witness:
  "framedMessage (''a'' @ [NUL]) [''b'', []] \<noteq> framedMessage (''a'' @ [NUL]) [''b'']"
  using framed_message_unambiguous [of "''a'' @ [NUL]" "[''b'', []]" _ "''a'' @ [NUL]" "[''b'']"]
  by (auto simp: framedMessage_def printable_def)

text \<open>A MAC made by one side verifies on the other.\<close>

lemma asciiLower_digit: "c \<in> set hexDigits \<Longrightarrow> asciiLower c = c"
proof -
  have "list_all (\<lambda>c. asciiLower c = c) hexDigits" by code_simp
  then show "c \<in> set hexDigits \<Longrightarrow> asciiLower c = c" by (simp add: list_all_iff)
qed

lemma verify_framed_hmac:
  assumes "FramedHMACSHA256Hex cy key domain vs = Some mac" "\<And>k m. length (cy_hmac cy k m) = sha256Bytes"
  shows "VerifyFramedHMACSHA256Hex cy key domain mac vs"
proof -
  obtain digest where d: "key \<noteq> []" "framedHash (cy_hmac cy key) domain vs = Some digest" "mac = hexEncode digest"
    using assms(1) by (auto simp: FramedHMACSHA256Hex_def split: if_splits)
  have "length digest = sha256Bytes" using d(2) assms(2) by (auto simp: framedHash_def)
  moreover have "map asciiLower mac = mac"
    using set_hexEncode [of digest] by (auto simp: d(3) intro!: map_idI asciiLower_digit)
  ultimately show ?thesis using d by (simp add: VerifyFramedHMACSHA256Hex_def)
qed

text \<open>Constant primitives, for examples.\<close>

definition sampleHashes :: hashing where
  "sampleHashes = \<lparr>cy_sha256 = \<lambda>_. replicate 32 (CHR ''s''), cy_hmac = \<lambda>_ _. replicate 32 (CHR ''m''),
     cy_hkdf = \<lambda>_ _ _. Some (replicate 32 (CHR ''k''))\<rparr>"

end
