(* ===== verification/AuthorityStore.thy ===== *)
theory AuthorityStore
  imports AuthorityCrypto "HOL-Library.AList"
begin

text \<open>
  The directory of durable objects under an authority: \<open>internal/proxy/authority_fs.go\<close> as its
  users see it. An object is published once under its name. A fault of the environment is an argument: the operation fails
  without effect, or fails after the rename, before the directory is known to be on disk. A crash
  may lose entries that were not synchronised. The type of the bodies is a parameter.
\<close>

section \<open>Entry names\<close>

definition validateAuthorityEntryName :: "string \<Rightarrow> bool" where
  "validateAuthorityEntryName name \<longleftrightarrow>
     \<not> (name = [] \<or> name = ''.'' \<or> name = ''..'' \<or>
       list_ex (\<lambda>c. c = CHR ''/'' \<or> c = CHR 0x5C \<or> c = NUL) name \<or> length name > 217)"

section \<open>Objects\<close>

record 'b authority_directory =
  ad_objects :: "(string \<times> 'b) list"
  ad_unsynced :: "string list"

definition emptyDirectory :: "'b authority_directory" where
  "emptyDirectory = \<lparr>ad_objects = [], ad_unsynced = []\<rparr>"

datatype publish_fault = PublishOk | PublishFails | PublishUnsynced

text \<open>The result of a publication: the directory, and whether it succeeded.\<close>

definition install :: "publish_fault \<Rightarrow> 'b authority_directory \<Rightarrow> string \<Rightarrow> 'b \<Rightarrow> 'b authority_directory \<times> bool" where
  "install fault d name body =
     (case fault of
        PublishFails \<Rightarrow> (d, False)
      | PublishUnsynced \<Rightarrow>
          (d\<lparr>ad_objects := AList.update name body (ad_objects d), ad_unsynced := name # ad_unsynced d\<rparr>, False)
      | PublishOk \<Rightarrow> (d\<lparr>ad_objects := AList.update name body (ad_objects d), ad_unsynced := []\<rparr>, True))"

definition PublishImmutable ::
  "publish_fault \<Rightarrow> 'b authority_directory \<Rightarrow> string \<Rightarrow> 'b \<Rightarrow> 'b authority_directory \<times> bool" where
  "PublishImmutable fault d name body =
     (if \<not> validateAuthorityEntryName name then (d, False)
      else if map_of (ad_objects d) name \<noteq> None then (d, False)
      else install fault d name body)"

definition crashDirectory :: "string list \<Rightarrow> 'b authority_directory \<Rightarrow> 'b authority_directory" where
  "crashDirectory lost d =
     \<lparr>ad_objects = filter (\<lambda>(name, _). \<not> (name \<in> set lost \<and> name \<in> set (ad_unsynced d))) (ad_objects d),
      ad_unsynced = []\<rparr>"

text \<open>What is durable: an object that no crash takes away.\<close>

definition durable :: "'b authority_directory \<Rightarrow> string \<Rightarrow> 'b \<Rightarrow> bool" where
  "durable d name body \<longleftrightarrow> map_of (ad_objects d) name = Some body \<and> name \<notin> set (ad_unsynced d)"

lemma publish_durable_keeps:
  assumes "durable d name body"
  shows "durable (fst (PublishImmutable fault d name' body')) name body"
  using assms
  by (auto simp: durable_def PublishImmutable_def install_def update_conv' split: publish_fault.split)

lemma publish_ok_durable:
  assumes "PublishImmutable fault d name body = (d', True)"
  shows "durable d' name body \<and> map_of (ad_objects d) name = None"
  using assms
  by (auto simp: durable_def PublishImmutable_def install_def update_conv' split: publish_fault.splits if_splits)

lemma crash_durable_keeps:
  assumes "durable d name body"
  shows "durable (crashDirectory lost d) name body"
proof -
  have "map_of (filter (\<lambda>(n, _). P n) xs) name = (if P name then map_of xs name else None)" for P and xs :: "(string \<times> 'a) list"
    by (induction xs) auto
  with assms show ?thesis by (simp add: durable_def crashDirectory_def)
qed

end
