(* ===== verification/CandidateStore.thy ===== *)
theory CandidateStore
  imports AuthorityStore Models
begin

text \<open>
  The journal of a candidate validation run: \<open>internal/proxy/candidate_broker_store.go\<close> and
  \<open>candidate_validation_source.go\<close>. Sources, which form a graph of dependencies, journal records,
  chained by digest, and scan evidence are authenticated objects of one directory; opening the
  store reads all of them back. An error is its message. The JSON encoders are parameters; what
  they wrote is read back as it was, so a body is kept as the value it encodes.
\<close>

section \<open>Objects\<close>

record candidate_source =
  so_schema :: int
  so_run :: string
  so_kind :: string
  so_dependencies :: "string list"
  so_catalogue :: string
  so_synthetic :: string
  so_mac :: string

record broker_record =
  br_schema :: int
  br_run :: string
  br_source :: string
  br_capability :: string
  br_sequence :: u64
  br_kind :: string
  br_payload :: string
  br_previous :: string
  br_mac :: string

record scan_evidence =
  se_schema :: int
  se_run :: string
  se_source :: string
  se_scan :: string
  se_echoes :: u64
  se_mac :: string

datatype broker_object =
  SourceObject candidate_source | RecordObject broker_record | EvidenceObject scan_evidence

definition CandidateSourceIngress :: string where "CandidateSourceIngress = ''synthetic_ingress''"
definition CandidateSourceMaterialised :: string where "CandidateSourceMaterialised = ''materialised_request''"
definition CandidateSourceExpectedReply :: string where "CandidateSourceExpectedReply = ''expected_reply''"

record broker_env =
  be_crypto :: hashing
  be_encode :: "broker_object \<Rightarrow> string"

definition identityDigest :: "broker_env \<Rightarrow> broker_object \<Rightarrow> string option" where
  "identityDigest env obj =
     FramedSHA256Hex (be_crypto env) (''cq/stable-object/content/v1'' @ [NUL]) [be_encode env obj]"

definition candidateMAC :: "broker_env \<Rightarrow> string \<Rightarrow> string \<Rightarrow> broker_object \<Rightarrow> string" where
  "candidateMAC env key domain obj =
     hexEncode (cy_hmac (be_crypto env) key (domain @ [NUL] @ be_encode env obj))"

definition candidateSourceMAC :: "broker_env \<Rightarrow> string \<Rightarrow> candidate_source \<Rightarrow> string" where
  "candidateSourceMAC env key s = candidateMAC env key ''cq/candidate-source/v1'' (SourceObject (s\<lparr>so_mac := []\<rparr>))"

definition candidateRecordMAC :: "broker_env \<Rightarrow> string \<Rightarrow> broker_record \<Rightarrow> string" where
  "candidateRecordMAC env key r = candidateMAC env key ''cq/candidate-journal/v1'' (RecordObject (r\<lparr>br_mac := []\<rparr>))"

definition candidateEvidenceMAC :: "broker_env \<Rightarrow> string \<Rightarrow> scan_evidence \<Rightarrow> string" where
  "candidateEvidenceMAC env key e =
     candidateMAC env key ''cq/candidate-evidence/v1'' (EvidenceObject (e\<lparr>se_mac := []\<rparr>))"

section \<open>The store\<close>

record stored_source =
  ss_source :: candidate_source
  ss_name :: string

record stored_record =
  sr_record :: broker_record
  sr_digest :: string
  sr_name :: string

record candidate_store =
  cb_key :: string
  cb_runs :: int
  cb_records :: int
  cb_sources :: "(string \<times> stored_source) list"
  cb_journal :: "(string \<times> stored_record list) list"
  cb_evidence :: "(string \<times> string list) list"

type_synonym broker_directory = "broker_object authority_directory"

definition listOf :: "(string \<times> 'x list) list \<Rightarrow> string \<Rightarrow> 'x list" where
  "listOf m run = (case map_of m run of None \<Rightarrow> [] | Some xs \<Rightarrow> xs)"

definition appendTo :: "string \<Rightarrow> 'x \<Rightarrow> (string \<times> 'x list) list \<Rightarrow> (string \<times> 'x list) list" where
  "appendTo run x m = AList.update run (listOf m run @ [x]) m"

definition runExists :: "candidate_store \<Rightarrow> string \<Rightarrow> bool" where
  "runExists s run \<longleftrightarrow> list_ex (\<lambda>(_, stored). so_run (ss_source stored) = run) (cb_sources s)"

definition runCount :: "candidate_store \<Rightarrow> int" where
  "runCount s = int (length (remdups (map (\<lambda>(_, stored). so_run (ss_source stored)) (cb_sources s))))"

definition dependencyUnavailable :: string where
  "dependencyUnavailable = ''candidate source dependency is not durable''"

fun checkDependencies ::
  "(string \<times> stored_source) list \<Rightarrow> string \<Rightarrow> string option \<Rightarrow> string list \<Rightarrow> string + unit" where
  "checkDependencies available run previous [] = Inr ()"
| "checkDependencies available run previous (d # ds) =
     (if \<not> lowerHexDigest d then Inl ''invalid candidate source dependency''
      else if previous = Some d then Inl ''duplicate candidate source dependency''
      else case map_of available d of
        None \<Rightarrow> Inl dependencyUnavailable
      | Some stored \<Rightarrow>
          if so_run (ss_source stored) \<noteq> run then Inl dependencyUnavailable
          else checkDependencies available run (Some d) ds)"

definition validateCandidateValidationSource ::
  "candidate_source \<Rightarrow> (string \<times> stored_source) list \<Rightarrow> string + unit" where
  "validateCandidateValidationSource s available =
     (if so_schema s \<noteq> 1 \<or> so_run s = [] \<or> \<not> validateAuthorityEntryName (''run-'' @ so_run s) \<or>
         \<not> lowerHexDigest (so_catalogue s) then Inl ''invalid candidate validation source''
      else andThen
        (if so_kind s = CandidateSourceIngress then
           failIf (so_dependencies s \<noteq> []) ''synthetic ingress cannot have dependencies''
         else if so_kind s = CandidateSourceMaterialised \<or> so_kind s = CandidateSourceExpectedReply then
           failIf (so_dependencies s = []) ''candidate source dependency unavailable''
         else Inl ''unknown candidate validation source kind'')
        (\<lambda>_. checkDependencies available (so_run s) None (sort (so_dependencies s))))"

definition PublishSource ::
  "broker_env \<Rightarrow> publish_fault \<Rightarrow> candidate_store \<Rightarrow> broker_directory \<Rightarrow> candidate_source \<Rightarrow>
   (string + string) \<times> candidate_store \<times> broker_directory" where
  "PublishSource env fault s d source =
     (let source = source\<lparr>so_mac := []\<rparr>
      in case validateCandidateValidationSource source (cb_sources s) of
        Inl e \<Rightarrow> (Inl e, s, d)
      | Inr _ \<Rightarrow>
          if \<not> runExists s (so_run source) \<and> runCount s \<ge> cb_runs s
          then (Inl ''candidate broker run cap exceeded'', s, d)
          else
            (let source = source\<lparr>so_mac := candidateSourceMAC env (cb_key s) source\<rparr>;
                 obj = SourceObject source;
                 name = ''candidate-source-'' @ hexEncode (cy_sha256 (be_crypto env) (be_encode env obj)) @ ''.json''
             in case identityDigest env obj of
               None \<Rightarrow> (Inl ''publish'', s, d)
             | Some digest \<Rightarrow>
                 (case PublishImmutable fault d name obj of
                    (d, False) \<Rightarrow> (Inl ''publish'', s, d)
                  | (d, True) \<Rightarrow>
                      (Inr digest,
                       s\<lparr>cb_sources := AList.update digest \<lparr>ss_source = source, ss_name = name\<rparr> (cb_sources s)\<rparr>, d))))"

text \<open>\<open>fmt.Sprintf("candidate-journal-%s-%06d.json", run, sequence)\<close>\<close>

definition journalName :: "string \<Rightarrow> nat \<Rightarrow> string" where
  "journalName run sequence =
     (let digits = decimal sequence
      in ''candidate-journal-'' @ run @ ''-'' @ replicate (6 - length digits) (CHR ''0'') @ digits @ ''.json'')"

definition AppendJournal ::
  "broker_env \<Rightarrow> publish_fault \<Rightarrow> candidate_store \<Rightarrow> broker_directory \<Rightarrow> broker_record \<Rightarrow>
   (string + string) \<times> candidate_store \<times> broker_directory" where
  "AppendJournal env fault s d r =
     (case map_of (cb_sources s) (br_source r) of
        None \<Rightarrow> (Inl ''candidate journal source is not durable'', s, d)
      | Some source \<Rightarrow>
          if so_run (ss_source source) \<noteq> br_run r then (Inl ''candidate journal source is not durable'', s, d)
          else
            (let current = listOf (cb_journal s) (br_run r)
             in if int (length current) \<ge> cb_records s
                then (Inl ''candidate broker journal cap exceeded'', s, d)
                else if br_schema r \<noteq> 1 \<or> br_run r = [] \<or> br_kind r = [] \<or> \<not> lowerHexDigest (br_payload r)
                then (Inl ''invalid candidate broker record'', s, d)
                else
                  (let r = r\<lparr>br_sequence := of_nat (length current + 1),
                         br_previous := (if current \<noteq> [] then sr_digest (last current) else [])\<rparr>;
                       r = r\<lparr>br_mac := candidateRecordMAC env (cb_key s) r\<rparr>;
                       obj = RecordObject r;
                       name = journalName (br_run r) (unat (br_sequence r))
                   in if \<not> validateAuthorityEntryName name then (Inl ''invalid candidate run identity'', s, d)
                      else case identityDigest env obj of
                        None \<Rightarrow> (Inl ''publish'', s, d)
                      | Some digest \<Rightarrow>
                          (case PublishImmutable fault d name obj of
                             (d, False) \<Rightarrow> (Inl ''publish'', s, d)
                           | (d, True) \<Rightarrow>
                               (Inr digest,
                                s\<lparr>cb_journal := AList.update (br_run r)
                                  (current @ [\<lparr>sr_record = r, sr_digest = digest, sr_name = name\<rparr>]) (cb_journal s)\<rparr>,
                                d)))))"

definition PublishScanEvidence ::
  "broker_env \<Rightarrow> publish_fault \<Rightarrow> candidate_store \<Rightarrow> broker_directory \<Rightarrow> scan_evidence \<Rightarrow>
   (string + string) \<times> candidate_store \<times> broker_directory" where
  "PublishScanEvidence env fault s d e =
     (let unavailable = (Inl ''invalid candidate scan evidence'', s, d)
      in case map_of (cb_sources s) (se_source e) of
        None \<Rightarrow> unavailable
      | Some source \<Rightarrow>
          if so_run (ss_source source) \<noteq> se_run e \<or> se_schema e \<noteq> 1 \<or> \<not> lowerHexDigest (se_scan e)
          then unavailable
          else
            (let e = e\<lparr>se_mac := candidateEvidenceMAC env (cb_key s) e\<rparr>;
                 obj = EvidenceObject e;
                 name = ''candidate-evidence-'' @ hexEncode (cy_sha256 (be_crypto env) (be_encode env obj)) @ ''.json''
             in case identityDigest env obj of
               None \<Rightarrow> (Inl ''publish'', s, d)
             | Some digest \<Rightarrow>
                 (case PublishImmutable fault d name obj of
                    (d, False) \<Rightarrow> (Inl ''publish'', s, d)
                  | (d, True) \<Rightarrow> (Inr digest, s\<lparr>cb_evidence := appendTo (se_run e) name (cb_evidence s)\<rparr>, d))))"

definition VerifySealedRun :: "candidate_store \<Rightarrow> string \<Rightarrow> int \<Rightarrow> u64 \<Rightarrow> string \<Rightarrow> bool" where
  "VerifySealedRun s run schema count' headDigest \<longleftrightarrow>
     (let records = listOf (cb_journal s) run
      in \<not> (schema \<noteq> 1 \<or> count' \<noteq> of_nat (length records) \<or> records = [] \<or>
        headDigest \<noteq> sr_digest (last records)))"

definition JournalRecords :: "candidate_store \<Rightarrow> string \<Rightarrow> broker_record list" where
  "JournalRecords s run = map sr_record (listOf (cb_journal s) run)"

section \<open>Retirement\<close>

text \<open>
  Files are removed one by one; \<open>budget\<close> says how many removals succeed before one fails or the
  process dies. The store as it is then in memory is part of the result.
\<close>

fun removeNames :: "nat \<Rightarrow> string list \<Rightarrow> broker_directory \<Rightarrow> nat \<times> broker_directory \<times> bool" where
  "removeNames budget [] d = (budget, d, True)"
| "removeNames 0 (name # names) d = (0, d, False)"
| "removeNames (Suc budget) (name # names) d =
     removeNames budget names (d\<lparr>ad_objects := filter (\<lambda>(n, _). n \<noteq> name) (ad_objects d)\<rparr>)"

fun removeSources ::
  "nat \<Rightarrow> string \<Rightarrow> (string \<times> stored_source) list \<Rightarrow> candidate_store \<Rightarrow> broker_directory \<Rightarrow>
   candidate_store \<times> broker_directory \<times> bool" where
  "removeSources budget run [] s d = (s, d, True)"
| "removeSources budget run ((digest, stored) # rest) s d =
     (if so_run (ss_source stored) \<noteq> run then removeSources budget run rest s d
      else case removeNames budget [ss_name stored] d of
        (_, d, False) \<Rightarrow> (s, d, False)
      | (budget, d, True) \<Rightarrow>
          removeSources budget run rest (s\<lparr>cb_sources := AList.delete digest (cb_sources s)\<rparr>) d)"

definition RetireRun ::
  "nat \<Rightarrow> candidate_store \<Rightarrow> broker_directory \<Rightarrow> string \<Rightarrow> candidate_store \<times> broker_directory \<times> bool" where
  "RetireRun budget s d run =
     (case removeNames budget (map sr_name (listOf (cb_journal s) run)) d of
        (_, d, False) \<Rightarrow> (s, d, False)
      | (budget, d, True) \<Rightarrow>
          (let s = s\<lparr>cb_journal := AList.delete run (cb_journal s)\<rparr>
           in case removeNames budget (listOf (cb_evidence s) run) d of
             (_, d, False) \<Rightarrow> (s, d, False)
           | (budget, d, True) \<Rightarrow>
               (let s = s\<lparr>cb_evidence := AList.delete run (cb_evidence s)\<rparr>
                in removeSources budget run (cb_sources s) s d)))"

section \<open>Opening\<close>

definition hasPrefix :: "string \<Rightarrow> string \<Rightarrow> bool" where
  "hasPrefix p s \<longleftrightarrow> take (length p) s = p"

definition reopenSource ::
  "broker_env \<Rightarrow> broker_directory \<Rightarrow> candidate_store \<Rightarrow> string \<Rightarrow> string + candidate_store" where
  "reopenSource env d s name =
     (case map_of (ad_objects d) name of
        Some (SourceObject source) \<Rightarrow>
          if so_mac source \<noteq> candidateSourceMAC env (cb_key s) source
          then Inl ''candidate source authentication failed''
          else andThen (validateCandidateValidationSource source (cb_sources s)) (\<lambda>_.
            case identityDigest env (SourceObject source) of
              None \<Rightarrow> Inl ''read''
            | Some digest \<Rightarrow>
                Inr (s\<lparr>cb_sources := AList.update digest \<lparr>ss_source = source, ss_name = name\<rparr> (cb_sources s)\<rparr>))
      | Some _ \<Rightarrow> Inl ''candidate source authentication failed''
      | None \<Rightarrow> Inl ''read'')"

text \<open>One pass over the pending names, and whether it made progress.\<close>

fun sourcesPass ::
  "broker_env \<Rightarrow> broker_directory \<Rightarrow> candidate_store \<Rightarrow> string list \<Rightarrow>
   string + candidate_store \<times> string list \<times> bool" where
  "sourcesPass env d s [] = Inr (s, [], False)"
| "sourcesPass env d s (name # names) =
     (case reopenSource env d s name of
        Inl e \<Rightarrow>
          if e = dependencyUnavailable
          then andThen (sourcesPass env d s names) (\<lambda>(s, pending, progress). Inr (s, name # pending, progress))
          else Inl e
      | Inr s \<Rightarrow>
          andThen (sourcesPass env d s names) (\<lambda>(s, pending, _). Inr (s, pending, True)))"

partial_function (option) reopenSources ::
  "broker_env \<Rightarrow> broker_directory \<Rightarrow> candidate_store \<Rightarrow> string list \<Rightarrow> (string + candidate_store) option" where
  "reopenSources env d s pending =
     (if pending = [] then Some (Inr s)
      else case sourcesPass env d s (sort pending) of
        Inl e \<Rightarrow> Some (Inl e)
      | Inr (s, pending, progress) \<Rightarrow>
          if \<not> progress then Some (Inl ''candidate source DAG is incomplete or cyclic'')
          else reopenSources env d s pending)"

definition reopenRecord ::
  "broker_env \<Rightarrow> broker_directory \<Rightarrow> candidate_store \<Rightarrow> string \<Rightarrow> string + candidate_store" where
  "reopenRecord env d s name =
     (case map_of (ad_objects d) name of
        Some (RecordObject r) \<Rightarrow>
          if br_mac r \<noteq> candidateRecordMAC env (cb_key s) r
          then Inl ''candidate broker record authentication failed''
          else (let invalid = Inl ''candidate broker record source invalid''
            in case map_of (cb_sources s) (br_source r) of
              None \<Rightarrow> invalid
            | Some source \<Rightarrow>
                if so_run (ss_source source) \<noteq> br_run r \<or> br_sequence r = 0 \<or> \<not> lowerHexDigest (br_payload r)
                then invalid
                else case identityDigest env (RecordObject r) of
                  None \<Rightarrow> Inl ''read''
                | Some digest \<Rightarrow>
                    (let s = s\<lparr>cb_journal := appendTo (br_run r)
                           \<lparr>sr_record = r, sr_digest = digest, sr_name = name\<rparr> (cb_journal s)\<rparr>
                     in if int (length (listOf (cb_journal s) (br_run r))) > cb_records s
                        then Inl ''candidate broker journal cap exceeded'' else Inr s))
      | Some _ \<Rightarrow> Inl ''candidate broker record authentication failed''
      | None \<Rightarrow> Inl ''read'')"

definition reopenEvidence ::
  "broker_env \<Rightarrow> broker_directory \<Rightarrow> candidate_store \<Rightarrow> string \<Rightarrow> string + candidate_store" where
  "reopenEvidence env d s name =
     (case map_of (ad_objects d) name of
        Some (EvidenceObject e) \<Rightarrow>
          if se_mac e \<noteq> candidateEvidenceMAC env (cb_key s) e
          then Inl ''candidate scan evidence authentication failed''
          else (let invalid = Inl ''candidate scan evidence source invalid''
            in case map_of (cb_sources s) (se_source e) of
              None \<Rightarrow> invalid
            | Some source \<Rightarrow>
                if so_run (ss_source source) \<noteq> se_run e \<or> \<not> lowerHexDigest (se_scan e) then invalid
                else Inr (s\<lparr>cb_evidence := appendTo (se_run e) name (cb_evidence s)\<rparr>))
      | Some _ \<Rightarrow> Inl ''candidate scan evidence authentication failed''
      | None \<Rightarrow> Inl ''read'')"

definition reopenEntry ::
  "broker_env \<Rightarrow> broker_directory \<Rightarrow> candidate_store \<Rightarrow> string \<Rightarrow> string + candidate_store" where
  "reopenEntry env d s name =
     (if hasPrefix ''candidate-journal-'' name then reopenRecord env d s name
      else if hasPrefix ''candidate-evidence-'' name then reopenEvidence env d s name
      else Inr s)"

text \<open>The chain of a run, sorted by sequence: \<open>index\<close> counts from 0, \<open>previous\<close> is the record before.\<close>

fun chained :: "nat \<Rightarrow> stored_record option \<Rightarrow> stored_record list \<Rightarrow> bool" where
  "chained index previous [] = True"
| "chained index previous (stored # rest) =
     (br_sequence (sr_record stored) = of_nat (index + 1) \<and>
      br_previous (sr_record stored) = (case previous of None \<Rightarrow> [] | Some p \<Rightarrow> sr_digest p) \<and>
      chained (index + 1) (Some stored) rest)"

definition sortJournal :: "(string \<times> stored_record list) list \<Rightarrow> (string \<times> stored_record list) list" where
  "sortJournal j = map (\<lambda>(run, rs).
     (run, sortBy (\<lambda>a b. br_sequence (sr_record a) < br_sequence (sr_record b)) rs)) j"

definition OpenCandidateBrokerStore ::
  "broker_env \<Rightarrow> broker_directory \<Rightarrow> string \<Rightarrow> int \<Rightarrow> int \<Rightarrow> (string + candidate_store) option" where
  "OpenCandidateBrokerStore env d key runs records =
     (if length key \<noteq> 32 \<or> runs \<le> 0 \<or> records \<le> 0 then Some (Inl ''secure capability unavailable'')
      else let names = map fst (ad_objects d);
          s = \<lparr>cb_key = key, cb_runs = runs, cb_records = records, cb_sources = [], cb_journal = [], cb_evidence = []\<rparr>
        in map_option (\<lambda>sources.
          andThen sources (\<lambda>s.
          andThen (foldE (reopenEntry env d) s names) (\<lambda>s.
            (let s = s\<lparr>cb_journal := sortJournal (cb_journal s)\<rparr>
             in if list_ex (\<lambda>(_, rs). \<not> chained 0 None rs) (cb_journal s)
                then Inl ''candidate broker journal chain invalid''
                else if runCount s > cb_runs s then Inl ''candidate broker run cap exceeded''
                else Inr s))))
          (reopenSources env d s (filter (hasPrefix ''candidate-source-'') names)))"

section \<open>Opening returns\<close>

lemma sourcesPass_progress:
  "sourcesPass env d s names = Inr (s', pending, progress) \<Longrightarrow>
   length pending \<le> length names \<and> (progress \<longrightarrow> length pending < length names) \<and> set pending \<subseteq> set names"
proof (induction names arbitrary: s s' pending progress)
  case (Cons name names)
  show ?case
  proof (cases "reopenSource env d s name")
    case (Inl e)
    with Cons show ?thesis by (fastforce simp: andThen_Inr_iff split: if_splits)
  next
    case (Inr s1)
    with Cons show ?thesis by (fastforce simp: andThen_Inr_iff)
  qed
qed simp

lemma reopenSources_returns: "\<exists>r. reopenSources env d s pending = Some r"
proof (induction "length pending" arbitrary: s pending rule: less_induct)
  case less
  show ?case
  proof (cases "pending = [] \<or> (\<forall>r. sourcesPass env d s (sort pending) \<noteq> Inr r)")
    case True
    then show ?thesis by (subst reopenSources.simps) (auto split: sum.split)
  next
    case False
    then obtain s' rest progress where r: "sourcesPass env d s (sort pending) = Inr (s', rest, progress)" "pending \<noteq> []"
      by auto
    show ?thesis
    proof (cases progress)
      case True
      with sourcesPass_progress [OF r(1)] have "length rest < length pending" by simp
      from less [OF this] True r show ?thesis by (subst reopenSources.simps) simp
    qed (use r in \<open>subst reopenSources.simps, simp\<close>)
  qed
qed

text \<open>
  Opening the store returns: the loop over the pending sources ends for every directory,
  with the sources in an order of their dependencies or with an error, also when the
  dependencies are missing or form a cycle.
\<close>

theorem open_store_returns: "\<exists>r. OpenCandidateBrokerStore env d key runs records = Some r"
  using reopenSources_returns
  by (auto simp: OpenCandidateBrokerStore_def Let_def)

section \<open>What opening finds\<close>

definition entryRecord :: "broker_env \<Rightarrow> broker_directory \<Rightarrow> string \<Rightarrow> stored_record option" where
  "entryRecord env d name =
     (if hasPrefix ''candidate-journal-'' name then
        (case map_of (ad_objects d) name of
           Some (RecordObject r) \<Rightarrow>
             map_option (\<lambda>digest. \<lparr>sr_record = r, sr_digest = digest, sr_name = name\<rparr>)
               (identityDigest env (RecordObject r))
         | _ \<Rightarrow> None)
      else None)"

definition entriesOf :: "broker_env \<Rightarrow> broker_directory \<Rightarrow> string list \<Rightarrow> string \<Rightarrow> stored_record list" where
  "entriesOf env d names run = filter (\<lambda>x. br_run (sr_record x) = run) (List.map_filter (entryRecord env d) names)"

lemma listOf_update: "listOf (AList.update run xs m) run' = (if run' = run then xs else listOf m run')"
  by (simp add: listOf_def update_conv')

lemma listOf_appendTo: "listOf (appendTo run x m) run' = listOf m run' @ (if run' = run then [x] else [])"
  by (simp add: appendTo_def listOf_update)

lemma entriesOf_append:
  "entriesOf env d (names @ [name]) run = entriesOf env d names run @
     (case entryRecord env d name of None \<Rightarrow> [] | Some x \<Rightarrow> if br_run (sr_record x) = run then [x] else [])"
  by (simp add: entriesOf_def List.map_filter_def split: option.split)

lemma reopenEntry_journal:
  assumes "reopenEntry env d s name = Inr s'"
  shows "listOf (cb_journal s') run = listOf (cb_journal s) run @
      (case entryRecord env d name of None \<Rightarrow> [] | Some x \<Rightarrow> if br_run (sr_record x) = run then [x] else [])"
    and "cb_sources s' = cb_sources s" "cb_key s' = cb_key s"
  using assms
  by (auto simp: reopenEntry_def reopenRecord_def reopenEvidence_def entryRecord_def listOf_appendTo Let_def
      hasPrefix_def split: if_splits option.splits broker_object.splits)

lemma reopenEntry_authentic:
  assumes "reopenEntry env d s name = Inr s'" "entryRecord env d name = Some x"
  shows "br_mac (sr_record x) = candidateRecordMAC env (cb_key s) (sr_record x)"
  using assms
  by (auto simp: reopenEntry_def reopenRecord_def entryRecord_def Let_def
      split: if_splits option.splits broker_object.splits)

lemma reopenEntries_journal:
  assumes "foldE (reopenEntry env d) s names = Inr s'"
    and "\<And>run. listOf (cb_journal s) run = entriesOf env d done' run"
  shows "listOf (cb_journal s') run = entriesOf env d (done' @ names) run"
  using assms
proof (induction names arbitrary: s done')
  case (Cons name names)
  obtain s1 where s1: "reopenEntry env d s name = Inr s1" "foldE (reopenEntry env d) s1 names = Inr s'"
    using Cons.prems(1) by (auto simp: andThen_Inr_iff)
  have "listOf (cb_journal s1) run = entriesOf env d (done' @ [name]) run" for run
    using reopenEntry_journal(1) [OF s1(1)] Cons.prems(2) by (simp add: entriesOf_append)
  from Cons.IH [OF s1(2) this] show ?case by simp
qed simp

lemma listOf_sortJournal:
  "listOf (sortJournal j) run =
     sortBy (\<lambda>a b. br_sequence (sr_record a) < br_sequence (sr_record b)) (listOf j run)"
  by (induction j) (auto simp: listOf_def sortJournal_def split: option.splits)

lemma sourcesPass_journal:
  "sourcesPass env d s names = Inr (s', pending, progress) \<Longrightarrow> cb_journal s' = cb_journal s"
proof (induction names arbitrary: s s' pending progress)
  case (Cons name names)
  have step: "reopenSource env d s name = Inr s1 \<Longrightarrow> cb_journal s1 = cb_journal s" for s1
    by (auto simp: reopenSource_def andThen_Inr_iff split: option.splits broker_object.splits if_splits)
  show ?case
  proof (cases "reopenSource env d s name")
    case (Inl e)
    with Cons show ?thesis by (fastforce simp: andThen_Inr_iff split: if_splits)
  next
    case (Inr s1)
    with Cons step show ?thesis by (fastforce simp: andThen_Inr_iff)
  qed
qed simp

lemma reopenSources_journal:
  "reopenSources env d s pending = Some (Inr s') \<Longrightarrow> cb_journal s' = cb_journal s"
proof (induction "length pending" arbitrary: s pending rule: less_induct)
  case less
  show ?case
  proof (cases "pending = []")
    case True
    with less.prems show ?thesis by (subst (asm) reopenSources.simps) simp
  next
    case False
    with less.prems obtain s1 rest where r: "sourcesPass env d s (sort pending) = Inr (s1, rest, True)"
      "reopenSources env d s1 rest = Some (Inr s')"
      by (subst (asm) reopenSources.simps) (auto split: sum.splits if_splits)
    with sourcesPass_progress [OF r(1)] less.hyps [of rest s1] sourcesPass_journal [OF r(1)] show ?thesis by simp
  qed
qed

lemma chained_sequence:
  "chained k previous rs \<Longrightarrow> i < length rs \<Longrightarrow> br_sequence (sr_record (rs ! i)) = of_nat (k + i + 1)"
proof (induction rs arbitrary: k previous i)
  case (Cons r rs)
  then show ?case by (cases i) (auto simp: algebra_simps dest!: Cons.IH)
qed simp

text \<open>An opened journal is what the directory holds of the run, in sequence and chained.\<close>

lemma opened_journal:
  assumes "OpenCandidateBrokerStore env d key runs records = Some (Inr s)"
  shows "mset (listOf (cb_journal s) run) = mset (entriesOf env d (map fst (ad_objects d)) run)"
    and "chained 0 None (listOf (cb_journal s) run)"
proof -
  let ?s0 = "\<lparr>cb_key = key, cb_runs = runs, cb_records = records, cb_sources = [], cb_journal = [], cb_evidence = []\<rparr>"
  obtain s1 s2 where s: "cb_journal ?s0 = []" "reopenSources env d ?s0
      (filter (hasPrefix ''candidate-source-'') (map fst (ad_objects d))) = Some (Inr s1)"
    "foldE (reopenEntry env d) s1 (map fst (ad_objects d)) = Inr s2" "cb_journal s = sortJournal (cb_journal s2)"
    "\<not> list_ex (\<lambda>(_, rs). \<not> chained 0 None rs) (cb_journal s)"
    using assms by (auto simp: OpenCandidateBrokerStore_def Let_def andThen_Inr_iff split: if_splits)
  have "cb_journal s1 = []" using reopenSources_journal [OF s(2)] s(1) by simp
  then have start: "listOf (cb_journal s1) run = entriesOf env d [] run" for run
    by (simp add: listOf_def entriesOf_def List.map_filter_def)
  show "mset (listOf (cb_journal s) run) = mset (entriesOf env d (map fst (ad_objects d)) run)"
    using reopenEntries_journal [OF s(3) start] by (simp add: s(4) listOf_sortJournal)
  show "chained 0 None (listOf (cb_journal s) run)"
    using s(5) by (auto simp: list_ex_iff listOf_def split: option.splits dest!: map_of_SomeD)
qed

lemma entryRecord_name: "entryRecord env d n = Some x \<Longrightarrow> sr_name x = n"
  by (auto simp: entryRecord_def split: if_splits option.splits broker_object.splits)

lemma removeNames_objects:
  "removeNames budget names d = (b, d', ok) \<Longrightarrow>
   \<exists>removed. set removed \<subseteq> set names \<and> ad_objects d' = filter (\<lambda>(n, _). n \<notin> set removed) (ad_objects d) \<and>
     (ok \<longrightarrow> removed = names) \<and> (\<not> ok \<longrightarrow> removed = take budget names \<and> budget < length names)"
proof (induction budget names d rule: removeNames.induct)
  case (3 budget name names d)
  then obtain removed where r: "set removed \<subseteq> set names"
    "ad_objects d' = filter (\<lambda>(n, _). n \<notin> set removed) (filter (\<lambda>(n, _). n \<noteq> name) (ad_objects d))"
    "ok \<longrightarrow> removed = names" "\<not> ok \<longrightarrow> removed = take budget names \<and> budget < length names"
    by auto
  have "ad_objects d' = filter (\<lambda>(n, _). n \<notin> set (name # removed)) (ad_objects d)"
    unfolding r(2) filter_filter by (rule filter_cong) auto
  with r show ?case by (intro exI [of _ "name # removed"]) auto
qed (auto intro: exI [of _ "[]"])

lemma map_of_filter_names:
  "map_of (filter (\<lambda>(n, _). n \<notin> N) xs) name = (if name \<in> N then None else map_of xs name)"
  by (induction xs) auto

lemma entriesOf_removed:
  "ad_objects d' = filter (\<lambda>(n, _). n \<notin> N) (ad_objects d) \<Longrightarrow>
   entriesOf env d' (map fst (ad_objects d')) run =
     filter (\<lambda>x. sr_name x \<notin> N) (entriesOf env d (map fst (ad_objects d)) run)"
proof -
  assume d': "ad_objects d' = filter (\<lambda>(n, _). n \<notin> N) (ad_objects d)"
  have entry: "entryRecord env d' n = (if n \<in> N then None else entryRecord env d n)" for n
    by (simp add: entryRecord_def d' map_of_filter_names)
  have "List.map_filter (entryRecord env d') (map fst (filter (\<lambda>(n, _). n \<notin> N) xs)) =
      filter (\<lambda>x. sr_name x \<notin> N) (List.map_filter (entryRecord env d) (map fst xs))" for xs :: "(string \<times> broker_object) list"
    by (induction xs) (auto simp: List.map_filter_simps entry dest: entryRecord_name split: option.split)
  then show ?thesis by (simp add: entriesOf_def d' filter_filter conj_commute)
qed

lemma set_map_filter: "x \<in> set (List.map_filter f xs) \<longleftrightarrow> (\<exists>n \<in> set xs. f n = Some x)"
  by (induction xs) (auto simp: List.map_filter_simps split: option.split)

lemma entriesOf_names: "distinct names \<Longrightarrow> distinct (map sr_name (entriesOf env d names run))"
proof (induction names)
  case (Cons n names)
  have "sr_name ` set (entriesOf env d names run) \<subseteq> set names"
    by (auto simp: entriesOf_def set_map_filter dest: entryRecord_name)
  with Cons show ?case
    by (auto simp: entriesOf_def List.map_filter_simps entryRecord_name split: option.split)
qed (simp add: entriesOf_def List.map_filter_simps)

text \<open>
  Retirement is not safe against a crash: it removes the records of a run from the first on,
  so when it stops after some of them but not all, the directory it leaves cannot be opened any
  more, with any limits, although it could be before.
\<close>

theorem interrupted_retirement_unopenable:
  assumes "OpenCandidateBrokerStore env d key runs records = Some (Inr s)"
    and "distinct (map fst (ad_objects d))" and "length (listOf (cb_journal s) run) < 2 ^ 64"
    and "0 < budget" and "budget < length (listOf (cb_journal s) run)"
  shows "\<exists>d'. RetireRun budget s d run = (s, d', False) \<and>
    (\<forall>runs' records'. \<exists>e. OpenCandidateBrokerStore env d' key runs' records' = Some (Inl e))"
proof -
  let ?js = "listOf (cb_journal s) run" and ?names = "map sr_name (listOf (cb_journal s) run)"
  note opened = opened_journal [OF assms(1), of run]
  obtain b d' ok where r: "removeNames budget ?names d = (b, d', ok)" by (metis prod.exhaust)
  have stops: "removeNames budget names d = (b, d', True) \<Longrightarrow> length names \<le> budget" for budget names d b d'
    by (induction budget names d rule: removeNames.induct) auto
  have "\<not> ok" using stops [of budget ?names d b d'] r assms(5) by auto
  with removeNames_objects [OF r] have d': "ad_objects d' = filter (\<lambda>(n, _). n \<notin> set (take budget ?names)) (ad_objects d)"
    by auto
  have retire: "RetireRun budget s d run = (s, d', False)" using r \<open>\<not> ok\<close> by (simp add: RetireRun_def)
  have "\<exists>e. OpenCandidateBrokerStore env d' key runs' records' = Some (Inl e)" for runs' records'
  proof (rule ccontr)
    assume "\<not> ?thesis"
    with open_store_returns [of env d' key runs' records'] obtain s' where
      s': "OpenCandidateBrokerStore env d' key runs' records' = Some (Inr s')" by (metis sumE)
    note reopened = opened_journal [OF s', of run]
    have left: "mset (listOf (cb_journal s') run) = filter_mset (\<lambda>x. sr_name x \<notin> set (take budget ?names)) (mset ?js)"
      unfolding reopened(1) opened(1) entriesOf_removed [OF d'] by simp
    have "distinct (map sr_name ?js) \<longleftrightarrow> distinct (map sr_name (entriesOf env d (map fst (ad_objects d)) run))"
      using opened(1) by (intro mset_eq_imp_distinct_iff) simp
    then have distinct: "distinct ?names" using entriesOf_names [OF assms(2)] by simp
    have sequence: "br_sequence (sr_record (?js ! i)) = of_nat (i + 1)" if "i < length ?js" for i
      using chained_sequence [OF opened(2) that] by simp
    have names: "sr_name (?js ! i) \<in> set (take budget ?names) \<Longrightarrow> i < budget" if "i < length ?js" for i
    proof -
      assume "sr_name (?js ! i) \<in> set (take budget ?names)"
      then obtain j where j: "j < budget" "j < length ?js" "sr_name (?js ! j) = sr_name (?js ! i)"
        using that by (auto simp: in_set_conv_nth)
      then have "?names ! j = ?names ! i" using that by simp
      with j(1,2) that distinct show "i < budget" by (simp only: nth_eq_iff_index_eq length_map)
    qed
    have "?js ! budget \<in># mset (listOf (cb_journal s') run)"
      using left names [OF assms(5)] assms(5) by auto
    then have "listOf (cb_journal s') run \<noteq> []" by auto
    then have "br_sequence (sr_record (hd (listOf (cb_journal s') run))) = 1"
      using chained_sequence [OF reopened(2), of 0] by (simp add: hd_conv_nth)
    moreover have "hd (listOf (cb_journal s') run) \<in># mset (listOf (cb_journal s') run)"
      using \<open>listOf (cb_journal s') run \<noteq> []\<close> by simp
    ultimately obtain x where x: "x \<in> set ?js" "sr_name x \<notin> set (take budget ?names)" "br_sequence (sr_record x) = 1"
      unfolding left by auto
    then obtain i where i: "i < length ?js" "x = ?js ! i" by (metis in_set_conv_nth)
    have "of_nat (i + 1) = (1 :: u64)" using sequence [OF i(1)] x(3) i(2) by simp
    moreover have "unat (of_nat (i + 1) :: u64) = i + 1"
      using i(1) assms(3) by (simp add: unat_of_nat del: of_nat_add of_nat_Suc)
    ultimately have "i = 0" by simp
    moreover have "take budget ?names ! 0 \<in> set (take budget ?names)" using assms(4,5) by (intro nth_mem) simp
    ultimately show False using x(2) i assms(4,5) by simp
  qed
  with retire show ?thesis by blast
qed

definition sampleEnv :: broker_env where
  "sampleEnv = \<lparr>be_crypto = sampleHashes, be_encode = \<lambda>_. []\<rparr>"

definition sampleStoreKey :: string where "sampleStoreKey = replicate 32 (CHR ''k'')"
definition sampleDigest :: string where "sampleDigest = hexEncode (replicate 32 (CHR ''s''))"

definition sampleSource :: candidate_source where
  "sampleSource = \<lparr>so_schema = 1, so_run = ''run'', so_kind = CandidateSourceIngress, so_dependencies = [],
     so_catalogue = sampleDigest, so_synthetic = [], so_mac = hexEncode (replicate 32 (CHR ''m''))\<rparr>"

definition sampleRecord :: "u64 \<Rightarrow> string \<Rightarrow> string \<Rightarrow> broker_record" where
  "sampleRecord n kind previous = \<lparr>br_schema = 1, br_run = ''run'', br_source = sampleDigest,
     br_capability = sampleDigest, br_sequence = n, br_kind = kind, br_payload = sampleDigest,
     br_previous = previous, br_mac = hexEncode (replicate 32 (CHR ''m''))\<rparr>"

definition sampleStoreDirectory :: broker_directory where
  "sampleStoreDirectory = \<lparr>ad_objects =
     [(journalName ''run'' 1, RecordObject (sampleRecord 1 ''capability_issued'' [])),
      (journalName ''run'' 2, RecordObject (sampleRecord 2 ''capability_consumed'' sampleDigest)),
      (''candidate-source-x.json'', SourceObject sampleSource)], ad_unsynced = []\<rparr>"

definition emptyStore :: candidate_store where
  "emptyStore = \<lparr>cb_key = sampleStoreKey, cb_runs = 1, cb_records = 9, cb_sources = [], cb_journal = [],
     cb_evidence = []\<rparr>"

definition sourceStore :: candidate_store where
  "sourceStore = emptyStore\<lparr>cb_sources :=
     [(sampleDigest, \<lparr>ss_source = sampleSource, ss_name = ''candidate-source-x.json''\<rparr>)]\<rparr>"

definition sampleStore :: candidate_store where
  "sampleStore = sourceStore\<lparr>cb_journal := [(''run'',
     [\<lparr>sr_record = sampleRecord 1 ''capability_issued'' [], sr_digest = sampleDigest, sr_name = journalName ''run'' 1\<rparr>,
      \<lparr>sr_record = sampleRecord 2 ''capability_consumed'' sampleDigest, sr_digest = sampleDigest,
        sr_name = journalName ''run'' 2\<rparr>])]\<rparr>"

lemma sampleStore_mac:
  "identityDigest sampleEnv obj = Some sampleDigest"
  "candidateMAC sampleEnv key domain obj = hexEncode (replicate 32 (CHR ''m''))"
proof -
  have "list_ex (\<lambda>c. \<not> printable c) (butlast (''cq/stable-object/content/v1'' @ [NUL])) = False" by code_simp
  then show "identityDigest sampleEnv obj = Some sampleDigest"
    by (simp add: identityDigest_def FramedSHA256Hex_def framedHash_def framedMessage_def sampleEnv_def sampleHashes_def
        sampleDigest_def)
  show "candidateMAC sampleEnv key domain obj = hexEncode (replicate 32 (CHR ''m''))"
    by (simp add: candidateMAC_def sampleEnv_def sampleHashes_def)
qed

lemma sampleStore_names:
  "hasPrefix ''candidate-journal-'' (journalName ''run'' 1)" "hasPrefix ''candidate-journal-'' (journalName ''run'' 2)"
  "journalName ''run'' 2 \<noteq> journalName ''run'' 1" "lowerHexDigest sampleDigest"
  by code_simp+

lemma sampleStore_other:
  "hasPrefix ''candidate-journal-'' ''candidate-source-x.json'' = False"
  "hasPrefix ''candidate-evidence-'' ''candidate-source-x.json'' = False"
  "(''candidate-source-x.json'' = journalName run n) = False"
  by (simp_all add: hasPrefix_def journalName_def Let_def)

lemma sampleStore_valid: "validateCandidateValidationSource sampleSource [] = Inr ()"
  by code_simp

lemma sampleStore_sources:
  "filter (hasPrefix ''candidate-source-'') (map fst (ad_objects sampleStoreDirectory)) = [''candidate-source-x.json'']"
  by code_simp

lemma sampleStore_journal:
  "sortJournal (cb_journal sampleStore) = cb_journal sampleStore"
  "list_ex (\<lambda>(_, rs). \<not> chained 0 None rs) (cb_journal sampleStore) = False"
  by code_simp+

lemma sampleStore_limits: "runCount sampleStore = 1" "length sampleStoreKey = 32" "cb_runs sampleStore = 1"
  by code_simp+

lemma sampleStore_source:
  "reopenSource sampleEnv sampleStoreDirectory emptyStore ''candidate-source-x.json'' = Inr sourceStore"
proof -
  have "map_of (ad_objects sampleStoreDirectory) ''candidate-source-x.json'' = Some (SourceObject sampleSource)"
    by code_simp
  moreover have "so_mac sampleSource = candidateSourceMAC sampleEnv (cb_key emptyStore) sampleSource"
    by (simp add: candidateSourceMAC_def sampleStore_mac sampleSource_def)
  moreover have "validateCandidateValidationSource sampleSource (cb_sources emptyStore) = Inr ()"
    using sampleStore_valid by (simp add: emptyStore_def)
  ultimately show ?thesis
    by (simp add: reopenSource_def sampleStore_mac sourceStore_def emptyStore_def)
qed

lemma sampleStore_records:
  "foldE (reopenEntry sampleEnv sampleStoreDirectory) sourceStore (map fst (ad_objects sampleStoreDirectory)) =
     Inr sampleStore"
  using sampleStore_names
  by (simp add: sampleStore_other sampleStoreDirectory_def reopenEntry_def reopenRecord_def candidateRecordMAC_def sampleStore_mac
      sampleRecord_def sourceStore_def sampleStore_def emptyStore_def sampleSource_def appendTo_def listOf_def)

lemma sampleDirectory_opens:
  "OpenCandidateBrokerStore sampleEnv sampleStoreDirectory sampleStoreKey 1 9 = Some (Inr sampleStore)"
proof -
  have "sourcesPass sampleEnv sampleStoreDirectory emptyStore (sort [''candidate-source-x.json'']) =
      Inr (sourceStore, [], True)"
    by (simp add: sampleStore_source)
  then have "reopenSources sampleEnv sampleStoreDirectory emptyStore [''candidate-source-x.json''] =
      reopenSources sampleEnv sampleStoreDirectory sourceStore []"
    by (subst reopenSources.simps) (simp only:, simp)
  also have "\<dots> = Some (Inr sourceStore)" by (subst reopenSources.simps) simp
  finally have "reopenSources sampleEnv sampleStoreDirectory emptyStore
      (filter (hasPrefix ''candidate-source-'') (map fst (ad_objects sampleStoreDirectory))) = Some (Inr sourceStore)"
    by (simp only: sampleStore_sources)
  with sampleStore_records show ?thesis
    by (simp add: OpenCandidateBrokerStore_def Let_def sampleStore_journal sampleStore_limits emptyStore_def [symmetric])
qed

theorem interrupted_retirement_unopenable_witness:
  "\<exists>s d'. OpenCandidateBrokerStore sampleEnv sampleStoreDirectory sampleStoreKey 1 9 = Some (Inr s) \<and>
    RetireRun 1 s sampleStoreDirectory ''run'' = (s, d', False) \<and>
    (\<exists>e. OpenCandidateBrokerStore sampleEnv d' sampleStoreKey 1 9 = Some (Inl e))"
proof -
  have names: "distinct (map fst (ad_objects sampleStoreDirectory))" by code_simp
  have "length (listOf (cb_journal sampleStore) ''run'') = 2" by code_simp
  with interrupted_retirement_unopenable [OF sampleDirectory_opens names, of "''run''" 1] sampleDirectory_opens
  show ?thesis by auto
qed

end
