(* ===== verification/CredentialEcho.thy ===== *)
theory CredentialEcho
  imports AuthorityCrypto "HOL-Library.Sublist"
begin

text \<open>
  The scanner that keeps provider credentials from being echoed to a candidate:
  \<open>internal/proxy/credential_echo_scanner.go\<close>. It looks for the credentials in headers, in a
  body and, chunk by chunk, in a stream whose bytes are released as soon as they cannot be part of
  a credential. The decompressors of the libraries are parameters, given a limit on what they may
  produce.
\<close>

section \<open>The scanner\<close>

definition credentialEchoRepresentationLimit :: nat where
  "credentialEchoRepresentationLimit = 64 * 2 ^ 20"

datatype echo_outcome = CredentialEchoClear | CredentialEchoMatch | CredentialEchoIndeterminate

fun outcomeText :: "echo_outcome \<Rightarrow> string" where
  "outcomeText CredentialEchoClear = ''clear''"
| "outcomeText CredentialEchoMatch = ''match''"
| "outcomeText CredentialEchoIndeterminate = ''indeterminate''"

text \<open>The zero value has no outcome.\<close>

record echo_evidence =
  ev_schema :: int
  ev_outcome :: "echo_outcome option"
  ev_inspected :: u64
  ev_digest :: string

definition noEvidence :: echo_evidence where
  "noEvidence = \<lparr>ev_schema = 0, ev_outcome = None, ev_inspected = 0, ev_digest = []\<rparr>"

record echo_scanner =
  cs_key :: string
  cs_patterns :: "string list"
  cs_maxPattern :: nat

datatype echo_error =
  EchoAuthorityUnavailable | EchoPatternInvalid | EchoStreamUnavailable | EchoStreamLimitExceeded

definition addPattern :: "echo_scanner \<Rightarrow> string \<Rightarrow> echo_error + echo_scanner" where
  "addPattern s credential =
     (if credential = [] \<or> length credential > 16 * 2 ^ 10 then Inl EchoPatternInvalid
      else Inr (s\<lparr>cs_patterns := cs_patterns s @ [credential],
        cs_maxPattern := (if length credential > cs_maxPattern s then length credential else cs_maxPattern s)\<rparr>))"

definition NewCredentialEchoScanner ::
  "hashing \<Rightarrow> string \<Rightarrow> string \<Rightarrow> string list \<Rightarrow> echo_error + echo_scanner" where
  "NewCredentialEchoScanner cy root runID credentials =
     (if length root \<noteq> sha256Bytes \<or> runID = [] \<or> credentials = [] then Inl EchoAuthorityUnavailable
      else case DeriveAuthorityKey cy root ''cq/credential-echo-scanner/v1'' (int sha256Bytes) of
        None \<Rightarrow> Inl EchoAuthorityUnavailable
      | Some purposeKey \<Rightarrow>
          foldE addPattern
            \<lparr>cs_key = take sha256Bytes (cy_hmac cy purposeKey
               (''cq/credential-echo-run/v1'' @ [NUL] @ be32 (length runID) @ runID)),
             cs_patterns = [], cs_maxPattern = 0\<rparr> credentials)"

definition containsPattern :: "echo_scanner \<Rightarrow> string \<Rightarrow> bool" where
  "containsPattern s v \<longleftrightarrow> list_ex (\<lambda>pattern. sublist pattern v) (cs_patterns s)"

definition evidence :: "hashing \<Rightarrow> echo_scanner \<Rightarrow> echo_outcome \<Rightarrow> u64 \<Rightarrow> echo_evidence" where
  "evidence cy s outcome inspected =
     (case FramedHMACSHA256Hex cy (cs_key s) (''cq/credential-echo-evidence/v1'' @ [NUL])
         [outcomeText outcome, be64 (unat inspected)] of
        None \<Rightarrow> \<lparr>ev_schema = 1, ev_outcome = Some CredentialEchoIndeterminate, ev_inspected = inspected,
          ev_digest = []\<rparr>
      | Some digest \<Rightarrow> \<lparr>ev_schema = 1, ev_outcome = Some outcome, ev_inspected = inspected, ev_digest = digest\<rparr>)"

text \<open>A header is the association list of its map; its names are distinct.\<close>

type_synonym header = "(string \<times> string list) list"

fun scanValues :: "echo_scanner \<Rightarrow> u64 \<Rightarrow> string list \<Rightarrow> bool \<times> u64" where
  "scanValues s inspected [] = (False, inspected)"
| "scanValues s inspected (v # vs) =
     (let inspected = inspected + of_nat (length v)
      in if containsPattern s v then (True, inspected) else scanValues s inspected vs)"

fun scanNames :: "echo_scanner \<Rightarrow> u64 \<Rightarrow> header \<Rightarrow> bool \<times> u64" where
  "scanNames s inspected [] = (False, inspected)"
| "scanNames s inspected ((name, vs) # rest) =
     (let inspected = inspected + of_nat (length name)
      in if containsPattern s name then (True, inspected)
         else case scanValues s inspected vs of
           (True, inspected) \<Rightarrow> (True, inspected)
         | (False, inspected) \<Rightarrow> scanNames s inspected rest)"

definition ScanHeaders :: "hashing \<Rightarrow> echo_scanner \<Rightarrow> header \<Rightarrow> echo_evidence" where
  "ScanHeaders cy s h =
     (case scanNames s 0 (sortBy (\<lambda>a b. fst a < fst b) h) of
        (found, inspected) \<Rightarrow>
          evidence cy s (if found then CredentialEchoMatch else CredentialEchoClear) inspected)"

record codecs =
  cd_gunzip :: "nat \<Rightarrow> string \<Rightarrow> string option"
  cd_unzstd :: "nat \<Rightarrow> string \<Rightarrow> string option"

text \<open>
  The decoded body, \<open>None\<close> where the code gives up on it: \<open>io.ReadAll\<close> over a reader limited to one
  byte more than the limit, or \<open>DecodeAll\<close> under a memory limit.
\<close>

definition decodedBody :: "codecs \<Rightarrow> string \<Rightarrow> string \<Rightarrow> string option" where
  "decodedBody cd encoding encoded =
     (let decoded = (if encoding = ''gzip'' then cd_gunzip cd (credentialEchoRepresentationLimit + 1) encoded
        else if encoding = ''zstd'' then cd_unzstd cd credentialEchoRepresentationLimit encoded
        else None)
      in case decoded of None \<Rightarrow> None
         | Some d \<Rightarrow> if length d > credentialEchoRepresentationLimit then None else Some d)"

definition ScanRepresentation ::
  "hashing \<Rightarrow> codecs \<Rightarrow> echo_scanner \<Rightarrow> string \<Rightarrow> string \<Rightarrow> echo_evidence" where
  "ScanRepresentation cy cd s encoded encoding =
     (if length encoded > credentialEchoRepresentationLimit
      then \<lparr>ev_schema = 1, ev_outcome = Some CredentialEchoIndeterminate, ev_inspected = 0, ev_digest = []\<rparr>
      else let inspected = of_nat (length encoded)
        in if containsPattern s encoded then evidence cy s CredentialEchoMatch inspected
           else if encoding = [] \<or> encoding = ''identity'' then evidence cy s CredentialEchoClear inspected
           else case decodedBody cd encoding encoded of
             None \<Rightarrow> evidence cy s CredentialEchoIndeterminate inspected
           | Some decoded \<Rightarrow>
               let inspected = inspected + of_nat (length decoded)
               in if containsPattern s decoded then evidence cy s CredentialEchoMatch inspected
                  else evidence cy s CredentialEchoClear inspected)"

section \<open>Streams\<close>

record echo_stream =
  st_tail :: string
  st_inspected :: u64
  st_terminal :: bool

definition NewStream :: echo_stream where
  "NewStream = \<lparr>st_tail = [], st_inspected = 0, st_terminal = False\<rparr>"

definition Push ::
  "hashing \<Rightarrow> echo_scanner \<Rightarrow> echo_stream \<Rightarrow> string \<Rightarrow> bool \<Rightarrow>
   echo_stream \<times> string \<times> echo_evidence \<times> echo_error option" where
  "Push cy s st chunk final =
     (if st_terminal st then (st, [], noEvidence, Some EchoStreamUnavailable)
      else if st_inspected st + of_nat (length chunk) > of_nat credentialEchoRepresentationLimit
      then (st\<lparr>st_terminal := True\<rparr>, [], evidence cy s CredentialEchoIndeterminate (st_inspected st),
        Some EchoStreamLimitExceeded)
      else
        (let st = st\<lparr>st_inspected := st_inspected st + of_nat (length chunk)\<rparr>;
             combined = st_tail st @ chunk
         in if containsPattern s combined
            then (st\<lparr>st_terminal := True, st_tail := []\<rparr>, [], evidence cy s CredentialEchoMatch (st_inspected st), None)
            else if final
            then (st\<lparr>st_terminal := True, st_tail := []\<rparr>, combined,
              evidence cy s CredentialEchoClear (st_inspected st), None)
            else
              (let retained = max 0 (int (cs_maxPattern s) - 1);
                   retained = (if retained > int (length combined) then int (length combined) else retained);
                   safeLength = nat (int (length combined) - retained)
               in (st\<lparr>st_tail := drop safeLength combined\<rparr>, take safeLength combined,
                   evidence cy s CredentialEchoClear (st_inspected st), None))))"

section \<open>Scanners\<close>

definition scanner_ok :: "echo_scanner \<Rightarrow> bool" where
  "scanner_ok s \<longleftrightarrow> (\<forall>pattern \<in> set (cs_patterns s). pattern \<noteq> [] \<and> length pattern \<le> cs_maxPattern s)"

lemma NewCredentialEchoScanner_ok:
  assumes "NewCredentialEchoScanner cy root runID credentials = Inr s"
  shows "scanner_ok s" "cs_patterns s = credentials"
proof -
  have grow: "scanner_ok s' \<and> cs_patterns s' = cs_patterns s0 @ cs"
    if "foldE addPattern s0 cs = Inr s'" "scanner_ok s0" for s0 s' cs
    using that
  proof (induction cs arbitrary: s0)
    case (Cons c cs)
    then obtain s1 where s1: "addPattern s0 c = Inr s1" "foldE addPattern s1 cs = Inr s'"
      by (auto simp: andThen_Inr_iff)
    then have "scanner_ok s1 \<and> cs_patterns s1 = cs_patterns s0 @ [c]"
      using Cons.prems(2) by (fastforce simp: addPattern_def scanner_ok_def split: if_splits)
    with Cons.IH [OF s1(2)] show ?case by simp
  qed simp
  obtain k where k: "foldE addPattern \<lparr>cs_key = k, cs_patterns = [], cs_maxPattern = 0\<rparr> credentials = Inr s"
    using assms by (auto simp: NewCredentialEchoScanner_def split: if_splits option.splits)
  from grow [OF k] show "scanner_ok s" "cs_patterns s = credentials" by (simp_all add: scanner_ok_def)
qed

lemma containsPattern_iff: "containsPattern s v \<longleftrightarrow> (\<exists>pattern \<in> set (cs_patterns s). sublist pattern v)"
  by (simp add: containsPattern_def list_ex_iff)

lemma containsPattern_mono:
  assumes "containsPattern s v"
  shows "containsPattern s (a @ v @ b)"
proof -
  obtain q ps ss where q: "q \<in> set (cs_patterns s)" "v = ps @ q @ ss"
    using assms by (auto simp: containsPattern_iff sublist_def)
  then have "a @ v @ b = (a @ ps) @ q @ (ss @ b)" by simp
  with q(1) show ?thesis unfolding containsPattern_iff sublist_def by blast
qed

lemma containsPattern_Nil: "scanner_ok s \<Longrightarrow> \<not> containsPattern s []"
  by (auto simp: containsPattern_iff scanner_ok_def)

text \<open>Only the tail of what has been seen can begin a credential that the next bytes complete.\<close>

lemma containsPattern_tail:
  assumes "scanner_ok s" "\<not> containsPattern s (a @ t)" "cs_maxPattern s - 1 \<le> length t \<or> a = []"
  shows "containsPattern s (a @ t @ c) \<longleftrightarrow> containsPattern s (t @ c)"
proof
  assume "containsPattern s (a @ t @ c)"
  then obtain q ps ss where q: "q \<in> set (cs_patterns s)" "a @ t @ c = ps @ q @ ss"
    by (auto simp: containsPattern_iff sublist_def)
  have q': "q \<noteq> []" "length q \<le> cs_maxPattern s" using assms(1) q(1) by (auto simp: scanner_ok_def)
  have not_before: "\<not> length (ps @ q) \<le> length (a @ t)"
  proof
    assume "length (ps @ q) \<le> length (a @ t)"
    moreover have "(a @ t) @ c = (ps @ q) @ ss" using q(2) by simp
    ultimately have "\<exists>r. a @ t = (ps @ q) @ r"
      by (metis append_eq_append_conv_if append_take_drop_id)
    with q(1) assms(2) show False by (auto simp: containsPattern_iff sublist_def)
  qed
  have "length a \<le> length ps" using not_before assms(3) q' by (cases "a = []") auto
  then obtain r where "ps = a @ r" using q(2) by (metis append_eq_append_conv_if append_take_drop_id)
  with q have "t @ c = r @ q @ ss" by simp
  with q(1) show "containsPattern s (t @ c)" by (auto simp: containsPattern_iff sublist_def)
next
  assume "containsPattern s (t @ c)"
  from containsPattern_mono [OF this, of a "[]"] show "containsPattern s (a @ t @ c)" by simp
qed

section \<open>What is released\<close>

text \<open>
  A stream pushed chunk by chunk: the bytes released so far and the stream after them, for as long
  as the evidence is clear.
\<close>

fun pushClear :: "hashing \<Rightarrow> echo_scanner \<Rightarrow> echo_stream \<times> string \<Rightarrow> string list \<Rightarrow> (echo_stream \<times> string) option" where
  "pushClear cy s (st, released) [] = Some (st, released)"
| "pushClear cy s (st, released) (chunk # chunks) =
     (case Push cy s st chunk False of
        (st', safe, ev, None) \<Rightarrow>
          if ev_outcome ev = Some CredentialEchoClear then pushClear cy s (st', released @ safe) chunks else None
      | _ \<Rightarrow> None)"

definition stream_inv :: "echo_scanner \<Rightarrow> string \<Rightarrow> echo_stream \<times> string \<Rightarrow> bool" where
  "stream_inv s input = (\<lambda>(st, released).
     \<not> st_terminal st \<and> released @ st_tail st = input \<and> \<not> containsPattern s input \<and>
     length (st_tail st) = min (cs_maxPattern s - 1) (length input) \<and>
     unat (st_inspected st) = length input \<and> length input \<le> credentialEchoRepresentationLimit)"

lemma stream_inv_start: "scanner_ok s \<Longrightarrow> stream_inv s [] (NewStream, [])"
  by (simp add: stream_inv_def NewStream_def containsPattern_Nil)

lemma limit_word: "unat (of_nat credentialEchoRepresentationLimit :: u64) = credentialEchoRepresentationLimit"
  by (simp add: credentialEchoRepresentationLimit_def)

lemma inspected_word:
  assumes "unat (x :: u64) \<le> credentialEchoRepresentationLimit" "n < 2 ^ 63"
  shows "x + of_nat n > of_nat credentialEchoRepresentationLimit \<longleftrightarrow> unat x + n > credentialEchoRepresentationLimit"
    and "unat (x + of_nat n) = unat x + n"
proof -
  have "unat x + n < 2 ^ 64" using assms by (simp add: credentialEchoRepresentationLimit_def)
  moreover have "unat (of_nat n :: u64) = n" using assms(2) by (simp add: unat_of_nat)
  ultimately show sum: "unat (x + of_nat n) = unat x + n" by (simp add: unat_word_ariths)
  show "x + of_nat n > of_nat credentialEchoRepresentationLimit \<longleftrightarrow> unat x + n > credentialEchoRepresentationLimit"
    by (simp add: word_less_nat_alt sum limit_word)
qed

lemma take_drop_retained:
  "nat (int n - (if max 0 (int m - 1) > int n then int n else max 0 (int m - 1))) = n - (m - 1)"
  by (auto simp: max_def)

text \<open>One push, under the invariant: limit, match, or clear.\<close>

lemma push_cases:
  assumes "stream_inv s input (st, released)" "scanner_ok s" "length chunk < 2 ^ 63"
  shows "if length (input @ chunk) > credentialEchoRepresentationLimit
      then snd (snd (Push cy s st chunk final)) = (evidence cy s CredentialEchoIndeterminate (st_inspected st),
        Some EchoStreamLimitExceeded) \<and> fst (snd (Push cy s st chunk final)) = []
      else if containsPattern s (input @ chunk)
      then snd (Push cy s st chunk final) = ([], evidence cy s CredentialEchoMatch (of_nat (length (input @ chunk))), None)
      else \<exists>st' safe. Push cy s st chunk final =
          (st', safe, evidence cy s CredentialEchoClear (of_nat (length (input @ chunk))), None) \<and>
        (if final then released @ safe = input @ chunk \<and> st_terminal st'
         else stream_inv s (input @ chunk) (st', released @ safe))"
proof -
  let ?n = "length input + length chunk"
  have inv: "\<not> st_terminal st" "released @ st_tail st = input" "\<not> containsPattern s input"
    "length (st_tail st) = min (cs_maxPattern s - 1) (length input)"
    "unat (st_inspected st) = length input" "length input \<le> credentialEchoRepresentationLimit"
    using assms(1) by (auto simp: stream_inv_def)
  note w = inspected_word [of "st_inspected st" "length chunk", unfolded inv(5), OF inv(6) assms(3)]
  have total: "st_inspected st + of_nat (length chunk) = of_nat ?n"
    by (simp flip: inv(5))
  have retained: "cs_maxPattern s - 1 \<le> length (st_tail st) \<or> released = []"
    using inv(4) arg_cong [OF inv(2), of length] by (cases "cs_maxPattern s - 1 \<le> length input") simp_all
  have found: "containsPattern s (input @ chunk) \<longleftrightarrow> containsPattern s (st_tail st @ chunk)"
    using containsPattern_tail [OF assms(2) _ retained, of chunk] inv(3) unfolding inv(2) [symmetric] by simp
  show ?thesis
  proof (cases "?n > credentialEchoRepresentationLimit")
    case True
    then show ?thesis using inv(1) w(1) by (simp add: Push_def)
  next
    case small: False
    then have go: "\<not> st_inspected st + of_nat (length chunk) > of_nat credentialEchoRepresentationLimit"
      using w(1) by simp
    show ?thesis
    proof (cases "containsPattern s (input @ chunk)")
      case True
      then show ?thesis using small inv(1) go found total by (simp add: Push_def Let_def)
    next
      case False
      let ?c = "st_tail st @ chunk" and ?k = "length (st_tail st @ chunk) - (cs_maxPattern s - 1)"
      have sum: "released @ ?c = input @ chunk" using inv(2) by simp
      show ?thesis
      proof (cases final)
        case True
        then show ?thesis using small False inv(1) go found total sum by (simp add: Push_def Let_def)
      next
        case unfinished: False
        have push: "Push cy s st chunk final = (st\<lparr>st_inspected := of_nat ?n, st_tail := drop ?k ?c\<rparr>, take ?k ?c,
            evidence cy s CredentialEchoClear (of_nat ?n), None)"
          using unfinished False inv(1) go found total
          unfolding Push_def Let_def take_drop_retained by simp
        have len: "length (drop ?k ?c) = min (cs_maxPattern s - 1) ?n" 
          by (simp only: length_drop length_append inv(4))
        have cut: "(released @ take ?k ?c) @ drop ?k ?c = input @ chunk" using sum by (metis append.assoc append_take_drop_id)
        have "unat (of_nat ?n :: u64) = ?n" using w(2) total by simp
        with small False push len cut inv(1) unfinished show ?thesis
          by (simp add: stream_inv_def)
      qed
    qed
  qed
qed

lemma pushClear_inv:
  assumes "pushClear cy s (st, released) chunks = Some r" "stream_inv s input (st, released)" "scanner_ok s"
    and "\<forall>c \<in> set chunks. length c < 2 ^ 63"
  shows "stream_inv s (input @ concat chunks) r"
  using assms
proof (induction chunks arbitrary: st released input)
  case (Cons c cs)
  obtain st' safe ev where step: "Push cy s st c False = (st', safe, ev, None)"
    "ev_outcome ev = Some CredentialEchoClear" "pushClear cy s (st', released @ safe) cs = Some r"
    using Cons.prems(1) by (auto split: prod.splits option.splits if_splits)
  have clear: "ev_outcome (evidence cy s CredentialEchoMatch n) \<noteq> Some CredentialEchoClear" for n
    by (simp add: evidence_def split: option.split)
  have "stream_inv s (input @ c) (st', released @ safe)"
    using push_cases [OF Cons.prems(2,3), of c cy False] Cons.prems(4) step(1,2) clear by (auto split: if_splits)
  from Cons.IH [OF step(3) this Cons.prems(3)] Cons.prems(4) show ?case by simp
qed simp

text \<open>
  C14. Streaming loses nothing: however a stream within the limit is cut into chunks, once the
  pushes so far were clear, the next push reports a match exactly when some credential occurs in
  all that has been pushed; otherwise it is clear, and a final push has released the whole stream.
\<close>

theorem echo_stream_exact:
  assumes "NewCredentialEchoScanner cy root runID credentials = Inr s"
    and "pushClear cy s (NewStream, []) chunks = Some (st, released)"
    and "\<forall>c \<in> set (chunk # chunks). length c < 2 ^ 63"
    and "input = concat chunks @ chunk" and "length input \<le> credentialEchoRepresentationLimit"
  shows "if \<exists>credential \<in> set credentials. sublist credential input
    then snd (Push cy s st chunk final) = ([], evidence cy s CredentialEchoMatch (of_nat (length input)), None)
    else \<exists>st' safe. Push cy s st chunk final =
        (st', safe, evidence cy s CredentialEchoClear (of_nat (length input)), None) \<and>
      (final \<longrightarrow> released @ safe = input)"
proof -
  note ok = NewCredentialEchoScanner_ok [OF assms(1)]
  have "stream_inv s (concat chunks) (st, released)"
    using pushClear_inv [OF assms(2) stream_inv_start [OF ok(1)] ok(1)] assms(3) by simp
  moreover have "length chunk < 2 ^ 63" using assms(3) by simp
  ultimately have push: "if length input > credentialEchoRepresentationLimit
      then snd (snd (Push cy s st chunk final)) = (evidence cy s CredentialEchoIndeterminate (st_inspected st),
        Some EchoStreamLimitExceeded) \<and> fst (snd (Push cy s st chunk final)) = []
      else if \<exists>credential \<in> set credentials. sublist credential input
      then snd (Push cy s st chunk final) = ([], evidence cy s CredentialEchoMatch (of_nat (length input)), None)
      else \<exists>st' safe. Push cy s st chunk final =
          (st', safe, evidence cy s CredentialEchoClear (of_nat (length input)), None) \<and>
        (if final then released @ safe = input \<and> st_terminal st' else stream_inv s input (st', released @ safe))"
    unfolding assms(4) containsPattern_iff [of s, unfolded ok(2), symmetric] using ok(1) by (intro push_cases)
  have small: "\<not> length input > credentialEchoRepresentationLimit" using assms(5) by simp
  show ?thesis
  proof (cases "\<exists>credential \<in> set credentials. sublist credential input")
    case True
    from push show ?thesis unfolding if_not_P [OF small] if_P [OF True] .
  next
    case False
    from push [unfolded if_not_P [OF small] if_not_P [OF False]] show ?thesis
      unfolding if_not_P [OF False]
    proof (elim exE conjE, intro exI conjI)
      fix st' safe
      assume push: "Push cy s st chunk final =
          (st', safe, evidence cy s CredentialEchoClear (of_nat (length input)), None)"
        and safe: "if final then released @ safe = input \<and> st_terminal st' else stream_inv s input (st', released @ safe)"
      show "Push cy s st chunk final =
          (st', safe, evidence cy s CredentialEchoClear (of_nat (length input)), None)" by (rule push)
      show "final \<longrightarrow> released @ safe = input" using safe by simp
    qed
  qed
qed

lemma retained_arith:
  "\<not> f + c \<le> l \<Longrightarrow> l = r + t \<Longrightarrow> t = min (m - 1) l \<Longrightarrow> c \<le> m \<Longrightarrow> r \<le> (f :: nat)"
  by linarith

text \<open>
  C39. No byte of a credential is released: whatever the rest of the stream turns out to be, every
  occurrence of a credential in it starts after the bytes released so far.
\<close>

theorem echo_release_safe:
  assumes "NewCredentialEchoScanner cy root runID credentials = Inr s"
    and "pushClear cy s (NewStream, []) chunks = Some (st, released)"
    and "\<forall>c \<in> set chunks. length c < 2 ^ 63"
    and "credential \<in> set credentials" and "concat chunks @ rest = front @ credential @ rear"
  shows "length released \<le> length front \<and> (\<exists>held. concat chunks = released @ held)"
proof -
  note ok = NewCredentialEchoScanner_ok [OF assms(1)]
  have inv: "stream_inv s (concat chunks) (st, released)"
    using pushClear_inv [OF assms(2) stream_inv_start [OF ok(1)] ok(1) assms(3)] by simp
  then have r: "released @ st_tail st = concat chunks" "\<not> containsPattern s (concat chunks)"
    "length (st_tail st) = min (cs_maxPattern s - 1) (length (concat chunks))"
    by (auto simp: stream_inv_def)
  have c: "length credential \<le> cs_maxPattern s" "credential \<in> set (cs_patterns s)"
    using ok assms(4) by (auto simp: scanner_ok_def)
  have "\<not> length (front @ credential) \<le> length (concat chunks)"
  proof
    assume "length (front @ credential) \<le> length (concat chunks)"
    with assms(5) have "\<exists>k. concat chunks = (front @ credential) @ k"
      by (metis append.assoc append_eq_append_conv_if append_take_drop_id)
    with c(2) r(2) show False by (auto simp: containsPattern_iff sublist_def)
  qed
  moreover have "length (concat chunks) = length released + length (st_tail st)" using r(1) by (metis length_append)
  ultimately have "length released \<le> length front"
    using retained_arith [OF _ _ r(3) c(1)] unfolding length_append by blast
  with r(1) show ?thesis by metis
qed

definition sampleScanner :: echo_scanner where
  "sampleScanner = \<lparr>cs_key = replicate 32 (CHR ''m''), cs_patterns = [''secret''], cs_maxPattern = 6\<rparr>"

lemma sampleScanner_new:
  "NewCredentialEchoScanner sampleHashes (replicate 32 (CHR ''r'')) ''run'' [''secret''] = Inr sampleScanner"
  by (simp add: NewCredentialEchoScanner_def DeriveAuthorityKey_def sampleHashes_def sampleScanner_def
    addPattern_def printable_def)

lemma sampleScanner_pushed:
  "pushClear sampleHashes sampleScanner (NewStream, []) [''my se''] =
     Some (\<lparr>st_tail = ''my se'', st_inspected = 5, st_terminal = False\<rparr>, [])"
  by (simp add: Push_def NewStream_def sampleScanner_def containsPattern_def sublist_code evidence_def
    FramedHMACSHA256Hex_def framedHash_def framedMessage_def printable_def sampleHashes_def
    credentialEchoRepresentationLimit_def)

theorem echo_stream_exact_witness:
  "snd (Push sampleHashes sampleScanner \<lparr>st_tail = ''my se'', st_inspected = 5, st_terminal = False\<rparr>
     ''cret'' True) = ([], evidence sampleHashes sampleScanner CredentialEchoMatch 9, None)"
proof -
  have "\<exists>credential \<in> set [''secret'']. sublist credential (concat [''my se''] @ ''cret'')" by code_simp
  with echo_stream_exact [OF sampleScanner_new sampleScanner_pushed _ refl, of "''cret''" True]
  show ?thesis by (simp add: credentialEchoRepresentationLimit_def)
qed

theorem echo_release_safe_witness:
  "length ([] :: string) \<le> length (''my '') \<and> (\<exists>held. concat [''my se''] = [] @ held)"
  by (rule echo_release_safe [OF sampleScanner_new sampleScanner_pushed, where rest = "''cret''" and rear = "[]"])
    simp_all

end
