(* ===== verification/CandidateBroker.thy ===== *)
theory CandidateBroker
  imports CandidateStore CredentialEcho
begin

text \<open>
  The broker between a candidate build under validation and the provider:
  \<open>internal/proxy/candidate_broker.go\<close>. It grants signed capabilities for single requests, sends
  such a request at most once, and lets the candidate see a response only when it holds none of
  the provider's credentials. The JSON encoders, the URL parser, the nonce, the clock, the
  transport and the hook are arguments; a \<open>nil\<close> header map is \<open>None\<close>. Contexts are not cancelled:
  to the store, a cancelled context is one more way for a publication to fail.
\<close>

section \<open>Requests and responses\<close>

record capability_acquire =
  ac_schema :: int
  ac_request :: string
  ac_protocol :: string
  ac_origin :: string
  ac_method :: string
  ac_route :: string
  ac_query :: string
  ac_headers :: "header option"
  ac_body_digest :: string
  ac_body_limit :: int
  ac_response_limit :: int
  ac_deadline :: int
  ac_account :: string
  ac_revision :: string
  ac_budget :: string

record request_capability = capability_acquire +
  cp_header_digest :: string
  cp_nonce :: string
  cp_digest :: string
  cp_signature :: string

datatype logical_kind =
  CandidateLogicalSSE | CandidateLogicalWebSocketText | CandidateLogicalWebSocketBinary |
  CandidateLogicalWebSocketPing | CandidateLogicalWebSocketPong | CandidateLogicalWebSocketClose |
  CandidateLogicalWebSocketHandshake | CandidateLogicalOther string

record logical_frame =
  lf_kind :: logical_kind
  lf_payload :: string

record upstream_request =
  ur_origin :: string
  ur_bearer :: string
  ur_method :: string
  ur_route :: string
  ur_query :: string
  ur_headers :: header
  ur_body :: string
  ur_protocol :: string

text \<open>What the candidate sees has the same fields as what the provider answered.\<close>

record upstream_response =
  us_status :: int
  us_headers :: header
  us_body :: string
  us_encoding :: string
  us_logical :: "logical_frame list"

datatype provider_outcome =
  CandidateProviderDelivered | CandidateProviderEchoBlocked | CandidateProviderIndeterminate |
  CandidateProviderFailed

record terminal_receipt =
  tr_schema :: int
  tr_capability :: string
  tr_outcome :: provider_outcome
  tr_response_digest :: string
  tr_scan :: string
  tr_response :: "upstream_response option"

record provider_env =
  pe_store :: broker_env
  pe_codecs :: codecs
  pe_capability :: "request_capability \<Rightarrow> string"
  pe_headers :: "header \<Rightarrow> string"
  pe_visible :: "upstream_response \<Rightarrow> string"
  pe_receipt :: "terminal_receipt \<Rightarrow> string"

abbreviation pe_crypto :: "provider_env \<Rightarrow> hashing" where "pe_crypto env \<equiv> be_crypto (pe_store env)"

section \<open>Headers and queries\<close>

text \<open>\<open>http.CanonicalHeaderKey\<close>: a key with a byte no header name may have is left as it is.\<close>

definition headerFieldByte :: "char \<Rightarrow> bool" where
  "headerFieldByte c \<longleftrightarrow>
     (let n = of_char c :: nat
      in (48 \<le> n \<and> n \<le> 57) \<or> (65 \<le> n \<and> n \<le> 90) \<or> (97 \<le> n \<and> n \<le> 122) \<or> c \<in> set ''!#$%&*+-.^_|~'' \<or>
         c = CHR 0x27 \<or> c = CHR 0x60)"

fun capitalise :: "bool \<Rightarrow> string \<Rightarrow> string" where
  "capitalise upper [] = []"
| "capitalise upper (c # cs) =
     (let n = of_char c :: nat;
          c = (if upper \<and> 97 \<le> n \<and> n \<le> 122 then char_of (n - 32)
            else if \<not> upper \<and> 65 \<le> n \<and> n \<le> 90 then char_of (n + 32) else c)
      in c # capitalise (c = CHR ''-'') cs)"

definition CanonicalHeaderKey :: "string \<Rightarrow> string" where
  "CanonicalHeaderKey name = (if list_all headerFieldByte name then capitalise True name else name)"

definition headerValues :: "header \<Rightarrow> string \<Rightarrow> string list" where
  "headerValues h name = (case map_of h (CanonicalHeaderKey name) of None \<Rightarrow> [] | Some vs \<Rightarrow> vs)"

definition headerGet :: "header \<Rightarrow> string \<Rightarrow> string" where
  "headerGet h name = (case headerValues h name of [] \<Rightarrow> [] | v # _ \<Rightarrow> v)"

definition headerSet :: "header \<Rightarrow> string \<Rightarrow> string \<Rightarrow> header" where
  "headerSet h name v = AList.update (CanonicalHeaderKey name) [v] h"

definition headerOf :: "header option \<Rightarrow> header" where
  "headerOf h = (case h of None \<Rightarrow> [] | Some h \<Rightarrow> h)"

text \<open>\<open>url.ParseQuery\<close> accepts it: no semicolon, and every \<open>%\<close> starts an escape.\<close>

fun escapesValid :: "string \<Rightarrow> bool" where
  "escapesValid [] = True"
| "escapesValid (c # cs) =
     (if c = CHR ''%'' then
        (case cs of a # b # rest \<Rightarrow> fromHexChar a \<noteq> None \<and> fromHexChar b \<noteq> None \<and> escapesValid cs | _ \<Rightarrow> False)
      else escapesValid cs)"

definition queryValid :: "string \<Rightarrow> bool" where
  "queryValid q \<longleftrightarrow> CHR '';'' \<notin> set q \<and> escapesValid q"

definition candidateHeaderDigest :: "provider_env \<Rightarrow> header \<Rightarrow> string option" where
  "candidateHeaderDigest env h =
     (let names = sort (map (\<lambda>(name, _). CanonicalHeaderKey name) h);
          canonical = map (\<lambda>name. (name, headerValues h name)) (remdups names)
      in FramedSHA256Hex (pe_crypto env) (''cq/candidate-provider-headers/v1'' @ [NUL]) [pe_headers env canonical])"

definition digestBytesForCandidateBroker :: "provider_env \<Rightarrow> string \<Rightarrow> string" where
  "digestBytesForCandidateBroker env v = hexEncode (cy_sha256 (pe_crypto env) v)"

section \<open>The broker\<close>

datatype capability_state = CapabilityIssued | CapabilityConsumed | CapabilityTerminal

record broker_config =
  bc_run :: string
  bc_source :: string
  bc_scanner :: echo_scanner
  bc_origin_id :: string
  bc_origin :: string
  bc_bearer :: string
  bc_key :: string

record candidate_broker = broker_config +
  bk_store :: candidate_store
  bk_states :: "string \<Rightarrow> capability_state option"

text \<open>What the broker asks of a parsed URL.\<close>

record parsed_url =
  pu_scheme :: string
  pu_host :: string
  pu_user :: bool
  pu_query :: string
  pu_fragment :: string

definition recoverRecord ::
  "(string \<Rightarrow> capability_state option) \<Rightarrow> broker_record \<Rightarrow> string + (string \<Rightarrow> capability_state option)" where
  "recoverRecord states r =
     (if br_capability r = [] then Inr states
      else if \<not> lowerHexDigest (br_capability r) then Inl ''candidate capability journal digest invalid''
      else (let state = states (br_capability r)
        in if br_kind r = ''capability_issued'' then
             (if state \<noteq> None \<or> br_payload r \<noteq> br_capability r
              then Inl ''candidate capability issued journal invalid''
              else Inr (states(br_capability r \<mapsto> CapabilityIssued)))
           else if br_kind r = ''capability_consumed'' then
             (if state \<noteq> Some CapabilityIssued \<or> br_payload r \<noteq> br_capability r
              then Inl ''candidate capability consumed journal invalid''
              else Inr (states(br_capability r \<mapsto> CapabilityConsumed)))
           else if br_kind r = ''capability_terminal'' then
             (if state \<noteq> Some CapabilityConsumed then Inl ''candidate capability terminal journal invalid''
              else Inr (states(br_capability r \<mapsto> CapabilityTerminal)))
           else Inl ''candidate capability journal kind invalid''))"

definition recoverStates ::
  "broker_record list \<Rightarrow> string + (string \<Rightarrow> capability_state option)" where
  "recoverStates rs = foldE recoverRecord (\<lambda>_. None) rs"

definition NewCandidateBroker ::
  "(string \<Rightarrow> parsed_url option) \<Rightarrow> broker_config \<Rightarrow> candidate_store \<Rightarrow> string + candidate_broker" where
  "NewCandidateBroker parse cfg s =
     (if bc_run cfg = [] \<or> \<not> lowerHexDigest (bc_source cfg) \<or> bc_origin_id cfg = [] \<or> bc_origin cfg = [] \<or>
         bc_bearer cfg = [] \<or> length (bc_key cfg) \<noteq> sha256Bytes
      then Inl ''candidate provider broker authority unavailable''
      else case parse (bc_origin cfg) of
        None \<Rightarrow> Inl ''candidate provider origin invalid''
      | Some url \<Rightarrow>
          if pu_scheme url \<noteq> ''https'' \<or> pu_host url = [] \<or> pu_user url \<or> pu_query url \<noteq> [] \<or> pu_fragment url \<noteq> []
          then Inl ''candidate provider origin invalid''
          else andThen (recoverStates (JournalRecords s (bc_run cfg))) (\<lambda>states.
            Inr (broker_config.extend cfg \<lparr>bk_store = s, bk_states = states\<rparr>)))"

section \<open>Capabilities\<close>

definition signCapability :: "provider_env \<Rightarrow> candidate_broker \<Rightarrow> request_capability \<Rightarrow> string" where
  "signCapability env b cap =
     (case FramedHMACSHA256Hex (pe_crypto env) (bc_key b)
         (''cq/candidate-provider-capability-signature/v1'' @ [NUL])
         [pe_capability env (cap\<lparr>cp_signature := [], cp_digest := []\<rparr>)] of
        None \<Rightarrow> [] | Some mac \<Rightarrow> mac)"

definition candidateCapabilityDigest :: "provider_env \<Rightarrow> request_capability \<Rightarrow> string option" where
  "candidateCapabilityDigest env cap =
     FramedSHA256Hex (pe_crypto env) (''cq/candidate-provider-capability/v1'' @ [NUL])
       [pe_capability env (cap\<lparr>cp_digest := []\<rparr>)]"

definition validateAcquire :: "int \<Rightarrow> candidate_broker \<Rightarrow> capability_acquire \<Rightarrow> string + unit" where
  "validateAcquire now b a =
     (if ac_schema a \<noteq> 1 \<or> ac_request a = [] \<or> \<not> validateAuthorityEntryName (''request-'' @ ac_request a) \<or>
         (ac_protocol a \<noteq> ''http'' \<and> ac_protocol a \<noteq> ''sse'' \<and> ac_protocol a \<noteq> ''websocket'') \<or>
         ac_origin a \<noteq> bc_origin_id b \<or> ac_method a = [] \<or> \<not> hasPrefix ''/'' (ac_route a) \<or>
         hasPrefix ''//'' (ac_route a) \<or> ac_body_limit a \<le> 0 \<or> ac_response_limit a \<le> 0 \<or>
         ac_body_limit a > 16 * 2 ^ 20 \<or> ac_response_limit a > int credentialEchoRepresentationLimit \<or>
         \<not> lowerHexDigest (ac_body_digest a) \<or> \<not> lowerHexDigest (ac_budget a) \<or> ac_account a = [] \<or>
         ac_revision a = [] \<or> ac_deadline a \<le> now
      then Inl ''invalid candidate provider capability request''
      else if list_ex (\<lambda>c. c \<in> set [CHR '' '', CHR 0x09, CHR 0x0D, CHR 0x0A]) (ac_method a)
      then Inl ''invalid candidate provider method''
      else if \<not> queryValid (ac_query a) then Inl ''invalid candidate provider query''
      else if list_ex (\<lambda>(name, _). CanonicalHeaderKey name = ''Authorization'' \<or>
          CanonicalHeaderKey name = ''X-Api-Key'' \<or> CanonicalHeaderKey name = ''Chatgpt-Account-Id'')
          (headerOf (ac_headers a))
      then Inl ''candidate supplied provider authority header''
      else Inr ())"

definition verifyCapability :: "provider_env \<Rightarrow> int \<Rightarrow> candidate_broker \<Rightarrow> request_capability \<Rightarrow> string + unit" where
  "verifyCapability env now b cap =
     (if ac_schema cap \<noteq> 1 \<or> \<not> lowerHexDigest (cp_digest cap) \<or> \<not> lowerHexDigest (cp_header_digest cap) \<or>
         \<not> lowerHexDigest (ac_body_digest cap) \<or> \<not> lowerHexDigest (ac_budget cap) \<or>
         ac_origin cap \<noteq> bc_origin_id b \<or> ac_deadline cap \<le> now
      then Inl ''candidate provider capability invalid''
      else if candidateHeaderDigest env (headerOf (ac_headers cap)) \<noteq> Some (cp_header_digest cap)
      then Inl ''candidate provider capability headers invalid''
      else if cp_signature cap \<noteq> signCapability env b cap
      then Inl ''candidate provider capability signature invalid''
      else if candidateCapabilityDigest env cap \<noteq> Some (cp_digest cap)
      then Inl ''candidate provider capability digest invalid''
      else Inr ())"

text \<open>
  A capability before its journal record: \<open>nonce\<close> is what the random source yields, \<open>None\<close> when
  reading it fails.
\<close>

definition newCapability ::
  "provider_env \<Rightarrow> candidate_broker \<Rightarrow> string option \<Rightarrow> capability_acquire \<Rightarrow> string + request_capability" where
  "newCapability env b nonce a =
     (case nonce of
        None \<Rightarrow> Inl ''random''
      | Some nonceBytes \<Rightarrow>
          (case candidateHeaderDigest env (headerOf (ac_headers a)) of
             None \<Rightarrow> Inl ''digest''
           | Some headerDigest \<Rightarrow>
               (let cap = capability_acquire.extend (a\<lparr>ac_schema := 1\<rparr>)
                      (request_capability.fields headerDigest (hexEncode nonceBytes) [] []);
                    cap = cap\<lparr>cp_signature := signCapability env b cap\<rparr>
                in case candidateCapabilityDigest env cap of
                     None \<Rightarrow> Inl ''digest''
                   | Some digest \<Rightarrow> Inr (cap\<lparr>cp_digest := digest\<rparr>))))"

definition capabilityRecord :: "candidate_broker \<Rightarrow> string \<Rightarrow> string \<Rightarrow> string \<Rightarrow> broker_record" where
  "capabilityRecord b digest kind payload =
     \<lparr>br_schema = 1, br_run = bc_run b, br_source = bc_source b, br_capability = digest, br_sequence = 0,
      br_kind = kind, br_payload = payload, br_previous = [], br_mac = []\<rparr>"

text \<open>The hook says at which phases it lets the operation go on.\<close>

definition Acquire ::
  "provider_env \<Rightarrow> (string \<Rightarrow> bool) \<Rightarrow> publish_fault \<Rightarrow> int \<Rightarrow> string option \<Rightarrow> capability_acquire \<Rightarrow>
   candidate_broker \<Rightarrow> broker_directory \<Rightarrow> (string + request_capability) \<times> candidate_broker \<times> broker_directory" where
  "Acquire env hook fault now nonce a b d =
     (case andThen (validateAcquire now b a) (\<lambda>_. newCapability env b nonce a) of
        Inl e \<Rightarrow> (Inl e, b, d)
      | Inr cap \<Rightarrow>
          if bk_states b (cp_digest cap) \<noteq> None then (Inl ''candidate capability collision'', b, d)
          else case AppendJournal (pe_store env) fault (bk_store b) d
              (capabilityRecord b (cp_digest cap) ''capability_issued'' (cp_digest cap)) of
            (Inl e, s, d) \<Rightarrow> (Inl e, b\<lparr>bk_store := s\<rparr>, d)
          | (Inr _, s, d) \<Rightarrow>
              (let b = b\<lparr>bk_store := s, bk_states := (bk_states b)(cp_digest cap \<mapsto> CapabilityIssued)\<rparr>
               in if hook ''issued_durable'' then (Inr cap, b, d) else (Inl ''hook'', b, d)))"

section \<open>Scanning a response\<close>

definition validCandidateLogicalKind :: "string \<Rightarrow> logical_kind \<Rightarrow> bool" where
  "validCandidateLogicalKind protocol kind \<longleftrightarrow>
     (if protocol = ''sse'' then kind = CandidateLogicalSSE
      else if protocol = ''websocket'' then
        kind \<in> {CandidateLogicalWebSocketText, CandidateLogicalWebSocketBinary, CandidateLogicalWebSocketPing,
          CandidateLogicalWebSocketPong, CandidateLogicalWebSocketClose, CandidateLogicalWebSocketHandshake}
      else False)"

text \<open>The frames as one stream, the last of them final; \<open>ev\<close> is the evidence so far.\<close>

fun scanLogical ::
  "hashing \<Rightarrow> echo_scanner \<Rightarrow> string \<Rightarrow> echo_stream \<Rightarrow> echo_evidence \<Rightarrow> logical_frame list \<Rightarrow> echo_evidence" where
  "scanLogical cy s protocol st ev [] = ev"
| "scanLogical cy s protocol st ev (f # frames) =
     (if \<not> validCandidateLogicalKind protocol (lf_kind f)
      then evidence cy s CredentialEchoIndeterminate (ev_inspected ev)
      else case Push cy s st (lf_payload f) (frames = []) of
        (st, _, ev, _) \<Rightarrow>
          if ev_outcome ev \<noteq> Some CredentialEchoClear then ev else scanLogical cy s protocol st ev frames)"

definition responseEvidence ::
  "provider_env \<Rightarrow> echo_scanner \<Rightarrow> string \<Rightarrow> upstream_response \<Rightarrow> echo_evidence" where
  "responseEvidence env s protocol r =
     (let cy = pe_crypto env;
          ev = ScanHeaders cy s (us_headers r);
          ev = (if ev_outcome ev = Some CredentialEchoClear
            then ScanRepresentation cy (pe_codecs env) s (us_body r)
              (if us_encoding r = [] then toLower (trimSpace (headerGet (us_headers r) ''Content-Encoding''))
               else us_encoding r)
            else ev)
      in if ev_outcome ev = Some CredentialEchoClear \<and> us_logical r \<noteq> []
         then scanLogical cy s protocol NewStream ev (us_logical r) else ev)"

definition scanResponse ::
  "provider_env \<Rightarrow> candidate_broker \<Rightarrow> request_capability \<Rightarrow> upstream_response option \<Rightarrow> terminal_receipt" where
  "scanResponse env b cap response =
     (let cy = pe_crypto env; s = bc_scanner b;
          receipt = \<lparr>tr_schema = 1, tr_capability = cp_digest cap, tr_outcome = CandidateProviderFailed,
            tr_response_digest = [], tr_scan = [], tr_response = None\<rparr>
      in case response of
        None \<Rightarrow> receipt\<lparr>tr_scan := ev_digest (ScanRepresentation cy (pe_codecs env) s [] ''identity'')\<rparr>
      | Some r \<Rightarrow>
          (let total = int (length (us_body r)) + (\<Sum>frame \<leftarrow> us_logical r. int (length (lf_payload frame)))
           in if total > ac_response_limit cap \<or> us_status r < 100 \<or> us_status r > 599
              then receipt\<lparr>tr_outcome := CandidateProviderIndeterminate,
                tr_scan := ev_digest (evidence cy s CredentialEchoIndeterminate (of_int (max total 0)))\<rparr>
              else (let ev = responseEvidence env s (ac_protocol cap) r;
                  receipt = receipt\<lparr>tr_scan := ev_digest ev\<rparr>
                in if ev_outcome ev = Some CredentialEchoMatch
                   then receipt\<lparr>tr_outcome := CandidateProviderEchoBlocked\<rparr>
                   else if ev_outcome ev \<noteq> Some CredentialEchoClear
                   then receipt\<lparr>tr_outcome := CandidateProviderIndeterminate\<rparr>
                   else case FramedSHA256Hex cy (''cq/candidate-visible-provider-response/v1'' @ [NUL]) [pe_visible env r] of
                     None \<Rightarrow> receipt\<lparr>tr_outcome := CandidateProviderIndeterminate\<rparr>
                   | Some digest \<Rightarrow> receipt\<lparr>tr_outcome := CandidateProviderDelivered,
                       tr_response_digest := digest, tr_response := Some r\<rparr>)))"

section \<open>Exchanging\<close>

text \<open>
  The result of an exchange and the requests it has sent to the provider. \<open>ExchangePanicked\<close> is the
  run-time panic of setting a header in a \<open>nil\<close> map.
\<close>

datatype exchange_result = ExchangeError string | ExchangePanicked | ExchangeReceipt terminal_receipt

record exchange_faults =
  xf_consumed :: publish_fault
  xf_evidence :: publish_fault
  xf_terminal :: publish_fault

definition consumeCapability ::
  "provider_env \<Rightarrow> (string \<Rightarrow> bool) \<Rightarrow> publish_fault \<Rightarrow> int \<Rightarrow> request_capability \<Rightarrow> string \<Rightarrow>
   candidate_broker \<Rightarrow> broker_directory \<Rightarrow> (string + unit) \<times> candidate_broker \<times> broker_directory" where
  "consumeCapability env hook fault now cap body b d =
     (case verifyCapability env now b cap of
        Inl e \<Rightarrow> (Inl e, b, d)
      | Inr _ \<Rightarrow>
          (case bk_states b (cp_digest cap) of
             None \<Rightarrow> (Inl ''candidate capability was not issued'', b, d)
           | Some CapabilityConsumed \<Rightarrow> (Inl ''candidate provider capability outcome indeterminate'', b, d)
           | Some CapabilityTerminal \<Rightarrow> (Inl ''candidate provider capability already consumed'', b, d)
           | Some CapabilityIssued \<Rightarrow>
               if int (length body) > ac_body_limit cap \<or> digestBytesForCandidateBroker env body \<noteq> ac_body_digest cap
               then (Inl ''candidate provider request body mismatch'', b, d)
               else case AppendJournal (pe_store env) fault (bk_store b) d
                   (capabilityRecord b (cp_digest cap) ''capability_consumed'' (cp_digest cap)) of
                 (Inl e, s, d) \<Rightarrow> (Inl e, b\<lparr>bk_store := s\<rparr>, d)
               | (Inr _, s, d) \<Rightarrow>
                   (let b = b\<lparr>bk_store := s, bk_states := (bk_states b)(cp_digest cap \<mapsto> CapabilityConsumed)\<rparr>
                    in if hook ''consumed_durable'' then (Inr (), b, d) else (Inl ''hook'', b, d))))"

definition upstreamRequest :: "candidate_broker \<Rightarrow> request_capability \<Rightarrow> header \<Rightarrow> string \<Rightarrow> upstream_request" where
  "upstreamRequest b cap headers body =
     \<lparr>ur_origin = bc_origin b, ur_bearer = bc_bearer b, ur_method = ac_method cap, ur_route = ac_route cap,
      ur_query = ac_query cap, ur_headers = headerSet headers ''Authorization'' (''Bearer '' @ bc_bearer b),
      ur_body = body, ur_protocol = ac_protocol cap\<rparr>"

definition settleCapability ::
  "provider_env \<Rightarrow> (string \<Rightarrow> bool) \<Rightarrow> publish_fault \<Rightarrow> publish_fault \<Rightarrow> request_capability \<Rightarrow> terminal_receipt \<Rightarrow>
   candidate_broker \<Rightarrow> broker_directory \<Rightarrow> exchange_result \<times> candidate_broker \<times> broker_directory" where
  "settleCapability env hook evidenceFault terminalFault cap receipt b d =
     (case PublishScanEvidence (pe_store env) evidenceFault (bk_store b) d
         \<lparr>se_schema = 1, se_run = bc_run b, se_source = bc_source b, se_scan = tr_scan receipt,
          se_echoes = (if tr_outcome receipt = CandidateProviderEchoBlocked then 1 else 0), se_mac = []\<rparr> of
        (Inl e, s, d) \<Rightarrow> (ExchangeError e, b\<lparr>bk_store := s\<rparr>, d)
      | (Inr _, s, d) \<Rightarrow>
          (let b = b\<lparr>bk_store := s\<rparr>
           in if \<not> hook ''scan_evidence_durable'' then (ExchangeError ''hook'', b, d)
              else case FramedSHA256Hex (pe_crypto env) (''cq/candidate-provider-terminal/v1'' @ [NUL])
                  [pe_receipt env receipt] of
                None \<Rightarrow> (ExchangeError ''digest'', b, d)
              | Some terminalDigest \<Rightarrow>
                  (case AppendJournal (pe_store env) terminalFault (bk_store b) d
                      (capabilityRecord b (cp_digest cap) ''capability_terminal'' terminalDigest) of
                     (Inl e, s, d) \<Rightarrow> (ExchangeError e, b\<lparr>bk_store := s\<rparr>, d)
                   | (Inr _, s, d) \<Rightarrow>
                       (let b = b\<lparr>bk_store := s, bk_states := (bk_states b)(cp_digest cap \<mapsto> CapabilityTerminal)\<rparr>
                        in if hook ''terminal_durable'' then (ExchangeReceipt receipt, b, d)
                           else (ExchangeError ''hook'', b, d)))))"

definition Exchange ::
  "provider_env \<Rightarrow> (string \<Rightarrow> bool) \<Rightarrow> exchange_faults \<Rightarrow> (upstream_request \<Rightarrow> upstream_response option) \<Rightarrow>
   int \<Rightarrow> request_capability \<Rightarrow> string \<Rightarrow> candidate_broker \<Rightarrow> broker_directory \<Rightarrow>
   exchange_result \<times> upstream_request list \<times> candidate_broker \<times> broker_directory" where
  "Exchange env hook faults transport now cap body b d =
     (case consumeCapability env hook (xf_consumed faults) now cap body b d of
        (Inl e, b, d) \<Rightarrow> (ExchangeError e, [], b, d)
      | (Inr _, b, d) \<Rightarrow>
          (case ac_headers cap of
             None \<Rightarrow> (ExchangePanicked, [], b, d)
           | Some headers \<Rightarrow>
               (let request = upstreamRequest b cap headers body;
                    receipt = scanResponse env b cap (transport request)
                in case settleCapability env hook (xf_evidence faults) (xf_terminal faults) cap receipt b d of
                  (result, b, d) \<Rightarrow> (result, [request], b, d))))"

section \<open>The broker and its directory over time\<close>

text \<open>
  \<open>bw_calls\<close> records the capabilities whose request has reached the provider, the latest first. The
  process may die at any time, also inside of an operation: then the operation is one whose later
  publications or hooks fail, and the crash follows it.
\<close>

record broker_world =
  bw_directory :: broker_directory
  bw_broker :: "candidate_broker option"
  bw_calls :: "(string \<times> upstream_request) list"

inductive broker_step ::
  "provider_env \<Rightarrow> (string \<Rightarrow> parsed_url option) \<Rightarrow> broker_config \<Rightarrow> int \<Rightarrow> int \<Rightarrow>
   broker_world \<Rightarrow> broker_world \<Rightarrow> bool"
  for env parse cfg runs records where
  open_step:
    "bw_broker w = None \<Longrightarrow>
     OpenCandidateBrokerStore (pe_store env) (bw_directory w) key runs records = Some (Inr s) \<Longrightarrow>
     NewCandidateBroker parse cfg s = Inr b \<Longrightarrow>
     broker_step env parse cfg runs records w (w\<lparr>bw_broker := Some b\<rparr>)"
| source_step:
    "bw_broker w = Some b \<Longrightarrow>
     PublishSource (pe_store env) fault (bk_store b) (bw_directory w) source = (r, s, d) \<Longrightarrow>
     broker_step env parse cfg runs records w (w\<lparr>bw_broker := Some (b\<lparr>bk_store := s\<rparr>), bw_directory := d\<rparr>)"
| other_step:
    "bw_broker w = Some b \<Longrightarrow> br_run record \<noteq> bc_run cfg \<Longrightarrow>
     AppendJournal (pe_store env) fault (bk_store b) (bw_directory w) record = (r, s, d) \<Longrightarrow>
     broker_step env parse cfg runs records w (w\<lparr>bw_broker := Some (b\<lparr>bk_store := s\<rparr>), bw_directory := d\<rparr>)"
| acquire_step:
    "bw_broker w = Some b \<Longrightarrow> Acquire env hook fault now nonce a b (bw_directory w) = (r, b', d) \<Longrightarrow>
     broker_step env parse cfg runs records w (w\<lparr>bw_broker := Some b', bw_directory := d\<rparr>)"
| exchange_step:
    "bw_broker w = Some b \<Longrightarrow>
     Exchange env hook faults transport now cap body b (bw_directory w) = (r, requests, b', d) \<Longrightarrow>
     broker_step env parse cfg runs records w
       (w\<lparr>bw_broker := Some b', bw_directory := d,
          bw_calls := map (\<lambda>q. (cp_digest cap, q)) requests @ bw_calls w\<rparr>)"
| crash_step:
    "broker_step env parse cfg runs records w
       (w\<lparr>bw_broker := None, bw_directory := crashDirectory lost (bw_directory w)\<rparr>)"

definition broker_initial :: "broker_world \<Rightarrow> bool" where
  "broker_initial w \<longleftrightarrow> w = \<lparr>bw_directory = emptyDirectory, bw_broker = None, bw_calls = []\<rparr>"

section \<open>What is delivered\<close>










lemma consumeCapability_cases:
  assumes "consumeCapability env hook fault now cap body b d = (r, b1, d1)"
  obtains (refused) e where "r = Inl e" "b1 = b" "d1 = d"
  | (failed) e s where "r = Inl e" "b1 = b\<lparr>bk_store := s\<rparr>"
      "AppendJournal (pe_store env) fault (bk_store b) d
        (capabilityRecord b (cp_digest cap) ''capability_consumed'' (cp_digest cap)) = (Inl e, s, d1)"
  | (consumed) x s where "r = (if hook ''consumed_durable'' then Inr () else Inl ''hook'')"
      "b1 = b\<lparr>bk_store := s, bk_states := (bk_states b)(cp_digest cap \<mapsto> CapabilityConsumed)\<rparr>"
      "AppendJournal (pe_store env) fault (bk_store b) d
        (capabilityRecord b (cp_digest cap) ''capability_consumed'' (cp_digest cap)) = (Inr x, s, d1)"
      "bk_states b (cp_digest cap) = Some CapabilityIssued" "verifyCapability env now b cap = Inr ()"
proof (cases "verifyCapability env now b cap")
  case (Inl e)
  with assms have "r = Inl e" "b1 = b" "d1 = d" by (simp_all add: consumeCapability_def)
  then show thesis by (rule refused)
next
  case (Inr u)
  with assms that show thesis unfolding consumeCapability_def Let_def
    by (auto split: sum.splits prod.splits option.splits capability_state.splits if_splits)
qed

lemma Exchange_cases:
  assumes "Exchange env hook faults transport now cap body b d = (result, requests, b', d')"
  obtains (stopped) r where "consumeCapability env hook (xf_consumed faults) now cap body b d = (r, b', d')"
      "requests = []" "(\<exists>e. r = Inl e \<and> result = ExchangeError e) \<or> (r = Inr () \<and> result = ExchangePanicked)"
  | (sent) b1 d1 headers where "consumeCapability env hook (xf_consumed faults) now cap body b d = (Inr (), b1, d1)"
      "requests = [upstreamRequest b1 cap headers body]" "ac_headers cap = Some headers"
      "settleCapability env hook (xf_evidence faults) (xf_terminal faults) cap
        (scanResponse env b1 cap (transport (upstreamRequest b1 cap headers body))) b1 d1 = (result, b', d')"
  using assms unfolding Exchange_def Let_def by (auto split: sum.splits prod.splits option.splits)


section \<open>At most one call\<close>

text \<open>The journal record that says a capability of the run has been consumed is durable.\<close>

definition consumedDurably :: "provider_env \<Rightarrow> string \<Rightarrow> broker_directory \<Rightarrow> string \<Rightarrow> bool" where
  "consumedDurably env run d digest \<longleftrightarrow>
     (\<exists>name r. durable d name (RecordObject r) \<and> hasPrefix ''candidate-journal-'' name \<and>
        identityDigest (pe_store env) (RecordObject r) \<noteq> None \<and> br_run r = run \<and>
        br_kind r = ''capability_consumed'' \<and> br_capability r = digest)"

definition spent :: "capability_state option \<Rightarrow> bool" where
  "spent state \<longleftrightarrow> state = Some CapabilityConsumed \<or> state = Some CapabilityTerminal"

definition broker_invariant :: "provider_env \<Rightarrow> broker_config \<Rightarrow> broker_world \<Rightarrow> bool" where
  "broker_invariant env cfg w \<longleftrightarrow>
     distinct (map fst (bw_calls w)) \<and>
     (\<forall>digest \<in> fst ` set (bw_calls w). digest \<noteq> [] \<and> consumedDurably env (bc_run cfg) (bw_directory w) digest) \<and>
     (\<forall>b. bw_broker w = Some b \<longrightarrow> bc_run b = bc_run cfg \<and>
        (\<forall>digest \<in> fst ` set (bw_calls w). spent (bk_states b digest)))"

text \<open>Publications keep what is durable.\<close>

lemma AppendJournal_durable:
  assumes "AppendJournal env fault s d r = (result, s', d')" and "durable d name body"
  shows "durable d' name body"
  using assms publish_durable_keeps [OF assms(2)]
  by (auto simp: AppendJournal_def Let_def split: option.splits if_splits prod.splits bool.splits) (metis fst_conv)+

lemma PublishSource_durable:
  assumes "PublishSource env fault s d source = (result, s', d')" and "durable d name body"
  shows "durable d' name body"
  using assms publish_durable_keeps [OF assms(2)]
  by (auto simp: PublishSource_def Let_def split: option.splits if_splits prod.splits bool.splits sum.splits)
    (metis fst_conv)+

lemma PublishScanEvidence_durable:
  assumes "PublishScanEvidence env fault s d e = (result, s', d')" and "durable d name body"
  shows "durable d' name body"
  using assms publish_durable_keeps [OF assms(2)]
  by (auto simp: PublishScanEvidence_def Let_def split: option.splits if_splits prod.splits bool.splits)
    (metis fst_conv)+

lemma hasPrefix_journalName: "hasPrefix ''candidate-journal-'' (journalName run n)"
  by (simp add: hasPrefix_def journalName_def Let_def)

lemma AppendJournal_published:
  assumes "AppendJournal env fault s d r = (Inr x, s', d')"
  obtains r' where "PublishImmutable fault d (journalName (br_run r) (unat (br_sequence r'))) (RecordObject r') = (d', True)"
    "identityDigest env (RecordObject r') = Some x"
    "br_run r' = br_run r" "br_kind r' = br_kind r" "br_capability r' = br_capability r"
proof -
  let ?current = "listOf (cb_journal s) (br_run r)"
  let ?r = "r\<lparr>br_sequence := of_nat (length ?current + 1),
     br_previous := (if ?current \<noteq> [] then sr_digest (last ?current) else [])\<rparr>"
  let ?r' = "?r\<lparr>br_mac := candidateRecordMAC env (cb_key s) ?r\<rparr>"
  have "PublishImmutable fault d (journalName (br_run r) (unat (br_sequence ?r'))) (RecordObject ?r') = (d', True)
    \<and> identityDigest env (RecordObject ?r') = Some x"
    using assms unfolding AppendJournal_def Let_def
    by (simp split: option.splits if_splits prod.splits bool.splits)
  with that [of ?r'] show thesis by simp
qed

lemma AppendJournal_consumed:
  assumes "AppendJournal (pe_store env) fault s d (capabilityRecord b digest ''capability_consumed'' payload) =
      (Inr x, s', d')"
  shows "consumedDurably env (bc_run b) d' digest"
proof -
  obtain r where r: "PublishImmutable fault d (journalName (bc_run b) (unat (br_sequence r))) (RecordObject r) = (d', True)"
    "identityDigest (pe_store env) (RecordObject r) = Some x"
    "br_run r = bc_run b" "br_kind r = ''capability_consumed''" "br_capability r = digest"
    using AppendJournal_published [OF assms] by (auto simp: capabilityRecord_def)
  with publish_ok_durable [OF r(1)] hasPrefix_journalName show ?thesis
    unfolding consumedDurably_def by blast
qed

lemma consumedDurably_keeps:
  assumes "consumedDurably env run d digest" and "\<And>name r. durable d name (RecordObject r) \<Longrightarrow> durable d' name (RecordObject r)"
  shows "consumedDurably env run d' digest"
  using assms unfolding consumedDurably_def by blast

text \<open>What recovery makes of a consumed capability.\<close>

lemma recoverRecord_spent:
  assumes "recoverRecord states r = Inr states'"
  shows "spent (states digest) \<Longrightarrow> spent (states' digest)"
    and "br_kind r = ''capability_consumed'' \<Longrightarrow> br_capability r = digest \<Longrightarrow> digest \<noteq> [] \<Longrightarrow> spent (states' digest)"
  using assms by (auto simp: recoverRecord_def spent_def Let_def split: if_splits)

lemma recoverStates_spent:
  assumes "foldE recoverRecord states rs = Inr states'"
    and "spent (states digest) \<or> (\<exists>r \<in> set rs. br_kind r = ''capability_consumed'' \<and> br_capability r = digest \<and> digest \<noteq> [])"
  shows "spent (states' digest)"
  using assms
proof (induction rs arbitrary: states)
  case (Cons r rs)
  then obtain states1 where step: "recoverRecord states r = Inr states1" "foldE recoverRecord states1 rs = Inr states'"
    by (auto simp: andThen_Inr_iff)
  show ?case
    using Cons.IH [OF step(2)] recoverRecord_spent [OF step(1), of digest] Cons.prems(2) by auto
qed simp

lemma reopened_spent:
  assumes "OpenCandidateBrokerStore (pe_store env) d key runs records = Some (Inr s)"
    and "NewCandidateBroker parse cfg s = Inr b" and "consumedDurably env (bc_run cfg) d digest" and "digest \<noteq> []"
  shows "spent (bk_states b digest)"
proof -
  obtain name r where r: "map_of (ad_objects d) name = Some (RecordObject r)" "hasPrefix ''candidate-journal-'' name"
    "identityDigest (pe_store env) (RecordObject r) \<noteq> None" "br_run r = bc_run cfg"
    "br_kind r = ''capability_consumed''" "br_capability r = digest"
    using assms(3) by (auto simp: consumedDurably_def durable_def)
  then obtain x where x: "entryRecord (pe_store env) d name = Some x" "sr_record x = r"
    by (auto simp: entryRecord_def)
  moreover have "name \<in> set (map fst (ad_objects d))" using map_of_SomeD [OF r(1)] by force
  ultimately have "x \<in> set (entriesOf (pe_store env) d (map fst (ad_objects d)) (bc_run cfg))"
    using r(4) by (auto simp: entriesOf_def set_map_filter)
  then have "x \<in> set (listOf (cb_journal s) (bc_run cfg))"
    using mset_eq_setD [OF opened_journal(1) [OF assms(1), of "bc_run cfg"]] by simp
  then have mem: "r \<in> set (JournalRecords s (bc_run cfg))" using x(2) by (auto simp: JournalRecords_def)
  obtain states where "recoverStates (JournalRecords s (bc_run cfg)) = Inr states" "bk_states b = states"
    using assms(2) by (auto simp: NewCandidateBroker_def andThen_Inr_iff broker_config.defs split: if_splits option.splits)
  with recoverStates_spent [of "\<lambda>_. None" "JournalRecords s (bc_run cfg)" states digest] mem r(5,6) assms(4) show ?thesis
    by (auto simp: recoverStates_def)
qed

lemma settleCapability_facts:
  assumes "settleCapability env hook f1 f2 cap receipt b d = (result, b', d')"
  shows "bc_run b' = bc_run b" and "spent (bk_states b digest) \<Longrightarrow> spent (bk_states b' digest)"
    and "durable d name body \<Longrightarrow> durable d' name body"
proof -
  obtain r1 s1 d1 where evidence: "PublishScanEvidence (pe_store env) f1 (bk_store b) d
      \<lparr>se_schema = 1, se_run = bc_run b, se_source = bc_source b, se_scan = tr_scan receipt,
       se_echoes = (if tr_outcome receipt = CandidateProviderEchoBlocked then 1 else 0), se_mac = []\<rparr> = (r1, s1, d1)"
    by (metis prod.exhaust)
  note settled = assms [unfolded settleCapability_def evidence Let_def]
  show "bc_run b' = bc_run b" "spent (bk_states b digest) \<Longrightarrow> spent (bk_states b' digest)"
    using settled by (auto simp: spent_def split: sum.splits option.splits prod.splits if_splits)
  assume "durable d name body"
  from PublishScanEvidence_durable [OF evidence this] settled show "durable d' name body"
    by (auto split: sum.splits option.splits prod.splits if_splits dest: AppendJournal_durable)
qed

lemma consumeCapability_facts:
  assumes "consumeCapability env hook fault now cap body b d = (r, b', d')"
  shows "bc_run b' = bc_run b" and "spent (bk_states b digest) \<Longrightarrow> spent (bk_states b' digest)"
    and "durable d name obj \<Longrightarrow> durable d' name obj"
    and "r = Inr () \<Longrightarrow> bk_states b (cp_digest cap) = Some CapabilityIssued \<and> cp_digest cap \<noteq> [] \<and>
      spent (bk_states b' (cp_digest cap)) \<and> consumedDurably env (bc_run b) d' (cp_digest cap)"
proof -
  show "bc_run b' = bc_run b" "spent (bk_states b digest) \<Longrightarrow> spent (bk_states b' digest)"
    using assms by (cases rule: consumeCapability_cases; auto simp: spent_def)+
  show "durable d name obj \<Longrightarrow> durable d' name obj"
    using assms by (cases rule: consumeCapability_cases) (auto dest: AppendJournal_durable)
  assume "r = Inr ()"
  with assms show "bk_states b (cp_digest cap) = Some CapabilityIssued \<and> cp_digest cap \<noteq> [] \<and>
      spent (bk_states b' (cp_digest cap)) \<and> consumedDurably env (bc_run b) d' (cp_digest cap)"
  proof (cases rule: consumeCapability_cases)
    case (consumed x s)
    have "lowerHexDigest (cp_digest cap)"
      using consumed(5) by (auto simp: verifyCapability_def split: if_splits)
    then have "cp_digest cap \<noteq> []" by (auto simp: lowerHexDigest_def)
    with consumed AppendJournal_consumed [OF consumed(3)] show ?thesis by (auto simp: spent_def)
  qed (use \<open>r = Inr ()\<close> in auto)
qed

lemma Exchange_facts:
  assumes "Exchange env hook faults transport now cap body b d = (result, requests, b', d')"
  shows "bc_run b' = bc_run b \<and> (\<forall>digest. spent (bk_states b digest) \<longrightarrow> spent (bk_states b' digest)) \<and>
    (\<forall>name obj. durable d name obj \<longrightarrow> durable d' name obj) \<and>
    (requests = [] \<or> (\<exists>q. requests = [q] \<and> bk_states b (cp_digest cap) = Some CapabilityIssued \<and>
      cp_digest cap \<noteq> [] \<and> spent (bk_states b' (cp_digest cap)) \<and> consumedDurably env (bc_run b) d' (cp_digest cap)))"
  using assms
proof (cases rule: Exchange_cases)
  case (stopped r)
  with consumeCapability_facts [OF stopped(1)] show ?thesis by blast
next
  case (sent b1 d1 headers)
  note c = consumeCapability_facts [OF sent(1)]
  note s = settleCapability_facts [OF sent(4)]
  have "bc_run b' = bc_run b" using c(1) s(1) by simp
  moreover have "consumedDurably env (bc_run b) d' (cp_digest cap)"
    using c(4) consumedDurably_keeps [OF _ s(3)] by blast
  ultimately show ?thesis using c(2,3) c(4) [OF refl] s(2,3) sent(2) by simp
qed

lemma Acquire_facts:
  assumes "Acquire env hook fault now nonce a b d = (result, b', d')"
  shows "bc_run b' = bc_run b" and "spent (bk_states b digest) \<Longrightarrow> spent (bk_states b' digest)"
    and "durable d name obj \<Longrightarrow> durable d' name obj"
proof -
  show "bc_run b' = bc_run b" "spent (bk_states b digest) \<Longrightarrow> spent (bk_states b' digest)"
    using assms unfolding Acquire_def Let_def
    by (auto simp: spent_def split: sum.splits prod.splits if_splits)
  show "durable d name obj \<Longrightarrow> durable d' name obj"
    using assms unfolding Acquire_def Let_def
    by (auto split: sum.splits prod.splits if_splits dest: AppendJournal_durable)
qed

lemma broker_invariant_update:
  assumes "broker_invariant env cfg w" and "bw_broker w = Some b"
    and "\<And>name obj. durable (bw_directory w) name obj \<Longrightarrow> durable d name obj"
    and "bc_run b' = bc_run b" and "\<And>digest. spent (bk_states b digest) \<Longrightarrow> spent (bk_states b' digest)"
  shows "broker_invariant env cfg (w\<lparr>bw_broker := Some b', bw_directory := d\<rparr>)"
  using assms consumedDurably_keeps [of env "bc_run cfg" "bw_directory w" _ d]
  by (auto simp: broker_invariant_def)

lemma broker_invariant_step:
  assumes "broker_step env parse cfg runs records w w'" and "broker_invariant env cfg w"
  shows "broker_invariant env cfg w'"
  using assms
proof cases
  case (open_step key s b)
  have "bc_run b = bc_run cfg"
    using open_step(4) by (auto simp: NewCandidateBroker_def andThen_Inr_iff broker_config.defs split: if_splits option.splits)
  with open_step assms(2) show ?thesis
    by (auto simp: broker_invariant_def intro: reopened_spent [OF open_step(3,4)])
next
  case (source_step b fault source r s d)
  show ?thesis unfolding source_step(1)
    by (rule broker_invariant_update [OF assms(2) source_step(2)])
      (auto intro: PublishSource_durable [OF source_step(3)])
next
  case (other_step b rec fault r s d)
  show ?thesis unfolding other_step(1)
    by (rule broker_invariant_update [OF assms(2) other_step(2)])
      (auto intro: AppendJournal_durable [OF other_step(4)])
next
  case (acquire_step b hook fault now nonce a r b' d)
  show ?thesis unfolding acquire_step(1)
    by (rule broker_invariant_update [OF assms(2) acquire_step(2)])
      (use Acquire_facts [OF acquire_step(3)] in auto)
next
  case (exchange_step b hook faults transport now cap body r requests b' d)
  note x = Exchange_facts [OF exchange_step(3)]
  have kept: "broker_invariant env cfg (w\<lparr>bw_broker := Some b', bw_directory := d\<rparr>)"
    by (rule broker_invariant_update [OF assms(2) exchange_step(2)]) (use x in auto)
  show ?thesis
  proof (cases "requests = []")
    case True
    with kept exchange_step(1) show ?thesis by (simp add: broker_invariant_def)
  next
    case False
    then obtain q where q: "requests = [q]" "bk_states b (cp_digest cap) = Some CapabilityIssued" "cp_digest cap \<noteq> []"
      "spent (bk_states b' (cp_digest cap))" "consumedDurably env (bc_run b) d (cp_digest cap)"
      using x by blast
    have "cp_digest cap \<notin> fst ` set (bw_calls w)"
      using assms(2) exchange_step(2) q(2) by (auto simp: broker_invariant_def spent_def)
    moreover have "bc_run b = bc_run cfg" using assms(2) exchange_step(2) by (auto simp: broker_invariant_def)
    ultimately show ?thesis using kept exchange_step(1) q by (simp add: broker_invariant_def)
  qed
next
  case (crash_step lost)
  with assms(2) consumedDurably_keeps [OF _ crash_durable_keeps] show ?thesis
    by (auto simp: broker_invariant_def)
qed

interpretation broker_runs: invariant broker_initial "broker_step env parse cfg runs records" "broker_invariant env cfg"
  for env parse cfg runs records
  by unfold_locales (auto intro: broker_invariant_step, simp add: broker_initial_def broker_invariant_def)

text \<open>
  C11. A capability reaches the provider at most once, whatever fails and however often the process
  dies and the store is opened again, and whatever its response was: no two requests sent are for
  the same capability, and every one sent has its consumption on disk.
\<close>

theorem capability_called_once:
  assumes "reachable broker_initial (broker_step env parse cfg runs records) w"
  shows "distinct (map fst (bw_calls w)) \<and>
    (\<forall>(digest, request) \<in> set (bw_calls w). consumedDurably env (bc_run cfg) (bw_directory w) digest)"
  using broker_runs.always [OF assms] by (auto simp: broker_invariant_def)



section \<open>An instance\<close>

definition sampleProvider :: provider_env where
  "sampleProvider = \<lparr>pe_store = sampleEnv, pe_codecs = \<lparr>cd_gunzip = \<lambda>_ _. None, cd_unzstd = \<lambda>_ _. None\<rparr>,
     pe_capability = \<lambda>_. [], pe_headers = \<lambda>_. [], pe_visible = \<lambda>_. [], pe_receipt = \<lambda>_. []\<rparr>"

definition sampleURL :: "string \<Rightarrow> parsed_url option" where
  "sampleURL _ = Some \<lparr>pu_scheme = ''https'', pu_host = ''p'', pu_user = False, pu_query = [], pu_fragment = []\<rparr>"

definition sampleConfig :: broker_config where
  "sampleConfig = \<lparr>bc_run = ''run'', bc_source = sampleDigest, bc_scanner = sampleScanner, bc_origin_id = ''o'',
     bc_origin = ''https://p'', bc_bearer = ''secret'', bc_key = sampleStoreKey\<rparr>"

definition sampleAcquire :: "header option \<Rightarrow> capability_acquire" where
  "sampleAcquire h = \<lparr>ac_schema = 1, ac_request = ''r'', ac_protocol = ''http'', ac_origin = ''o'', ac_method = ''POST'',
     ac_route = ''/v1'', ac_query = [], ac_headers = h, ac_body_digest = sampleDigest, ac_body_limit = 10,
     ac_response_limit = 10, ac_deadline = 100, ac_account = ''a'', ac_revision = ''1'', ac_budget = sampleDigest\<rparr>"

definition sampleMAC :: string where "sampleMAC = hexEncode (replicate 32 (CHR ''m''))"

definition sampleCapability :: "header option \<Rightarrow> request_capability" where
  "sampleCapability h = capability_acquire.extend (sampleAcquire h)
     (request_capability.fields sampleDigest [] sampleDigest sampleMAC)"

definition sampleSourceName :: string where
  "sampleSourceName = ''candidate-source-'' @ sampleDigest @ ''.json''"

definition sampleStored :: "u64 \<Rightarrow> string \<Rightarrow> string \<Rightarrow> stored_record" where
  "sampleStored n kind previous = \<lparr>sr_record = sampleRecord n kind previous, sr_digest = sampleDigest,
     sr_name = journalName ''run'' (unat n)\<rparr>"

definition sampleBroker :: "stored_record list \<Rightarrow> (string \<Rightarrow> capability_state option) \<Rightarrow> candidate_broker" where
  "sampleBroker rs states = broker_config.extend sampleConfig
     \<lparr>bk_store = emptyStore\<lparr>cb_sources := [(sampleDigest, \<lparr>ss_source = sampleSource, ss_name = sampleSourceName\<rparr>)],
        cb_journal := (if rs = [] then [] else [(''run'', rs)])\<rparr>, bk_states = states\<rparr>"

definition sampleObjects :: "stored_record list \<Rightarrow> broker_directory" where
  "sampleObjects rs = \<lparr>ad_objects = (sampleSourceName, SourceObject sampleSource) #
     map (\<lambda>x. (sr_name x, RecordObject (sr_record x))) rs, ad_unsynced = []\<rparr>"

definition issuedRecord :: stored_record where "issuedRecord = sampleStored 1 ''capability_issued'' []"
definition consumedRecord :: stored_record where "consumedRecord = sampleStored 2 ''capability_consumed'' sampleDigest"

definition issuedBroker :: candidate_broker where
  "issuedBroker = sampleBroker [issuedRecord] [sampleDigest \<mapsto> CapabilityIssued]"
definition consumedBroker :: candidate_broker where
  "consumedBroker = sampleBroker [issuedRecord, consumedRecord] [sampleDigest \<mapsto> CapabilityConsumed]"

lemma sample_domains:
  "FramedSHA256Hex sampleHashes (''cq/candidate-provider-headers/v1'' @ [NUL]) [[]] = Some sampleDigest"
  "FramedSHA256Hex sampleHashes (''cq/candidate-provider-capability/v1'' @ [NUL]) [[]] = Some sampleDigest"
  "FramedHMACSHA256Hex sampleHashes sampleStoreKey (''cq/candidate-provider-capability-signature/v1'' @ [NUL]) [[]] =
     Some sampleMAC"
  by (simp_all add: FramedSHA256Hex_def FramedHMACSHA256Hex_def framedHash_def framedMessage_def printable_def
      sampleHashes_def sampleDigest_def sampleMAC_def sampleStoreKey_def)

lemma sample_entry_names:
  "validateAuthorityEntryName (journalName ''run'' 1)" "validateAuthorityEntryName (journalName ''run'' 2)"
  "journalName ''run'' 1 \<noteq> journalName ''run'' 2" "validateAuthorityEntryName ''request-r''"
  "validateAuthorityEntryName sampleSourceName"
  by code_simp+

lemma sample_source_name: "sampleSourceName \<noteq> journalName run n"
  by (simp add: sampleSourceName_def journalName_def Let_def)

lemma sample_crypto:
  "pe_crypto sampleProvider = sampleHashes" "be_crypto sampleEnv = sampleHashes" "pe_store sampleProvider = sampleEnv"
  "pe_capability sampleProvider = (\<lambda>_. [])" "pe_headers sampleProvider = (\<lambda>_. [])"
  by (simp_all add: sampleProvider_def sampleEnv_def)

lemma sample_validate:
  "validateAcquire 0 (sampleBroker rs states) (sampleAcquire (Some []))  = Inr ()"
  "validateAcquire 0 (sampleBroker rs states) (sampleAcquire None)  = Inr ()"
  using sample_entry_names(4) sampleStore_names(4)
  by (simp_all add: validateAcquire_def sampleBroker_def sampleConfig_def sampleAcquire_def broker_config.defs hasPrefix_def
      queryValid_def headerOf_def credentialEchoRepresentationLimit_def)

lemma sample_sign:
  "signCapability sampleProvider (sampleBroker rs states) cap = sampleMAC"
  "candidateCapabilityDigest sampleProvider cap = Some sampleDigest"
  "candidateHeaderDigest sampleProvider h = Some sampleDigest"
  using sample_domains
  by (simp_all add: signCapability_def candidateCapabilityDigest_def candidateHeaderDigest_def sample_crypto
      sampleBroker_def sampleConfig_def broker_config.defs)

lemma sample_new: "newCapability sampleProvider (sampleBroker rs states) (Some []) (sampleAcquire h) = Inr (sampleCapability h)"
  by (simp add: newCapability_def sample_sign sampleCapability_def sampleAcquire_def capability_acquire.defs
      request_capability.defs)

lemma sample_verify: "verifyCapability sampleProvider 0 (sampleBroker rs states) (sampleCapability h) = Inr ()"
proof -
  have "bc_origin_id (sampleBroker rs states) = ''o''"
    by (simp add: sampleBroker_def sampleConfig_def broker_config.defs)
  with sampleStore_names(4) show ?thesis
    by (simp add: verifyCapability_def sample_sign sampleCapability_def sampleAcquire_def capability_acquire.defs
        request_capability.defs)
qed

lemma sample_append:
  "AppendJournal sampleEnv PublishOk (bk_store (sampleBroker [] states)) (sampleObjects [])
     (capabilityRecord (sampleBroker [] states) sampleDigest ''capability_issued'' sampleDigest) =
     (Inr sampleDigest, bk_store (sampleBroker [issuedRecord] states), sampleObjects [issuedRecord])"
  "AppendJournal sampleEnv PublishOk (bk_store (sampleBroker [issuedRecord] states)) (sampleObjects [issuedRecord])
     (capabilityRecord (sampleBroker [issuedRecord] states) sampleDigest ''capability_consumed'' sampleDigest) =
     (Inr sampleDigest, bk_store (sampleBroker [issuedRecord, consumedRecord] states),
      sampleObjects [issuedRecord, consumedRecord])"
  using sample_entry_names(1-3) sampleStore_names(4) sample_source_name sample_source_name [symmetric]
  by (simp_all add: AppendJournal_def Let_def sampleBroker_def sampleConfig_def broker_config.defs emptyStore_def
      capabilityRecord_def sampleSource_def listOf_def candidateRecordMAC_def sampleStore_mac issuedRecord_def
      consumedRecord_def sampleStored_def sampleRecord_def sampleObjects_def PublishImmutable_def install_def)


lemma sample_acquired:
  "Acquire sampleProvider (\<lambda>_. True) PublishOk 0 (Some []) (sampleAcquire (Some [])) (sampleBroker [] Map.empty) (sampleObjects []) =
     (Inr (sampleCapability (Some [])), issuedBroker, sampleObjects [issuedRecord])"
  "Acquire sampleProvider (\<lambda>_. True) PublishOk 0 (Some []) (sampleAcquire None) (sampleBroker [] Map.empty) (sampleObjects []) =
     (Inr (sampleCapability None), issuedBroker, sampleObjects [issuedRecord])"
proof -
  have "cp_digest (sampleCapability h) = sampleDigest" for h
    by (simp add: sampleCapability_def capability_acquire.defs request_capability.defs sampleAcquire_def)
  moreover have "bk_states (sampleBroker [] Map.empty) = Map.empty"
    "sampleBroker [] Map.empty\<lparr>bk_store := bk_store (sampleBroker [issuedRecord] Map.empty),
      bk_states := [sampleDigest \<mapsto> CapabilityIssued]\<rparr> = issuedBroker"
    by (simp_all add: sampleBroker_def broker_config.defs issuedBroker_def)
  ultimately show
    "Acquire sampleProvider (\<lambda>_. True) PublishOk 0 (Some []) (sampleAcquire (Some [])) (sampleBroker [] Map.empty) (sampleObjects []) =
     (Inr (sampleCapability (Some [])), issuedBroker, sampleObjects [issuedRecord])"
    "Acquire sampleProvider (\<lambda>_. True) PublishOk 0 (Some []) (sampleAcquire None) (sampleBroker [] Map.empty) (sampleObjects []) =
     (Inr (sampleCapability None), issuedBroker, sampleObjects [issuedRecord])"
    using sample_append(1) [of Map.empty]
    by (simp_all add: Acquire_def sample_validate sample_new sample_crypto)
qed

lemma sample_consumed:
  "consumeCapability sampleProvider (\<lambda>_. True) PublishOk 0 (sampleCapability h) [] issuedBroker (sampleObjects [issuedRecord]) =
     (Inr (), consumedBroker, sampleObjects [issuedRecord, consumedRecord])"
proof -
  have cap: "cp_digest (sampleCapability h) = sampleDigest" "ac_body_limit (sampleCapability h) = 10"
    "ac_body_digest (sampleCapability h) = sampleDigest"
    by (simp_all add: sampleCapability_def capability_acquire.defs request_capability.defs sampleAcquire_def)
  have digest: "digestBytesForCandidateBroker sampleProvider [] = sampleDigest"
    by (simp add: digestBytesForCandidateBroker_def sample_crypto sampleHashes_def sampleDigest_def)
  have "bk_states issuedBroker sampleDigest = Some CapabilityIssued"
    "issuedBroker\<lparr>bk_store := bk_store (sampleBroker [issuedRecord, consumedRecord] [sampleDigest \<mapsto> CapabilityIssued]),
      bk_states := (bk_states issuedBroker)(sampleDigest \<mapsto> CapabilityConsumed)\<rparr> = consumedBroker"
    by (simp_all add: sampleBroker_def broker_config.defs issuedBroker_def consumedBroker_def)
  with sample_append(2) [of "[sampleDigest \<mapsto> CapabilityIssued]"] show ?thesis
    by (simp add: consumeCapability_def issuedBroker_def sample_verify cap digest sample_crypto)
qed

definition allPublished :: exchange_faults where
  "allPublished = \<lparr>xf_consumed = PublishOk, xf_evidence = PublishOk, xf_terminal = PublishOk\<rparr>"


definition sampleResponse :: upstream_response where
  "sampleResponse = \<lparr>us_status = 200, us_headers = [(''X'', [''y''])], us_body = ''hello'', us_encoding = [],
     us_logical = []\<rparr>"

definition deliveredReceipt :: terminal_receipt where
  "deliveredReceipt = \<lparr>tr_schema = 1, tr_capability = sampleDigest, tr_outcome = CandidateProviderDelivered,
     tr_response_digest = sampleDigest, tr_scan = sampleMAC, tr_response = Some sampleResponse\<rparr>"

definition terminalRecord :: stored_record where "terminalRecord = sampleStored 3 ''capability_terminal'' sampleDigest"
definition sampleEvidenceName :: string where
  "sampleEvidenceName = ''candidate-evidence-'' @ sampleDigest @ ''.json''"
definition sampleScan :: scan_evidence where
  "sampleScan = \<lparr>se_schema = 1, se_run = ''run'', se_source = sampleDigest, se_scan = sampleMAC, se_echoes = 0,
     se_mac = sampleMAC\<rparr>"

definition terminalBroker :: candidate_broker where
  "terminalBroker = (let b = sampleBroker [issuedRecord, consumedRecord, terminalRecord] [sampleDigest \<mapsto> CapabilityTerminal]
     in b\<lparr>bk_store := (bk_store b)\<lparr>cb_evidence := [(''run'', [sampleEvidenceName])]\<rparr>\<rparr>)"
definition terminalObjects :: broker_directory where
  "terminalObjects = (let d = sampleObjects [issuedRecord, consumedRecord]
     in d\<lparr>ad_objects := ad_objects d @ [(sampleEvidenceName, EvidenceObject sampleScan),
       (sr_name terminalRecord, RecordObject (sr_record terminalRecord))]\<rparr>)"

lemma sample_scan: "evidence sampleHashes sampleScanner outcome n =
    \<lparr>ev_schema = 1, ev_outcome = Some outcome, ev_inspected = n, ev_digest = sampleMAC\<rparr>"
proof -
  have "length (outcomeText outcome) \<le> 2 ^ 32 - 1" by (cases outcome) simp_all
  then show ?thesis
    by (simp add: evidence_def sampleScanner_def FramedHMACSHA256Hex_def framedHash_def framedMessage_def printable_def
        sampleHashes_def sampleMAC_def)
qed

lemma sample_receipt: "scanResponse sampleProvider consumedBroker (sampleCapability (Some [])) (Some sampleResponse) = deliveredReceipt"
proof -
  have ev: "responseEvidence sampleProvider sampleScanner p sampleResponse =
      \<lparr>ev_schema = 1, ev_outcome = Some CredentialEchoClear, ev_inspected = 5, ev_digest = sampleMAC\<rparr>" for p
  proof -
    have "\<not> containsPattern sampleScanner ''X''" "\<not> containsPattern sampleScanner ''y''"
      "\<not> containsPattern sampleScanner ''hello''"
      by (simp_all add: containsPattern_def sampleScanner_def sublist_code)
    moreover have "toLower (trimSpace (headerGet [(''X'', [''y''])] ''Content-Encoding'')) = []" by code_simp
    ultimately show ?thesis
      by (simp add: responseEvidence_def ScanHeaders_def ScanRepresentation_def sample_scan sample_crypto sampleResponse_def
          credentialEchoRepresentationLimit_def)
  qed
  have "FramedSHA256Hex sampleHashes (''cq/candidate-visible-provider-response/v1'' @ [NUL]) [[]] = Some sampleDigest"
    by (simp add: FramedSHA256Hex_def framedHash_def framedMessage_def printable_def sampleHashes_def sampleDigest_def)
  moreover have "bc_scanner consumedBroker = sampleScanner" "pe_visible sampleProvider = (\<lambda>_. [])"
    by (simp_all add: consumedBroker_def sampleBroker_def broker_config.defs sampleConfig_def sampleProvider_def)
  moreover have "ac_response_limit (sampleCapability (Some [])) = 10" "cp_digest (sampleCapability (Some [])) = sampleDigest"
    by (simp_all add: sampleCapability_def capability_acquire.defs request_capability.defs sampleAcquire_def)
  ultimately show ?thesis
    using ev by (simp add: scanResponse_def sample_crypto deliveredReceipt_def) (simp add: sampleResponse_def)
qed

lemma sample_late_names:
  "validateAuthorityEntryName (journalName ''run'' 3)" "journalName ''run'' 1 \<noteq> journalName ''run'' 3"
  "journalName ''run'' 2 \<noteq> journalName ''run'' 3" "validateAuthorityEntryName sampleEvidenceName"
  "lowerHexDigest sampleMAC" "sampleSourceName \<noteq> sampleEvidenceName"
  by code_simp+

lemma sample_evidence_name: "sampleEvidenceName \<noteq> journalName run n"
  by (simp add: sampleEvidenceName_def journalName_def Let_def)

lemma sample_settled:
  "settleCapability sampleProvider (\<lambda>_. True) PublishOk PublishOk (sampleCapability (Some [])) deliveredReceipt consumedBroker
     (sampleObjects [issuedRecord, consumedRecord]) = (ExchangeReceipt deliveredReceipt, terminalBroker, terminalObjects)"
proof -
  have "FramedSHA256Hex sampleHashes (''cq/candidate-provider-terminal/v1'' @ [NUL]) [[]] = Some sampleDigest"
    by (simp add: FramedSHA256Hex_def framedHash_def framedMessage_def printable_def sampleHashes_def sampleDigest_def)
  moreover have "pe_receipt sampleProvider = (\<lambda>_. [])" by (simp add: sampleProvider_def)
  moreover have "hexEncode (cy_sha256 sampleHashes v) = sampleDigest" for v by (simp add: sampleHashes_def sampleDigest_def)
  moreover have "cp_digest (sampleCapability (Some [])) = sampleDigest"
    by (simp add: sampleCapability_def capability_acquire.defs request_capability.defs sampleAcquire_def)
  ultimately show ?thesis
    using sample_late_names [unfolded sampleEvidenceName_def] sample_evidence_name [unfolded sampleEvidenceName_def]
      sample_evidence_name [unfolded sampleEvidenceName_def, symmetric] sample_source_name
      sample_source_name [symmetric] sample_entry_names(1-3) sampleStore_names(4)
    by (simp add: settleCapability_def PublishScanEvidence_def AppendJournal_def Let_def consumedBroker_def sampleBroker_def
        sampleConfig_def broker_config.defs emptyStore_def capabilityRecord_def sampleSource_def listOf_def appendTo_def
        candidateRecordMAC_def candidateEvidenceMAC_def sampleStore_mac issuedRecord_def consumedRecord_def sampleStored_def
        sampleRecord_def sampleObjects_def PublishImmutable_def install_def sample_crypto deliveredReceipt_def
        terminalBroker_def terminalObjects_def terminalRecord_def sampleScan_def sampleMAC_def [symmetric]
        sampleEvidenceName_def)
qed


lemma sample_exchanged:
  "Exchange sampleProvider (\<lambda>_. True) allPublished (\<lambda>_. Some sampleResponse) 0 (sampleCapability (Some [])) [] issuedBroker
     (sampleObjects [issuedRecord]) =
     (ExchangeReceipt deliveredReceipt, [upstreamRequest consumedBroker (sampleCapability (Some [])) [] []],
      terminalBroker, terminalObjects)"
proof -
  have "ac_headers (sampleCapability (Some [])) = Some []"
    by (simp add: sampleCapability_def capability_acquire.defs request_capability.defs sampleAcquire_def)
  with sample_consumed [of "Some []"] sample_settled show ?thesis
    by (simp add: Exchange_def allPublished_def sample_receipt)
qed


lemma sample_published:
  "PublishSource sampleEnv PublishOk emptyStore emptyDirectory sampleSource =
     (Inr sampleDigest, bk_store (sampleBroker [] Map.empty), sampleObjects [])"
proof -
  have "hexEncode (cy_sha256 sampleHashes v) = sampleDigest" for v by (simp add: sampleHashes_def sampleDigest_def)
  moreover have "validateCandidateValidationSource (sampleSource\<lparr>so_mac := []\<rparr>) [] = Inr ()"
  proof -
    have "validateCandidateValidationSource (x\<lparr>so_mac := m\<rparr>) available = validateCandidateValidationSource x available"
      for x m available by (simp add: validateCandidateValidationSource_def)
    with sampleStore_valid show ?thesis by simp
  qed
  ultimately show ?thesis
    using sample_entry_names(5) [unfolded sampleSourceName_def]
    by (simp add: PublishSource_def Let_def emptyStore_def emptyDirectory_def candidateSourceMAC_def sampleStore_mac
        sample_crypto runExists_def runCount_def PublishImmutable_def install_def sampleObjects_def sampleBroker_def
        broker_config.defs sampleSourceName_def) (simp add: sampleSource_def)
qed

lemma broker_step_on_world:
  fixes d b calls
  defines "w \<equiv> \<lparr>bw_directory = d, bw_broker = Some b, bw_calls = calls\<rparr>"
  shows "PublishSource (pe_store env) fault (bk_store b) d source = (r, s, d') \<Longrightarrow>
      broker_step env parse cfg runs records w \<lparr>bw_directory = d', bw_broker = Some (b\<lparr>bk_store := s\<rparr>), bw_calls = calls\<rparr>"
    and "Acquire env hook fault now nonce a b d = (r', b', d') \<Longrightarrow>
      broker_step env parse cfg runs records w \<lparr>bw_directory = d', bw_broker = Some b', bw_calls = calls\<rparr>"
    and "Exchange env hook faults transport now cap body b d = (x, requests, b', d') \<Longrightarrow>
      broker_step env parse cfg runs records w
        \<lparr>bw_directory = d', bw_broker = Some b', bw_calls = map (\<lambda>q. (cp_digest cap, q)) requests @ calls\<rparr>"
  using broker_step.source_step [of w b env fault source r s d' parse cfg runs records]
    broker_step.acquire_step [of w b env hook fault now nonce a r' b' d' parse cfg runs records]
    broker_step.exchange_step [of w b env hook faults transport now cap body x requests b' d' parse cfg runs records]
  by (simp_all add: w_def)

theorem capability_called_once_witness:
  "\<exists>w. reachable broker_initial (broker_step sampleProvider sampleURL sampleConfig 1 9) w \<and> length (bw_calls w) = 1 \<and>
     distinct (map fst (bw_calls w)) \<and>
     (\<forall>(digest, request) \<in> set (bw_calls w). consumedDurably sampleProvider ''run'' (bw_directory w) digest)"
proof -
  let ?reachable = "reachable broker_initial (broker_step sampleProvider sampleURL sampleConfig 1 9)"
  let ?world = "\<lambda>d b calls. \<lparr>bw_directory = d, bw_broker = b, bw_calls = calls\<rparr>"
  let ?start = "(sampleBroker [] Map.empty)\<lparr>bk_store := emptyStore\<rparr>"
  have w0: "?reachable (?world emptyDirectory None [])" by (rule reachable.intros(1)) (simp add: broker_initial_def)
  have opened: "OpenCandidateBrokerStore (pe_store sampleProvider) emptyDirectory sampleStoreKey 1 9 = Some (Inr emptyStore)"
    by (simp add: OpenCandidateBrokerStore_def emptyDirectory_def reopenSources.simps sortJournal_def runCount_def
        emptyStore_def sampleStore_limits(2))
  have new: "NewCandidateBroker sampleURL sampleConfig emptyStore = Inr ?start"
    using sampleStore_names(4) sampleStore_limits(2)
    by (simp add: NewCandidateBroker_def sampleConfig_def sampleURL_def JournalRecords_def listOf_def emptyStore_def
        recoverStates_def sampleBroker_def broker_config.defs)
  have w1: "?reachable (?world emptyDirectory (Some ?start) [])"
    using reachable_step [OF w0 broker_step.open_step [OF _ _ new]] opened by simp
  have w2: "?reachable (?world (sampleObjects []) (Some (sampleBroker [] Map.empty)) [])"
  proof -
    have "PublishSource (pe_store sampleProvider) PublishOk (bk_store ?start) emptyDirectory sampleSource =
        (Inr sampleDigest, bk_store (sampleBroker [] Map.empty), sampleObjects [])"
      using sample_published by (simp add: sample_crypto)
    from reachable_step [OF w1 broker_step_on_world(1) [OF this]] show ?thesis by simp
  qed
  note w3 = reachable_step [OF w2 broker_step_on_world(2) [OF sample_acquired(1)]]
  note w4 = reachable_step [OF w3 broker_step_on_world(3) [OF sample_exchanged]]
  moreover have "bc_run sampleConfig = ''run''" by (simp add: sampleConfig_def)
  ultimately show ?thesis using capability_called_once [OF w4] by (intro exI) auto
qed

end
